(* ===== verification/Prelude.thy ===== *)
theory Prelude
  imports Main "HOL-Library.Multiset" "HOL-Library.AList"
begin

text \<open>
  Generic material shared by the components: the development's collections of facts,
  list lemmas, \<open>Array.prototype.sort\<close> with a comparator, and the interface of a
  comparator that is a total preorder.
\<close>

named_theorems js_defs \<open>definitions of the JavaScript primitives, for unfolding\<close>
named_theorems js_simps \<open>rewrite rules for the JavaScript primitives\<close>
named_theorems mset_simps \<open>what an operation does to the multiset of its elements\<close>

section \<open>Lists\<close>

lemma mset_concat_map_cong:
  "(\<And>x. x \<in> set xs \<Longrightarrow> mset (f x) = mset (g x)) \<Longrightarrow>
   mset (concat (map f xs)) = mset (concat (map g xs))"
  by (induction xs) auto

lemma mset_concat_map_perm:
  "mset xs = mset ys \<Longrightarrow> mset (concat (map f xs)) = mset (concat (map f ys))"
  by (metis mset_concat mset_map sum_mset_sum_list)

text \<open>The first element of \<open>xs\<close> that satisfies \<open>P\<close>, as \<open>Array.prototype.find\<close>.\<close>

lemma find_Some_set: "List.find P xs = Some x \<Longrightarrow> x \<in> set xs \<and> P x"
  by (auto simp: find_Some_iff)

lemma fold_invariant_list:
  "Q s \<Longrightarrow> (\<And>x s. x \<in> set xs \<Longrightarrow> Q s \<Longrightarrow> Q (f x s)) \<Longrightarrow> Q (fold f xs s)"
  by (induction xs arbitrary: s) auto

section \<open>Sorting with a comparator\<close>

text \<open>
  \<open>xs.sort(cmp)\<close>: a stable sort in which \<open>cmp x y \<le> 0\<close> leaves \<open>x\<close> before \<open>y\<close>.
  The language fixes the result only when the comparator is consistent; for the others the
  result here is one of the permutations it allows.
\<close>

fun insert_by :: "('a \<Rightarrow> 'a \<Rightarrow> int) \<Rightarrow> 'a \<Rightarrow> 'a list \<Rightarrow> 'a list" where
  "insert_by cmp x [] = [x]"
| "insert_by cmp x (y # ys) =
     (if cmp x y \<le> 0 then x # y # ys else y # insert_by cmp x ys)"

definition js_sort :: "('a \<Rightarrow> 'a \<Rightarrow> int) \<Rightarrow> 'a list \<Rightarrow> 'a list" where
  "js_sort cmp xs = foldr (insert_by cmp) xs []"

lemma js_sort_Nil [simp]: "js_sort cmp [] = []"
  and js_sort_Cons [simp]: "js_sort cmp (x # xs) = insert_by cmp x (js_sort cmp xs)"
  by (simp_all add: js_sort_def)

lemma mset_insert_by [simp, mset_simps]: "mset (insert_by cmp x xs) = add_mset x (mset xs)"
  by (induction xs) auto

lemma mset_js_sort [simp, mset_simps]: "mset (js_sort cmp xs) = mset xs"
  by (induction xs) auto

lemma set_js_sort [simp]: "set (js_sort cmp xs) = set xs"
  by (metis mset_js_sort set_mset_mset)

lemma length_js_sort [simp]: "length (js_sort cmp xs) = length xs"
  by (metis mset_js_sort size_mset)

lemma js_sort_eq_Nil [simp]: "js_sort cmp xs = [] \<longleftrightarrow> xs = []"
  by (metis length_0_conv length_js_sort)

lemma distinct_js_sort [simp]: "distinct (js_sort cmp xs) \<longleftrightarrow> distinct xs"
  by (metis distinct_count_atmost_1 mset_js_sort set_js_sort)

text \<open>The contract a comparator has to meet for the result to be sorted.\<close>

locale js_comparator =
  fixes cmp :: "'a \<Rightarrow> 'a \<Rightarrow> int"
  assumes cmp_total: "cmp x y \<le> 0 \<or> cmp y x \<le> 0"
    and cmp_trans: "cmp x y \<le> 0 \<Longrightarrow> cmp y z \<le> 0 \<Longrightarrow> cmp x z \<le> 0"
begin

lemma sorted_insert_by:
  assumes "sorted_wrt (\<lambda>x y. cmp x y \<le> 0) xs"
  shows "sorted_wrt (\<lambda>x y. cmp x y \<le> 0) (insert_by cmp x xs)"
  using assms
proof (induction xs)
  case Nil
  show ?case by simp
next
  case (Cons y ys)
  have set_ins: "set (insert_by cmp x ys) = insert x (set ys)"
    by (metis mset_insert_by set_mset_add_mset_insert set_mset_mset)
  show ?case
  proof (cases "cmp x y \<le> 0")
    case True
    with Cons.prems show ?thesis by (auto intro: cmp_trans)
  next
    case False
    then have "cmp y x \<le> 0" using cmp_total by blast
    with Cons False show ?thesis by (auto simp: set_ins)
  qed
qed

lemma sorted_js_sort: "sorted_wrt (\<lambda>x y. cmp x y \<le> 0) (js_sort cmp xs)"
  by (induction xs) (auto intro: sorted_insert_by)

lemma insert_by_minimal:
  "(\<And>y. y \<in> set xs \<Longrightarrow> cmp x y \<le> 0) \<Longrightarrow> insert_by cmp x xs = x # xs"
  by (cases xs) auto

lemma js_sort_sorted_id:
  "sorted_wrt (\<lambda>x y. cmp x y \<le> 0) xs \<Longrightarrow> js_sort cmp xs = xs"
  by (induction xs) (auto intro: insert_by_minimal)

lemma js_sort_idem [simp]: "js_sort cmp (js_sort cmp xs) = js_sort cmp xs"
  by (rule js_sort_sorted_id [OF sorted_js_sort])

end

end
