(* ===== verification/JsValue.thy ===== *)
theory JsValue
  imports Prelude "HOL-Library.List_Lexorder" "HOL-Library.Char_ord"
begin

text \<open>
  The JavaScript values and string operations the sources compute with. A string is a list
  of code units up to 255; whitespace and case are those of
  that range (the three lower-case letters whose upper case lies outside it stay as they are). Numbers are the
  integers a configuration document carries. An object is an association list in insertion
  order; \<open>own_entries\<close> gives the order in which the language enumerates it. Property
  names that \<open>Object.prototype\<close> defines itself are outside the model.
\<close>

section \<open>Strings\<close>

definition is_space :: "char \<Rightarrow> bool" where
  "is_space c \<longleftrightarrow> (let n = (of_char c :: nat) in (9 \<le> n \<and> n \<le> 13) \<or> n = 32 \<or> n = 160)"

definition is_digit :: "char \<Rightarrow> bool" where
  "is_digit c \<longleftrightarrow> (let n = (of_char c :: nat) in 48 \<le> n \<and> n \<le> 57)"

definition trim_start :: "string \<Rightarrow> string" where
  "trim_start s = dropWhile is_space s"

definition js_trim :: "string \<Rightarrow> string" where
  "js_trim s = rev (trim_start (rev (trim_start s)))"

definition lower_char :: "char \<Rightarrow> char" where
  "lower_char c = (let n = (of_char c :: nat) in
     if (65 \<le> n \<and> n \<le> 90) \<or> (192 \<le> n \<and> n \<le> 222 \<and> n \<noteq> 215) then char_of (n + 32) else c)"

definition upper_char :: "char \<Rightarrow> char" where
  "upper_char c = (let n = (of_char c :: nat) in
     if (97 \<le> n \<and> n \<le> 122) \<or> (224 \<le> n \<and> n \<le> 254 \<and> n \<noteq> 247) then char_of (n - 32) else c)"

definition to_lower :: "string \<Rightarrow> string" where
  "to_lower s = map lower_char s"

definition to_upper :: "string \<Rightarrow> string" where
  "to_upper s = map upper_char s"

definition starts_with :: "string \<Rightarrow> string \<Rightarrow> bool" where
  "starts_with p s \<longleftrightarrow> take (length p) s = p"

definition ends_with :: "string \<Rightarrow> string \<Rightarrow> bool" where
  "ends_with p s \<longleftrightarrow> starts_with (rev p) (rev s)"

fun js_includes :: "string \<Rightarrow> string \<Rightarrow> bool" where
  "js_includes p [] \<longleftrightarrow> p = []"
| "js_includes p (c # s) \<longleftrightarrow> starts_with p (c # s) \<or> js_includes p s"

text \<open>\<open>s.split(c)\<close> at each character that satisfies \<open>P\<close>; the empty string gives one empty part.\<close>

fun split_by :: "(char \<Rightarrow> bool) \<Rightarrow> string \<Rightarrow> string list" where
  "split_by P [] = [[]]"
| "split_by P (c # s) =
     (if P c then [] # split_by P s
      else (case split_by P s of [] \<Rightarrow> [[c]] | w # ws \<Rightarrow> (c # w) # ws))"

abbreviation split_on :: "char \<Rightarrow> string \<Rightarrow> string list" where
  "split_on d \<equiv> split_by (\<lambda>c. c = d)"

fun join :: "string \<Rightarrow> string list \<Rightarrow> string" where
  "join sep [] = []"
| "join sep [w] = w"
| "join sep (w # v # ws) = w @ sep @ join sep (v # ws)"

text \<open>\<open>s.replace(/\s+/g, " ")\<close>, and the same for any class of characters and replacement.\<close>

function collapse_runs :: "(char \<Rightarrow> bool) \<Rightarrow> char \<Rightarrow> string \<Rightarrow> string" where
  "collapse_runs P r [] = []"
| "collapse_runs P r (c # s) =
     (if P c then r # collapse_runs P r (dropWhile P s) else c # collapse_runs P r s)"
  by pat_completeness auto
termination
  by (relation "measure (\<lambda>(P, r, s). length s)") (auto simp: le_imp_less_Suc length_dropWhile_le)

definition drop_trailing :: "(char \<Rightarrow> bool) \<Rightarrow> string \<Rightarrow> string" where
  "drop_trailing P s = rev (dropWhile P (rev s))"

lemmas [js_defs] = is_space_def is_digit_def trim_start_def js_trim_def starts_with_def
  ends_with_def to_lower_def to_upper_def lower_char_def upper_char_def

lemma split_by_not_Nil [simp]: "split_by P s \<noteq> []"
  by (induction s) (auto split: list.splits)

lemma split_by_no_sep: "w \<in> set (split_by P s) \<Longrightarrow> c \<in> set w \<Longrightarrow> \<not> P c"
proof (induction s arbitrary: w)
  case Nil
  then show ?case by simp
next
  case (Cons a s)
  show ?case
  proof (cases "P a")
    case True
    with Cons show ?thesis by auto
  next
    case False
    obtain v vs where sp: "split_by P s = v # vs" by (cases "split_by P s") auto
    with Cons.prems False have "w = a # v \<or> w \<in> set vs" by simp
    with Cons.IH [of v] Cons.IH [of w] Cons.prems(2) False sp show ?thesis by auto
  qed
qed

lemma join_Cons_ne: "ws \<noteq> [] \<Longrightarrow> join sep (w # ws) = w @ sep @ join sep ws"
  by (cases ws) auto

lemma join_split_on [simp]: "join [d] (split_on d s) = s"
proof (induction s)
  case Nil
  show ?case by simp
next
  case (Cons c s)
  obtain w ws where sp: "split_on d s = w # ws"
    by (cases "split_on d s") auto
  with Cons show ?case
    by (cases ws) (auto simp: join_Cons_ne)
qed

lemma split_on_join:
  "ws \<noteq> [] \<Longrightarrow> (\<And>w. w \<in> set ws \<Longrightarrow> d \<notin> set w) \<Longrightarrow> split_on d (join [d] ws) = ws"
proof (induction "[d]" ws rule: join.induct)
  case 1
  then show ?case by simp
next
  case (2 w)
  then have "d \<notin> set w" by simp
  then show ?case by (induction w) auto
next
  case (3 w v ws)
  from 3 have IH: "split_on d (join [d] (v # ws)) = v # ws" and "d \<notin> set w" by auto
  from \<open>d \<notin> set w\<close> have "split_on d (w @ d # join [d] (v # ws)) = w # v # ws"
    using IH by (induction w) auto
  then show ?case by simp
qed

lemma join_inject:
  assumes "join [d] xs = join [d] ys" "xs \<noteq> []" "ys \<noteq> []"
    and "\<And>w. w \<in> set xs \<Longrightarrow> d \<notin> set w" "\<And>w. w \<in> set ys \<Longrightarrow> d \<notin> set w"
  shows "xs = ys"
  by (metis assms split_on_join)

lemma dropWhile_idem [simp]: "dropWhile P (dropWhile P xs) = dropWhile P xs"
  by (induction xs) auto

lemma trim_start_idem [simp]: "trim_start (trim_start s) = trim_start s"
  by (simp add: trim_start_def)

lemma trim_start_fix: "trim_start s = s \<longleftrightarrow> s = [] \<or> \<not> is_space (hd s)"
proof (cases s)
  case Nil
  then show ?thesis by (simp add: trim_start_def)
next
  case (Cons c t)
  have "length (dropWhile is_space t) < length (c # t)"
    by (simp add: le_imp_less_Suc length_dropWhile_le)
  with Cons show ?thesis by (auto simp: trim_start_def)
qed

lemma trim_start_rev_fix: "trim_start s = s \<Longrightarrow> trim_start (rev (trim_start (rev s))) = rev (trim_start (rev s))"
proof (cases "trim_start (rev s) = []")
  case True
  then have "rev (trim_start (rev s)) = []" by simp
  then show ?thesis by (simp only:) (simp add: trim_start_def)
next
  case False
  assume s: "trim_start s = s"
  obtain u where u: "rev s = u @ trim_start (rev s)"
    unfolding trim_start_def by (metis takeWhile_dropWhile_id)
  then have "s = rev (trim_start (rev s)) @ rev u"
    by (metis rev_append rev_rev_ident)
  then have "hd s = hd (rev (trim_start (rev s)))"
    using False by (metis hd_append2 rev_is_Nil_conv)
  with s False show ?thesis
    by (metis trim_start_fix rev.simps(1))
qed

lemma js_trim_idem [simp]: "js_trim (js_trim s) = js_trim s"
proof -
  have "trim_start (js_trim s) = js_trim s"
    unfolding js_trim_def by (rule trim_start_rev_fix) simp
  then show ?thesis
    unfolding js_trim_def by simp
qed

lemma js_trim_Nil [simp]: "js_trim [] = []"
  by (simp add: js_trim_def trim_start_def)

lemma starts_with_Nil [simp]: "starts_with [] s"
  and starts_with_Cons [simp]: "starts_with (a # p) (b # s) \<longleftrightarrow> a = b \<and> starts_with p s"
  and starts_with_Cons_Nil [simp]: "\<not> starts_with (a # p) []"
  by (auto simp: starts_with_def)

lemma starts_with_append [simp]: "starts_with p (p @ s)"
  by (simp add: starts_with_def)

lemma starts_with_iff: "starts_with p s \<longleftrightarrow> (\<exists>t. s = p @ t)"
  unfolding starts_with_def by (metis append_eq_conv_conj append_take_drop_id)

section \<open>Decimal numerals\<close>

fun nat_str :: "nat \<Rightarrow> string" where
  "nat_str n = (if n < 10 then [char_of (48 + n)] else nat_str (n div 10) @ [char_of (48 + n mod 10)])"

declare nat_str.simps [simp del]

definition int_str :: "int \<Rightarrow> string" where
  "int_str i = (if i < 0 then CHR ''-'' # nat_str (nat (- i)) else nat_str (nat i))"

definition digit_val :: "char \<Rightarrow> nat" where
  "digit_val c = of_char c - 48"

definition str_nat :: "string \<Rightarrow> nat" where
  "str_nat s = foldl (\<lambda>n c. 10 * n + digit_val c) 0 s"

lemma of_char_digit: "n < 10 \<Longrightarrow> (of_char (char_of (48 + n) :: char) :: nat) = 48 + n"
  by (simp add: of_char_of)

lemma str_nat_snoc [simp]: "str_nat (s @ [c]) = 10 * str_nat s + digit_val c"
  by (simp add: str_nat_def)

lemma str_nat_nat_str [simp]: "str_nat (nat_str n) = n"
proof (induction n rule: nat_str.induct)
  case (1 n)
  show ?case
  proof (cases "n < 10")
    case True
    then show ?thesis
      by (simp add: nat_str.simps [of n] str_nat_def digit_val_def of_char_digit)
  next
    case False
    with 1 show ?thesis
      by (simp add: nat_str.simps [of n] digit_val_def of_char_digit)
  qed
qed

lemma nat_str_inject [simp]: "nat_str m = nat_str n \<longleftrightarrow> m = n"
  by (metis str_nat_nat_str)

lemma nat_str_digits: "c \<in> set (nat_str n) \<Longrightarrow> is_digit c"
proof (induction n rule: nat_str.induct)
  case (1 n)
  show ?case
  proof (cases "n < 10")
    case True
    with "1.prems" show ?thesis by (auto simp: nat_str.simps [of n] is_digit_def of_char_of)
  next
    case False
    then have "nat_str n = nat_str (n div 10) @ [char_of (48 + n mod 10)]"
      by (simp add: nat_str.simps [of n])
    with "1.prems" "1.IH" [OF False] show ?thesis by (auto simp: is_digit_def of_char_of)
  qed
qed

lemma nat_str_not_Nil [simp]: "nat_str n \<noteq> []"
  by (subst nat_str.simps) auto

end
