(* ===== verification/JsObject.thy ===== *)
theory JsObject
  imports JsValue
begin

text \<open>
  JavaScript values with the conversions and the object operations of the language:
  truthiness, \<open>String(v)\<close>, property access, spread, enumeration order and
  \<open>JSON.parse(JSON.stringify(v))\<close>.
\<close>

datatype jval =
    Undef
  | Null
  | JBool bool
  | JNum int
  | JStr string
  | JArr "jval list"
  | JObj "(string \<times> jval) list"

type_synonym obj = "(string \<times> jval) list"

section \<open>Conversions\<close>

fun truthy :: "jval \<Rightarrow> bool" where
  "truthy Undef = False"
| "truthy Null = False"
| "truthy (JBool b) = b"
| "truthy (JNum n) = (n \<noteq> 0)"
| "truthy (JStr s) = (s \<noteq> [])"
| "truthy (JArr xs) = True"
| "truthy (JObj es) = True"

definition js_or :: "jval \<Rightarrow> jval \<Rightarrow> jval" where
  "js_or a b = (if truthy a then a else b)"

definition coalesce :: "jval \<Rightarrow> jval \<Rightarrow> jval" where
  "coalesce a b = (if a = Undef \<or> a = Null then b else a)"

fun to_str :: "jval \<Rightarrow> string" where
  "to_str Undef = ''undefined''"
| "to_str Null = ''null''"
| "to_str (JBool b) = (if b then ''true'' else ''false'')"
| "to_str (JNum n) = int_str n"
| "to_str (JStr s) = s"
| "to_str (JArr xs) = join '','' (map (\<lambda>x. if x = Undef \<or> x = Null then [] else to_str x) xs)"
| "to_str (JObj es) = ''[object Object]''"

text \<open>\<open>String(v || s)\<close> and \<open>String(v ?? s)\<close>.\<close>

definition str_or :: "jval \<Rightarrow> string \<Rightarrow> string" where
  "str_or v s = to_str (js_or v (JStr s))"

definition str_nullish :: "jval \<Rightarrow> string \<Rightarrow> string" where
  "str_nullish v s = to_str (coalesce v (JStr s))"

fun is_object :: "jval \<Rightarrow> bool" where
  "is_object (JArr xs) = True"
| "is_object (JObj es) = True"
| "is_object v = False"

fun is_record :: "jval \<Rightarrow> bool" where
  "is_record (JObj es) = True"
| "is_record v = False"

fun is_string :: "jval \<Rightarrow> bool" where
  "is_string (JStr s) = True"
| "is_string v = False"

fun is_number :: "jval \<Rightarrow> bool" where
  "is_number (JNum n) = True"
| "is_number v = False"

fun is_array :: "jval \<Rightarrow> bool" where
  "is_array (JArr xs) = True"
| "is_array v = False"

fun is_boolean :: "jval \<Rightarrow> bool" where
  "is_boolean (JBool b) = True"
| "is_boolean v = False"

fun array_or_empty :: "jval \<Rightarrow> jval list" where
  "array_or_empty (JArr xs) = xs"
| "array_or_empty v = []"

fun record_or_empty :: "jval \<Rightarrow> obj" where
  "record_or_empty (JObj es) = es"
| "record_or_empty v = []"

section \<open>Own properties\<close>

text \<open>Array-index names come first, ascending; the others follow in insertion order.\<close>

definition is_index :: "string \<Rightarrow> bool" where
  "is_index k \<longleftrightarrow> k \<noteq> [] \<and> list_all is_digit k \<and> (hd k = CHR ''0'' \<longrightarrow> k = ''0'')
     \<and> str_nat k < 4294967295"

definition own_entries :: "(string \<times> 'a) list \<Rightarrow> (string \<times> 'a) list" where
  "own_entries es = sort_key (\<lambda>e. str_nat (fst e)) (filter (\<lambda>e. is_index (fst e)) es)
     @ filter (\<lambda>e. \<not> is_index (fst e)) es"

definition own_keys :: "(string \<times> 'a) list \<Rightarrow> string list" where
  "own_keys es = map fst (own_entries es)"

definition oget :: "obj \<Rightarrow> string \<Rightarrow> jval" where
  "oget es k = (case map_of es k of None \<Rightarrow> Undef | Some v \<Rightarrow> v)"

definition ohas :: "(string \<times> 'a) list \<Rightarrow> string \<Rightarrow> bool" where
  "ohas es k \<longleftrightarrow> k \<in> fst ` set es"

abbreviation oput :: "string \<Rightarrow> 'a \<Rightarrow> (string \<times> 'a) list \<Rightarrow> (string \<times> 'a) list" where
  "oput \<equiv> AList.update"

abbreviation odel :: "string \<Rightarrow> (string \<times> 'a) list \<Rightarrow> (string \<times> 'a) list" where
  "odel \<equiv> AList.delete"

text \<open>\<open>{...a, ...b}\<close>, and \<open>Object.fromEntries(es)\<close> (a later entry overwrites an earlier one).\<close>

definition ospread :: "(string \<times> 'a) list \<Rightarrow> (string \<times> 'a) list \<Rightarrow> (string \<times> 'a) list" where
  "ospread a b = fold (\<lambda>(k, v). oput k v) (own_entries b) a"

definition from_entries :: "(string \<times> 'a) list \<Rightarrow> (string \<times> 'a) list" where
  "from_entries es = fold (\<lambda>(k, v). oput k v) es []"

fun jget :: "jval \<Rightarrow> string \<Rightarrow> jval" where
  "jget (JObj es) k = oget es k"
| "jget (JArr xs) k =
     (if k = ''length'' then JNum (int (length xs))
      else if is_index k \<and> str_nat k < length xs then xs ! str_nat k else Undef)"
| "jget (JStr s) k =
     (if k = ''length'' then JNum (int (length s))
      else if is_index k \<and> str_nat k < length s then JStr [s ! str_nat k] else Undef)"
| "jget v k = Undef"

text \<open>\<open>String(v.k || "")\<close>\<close>

definition member_str :: "jval \<Rightarrow> string \<Rightarrow> string" where
  "member_str v k = str_or (jget v k) []"

text \<open>\<open>Object.entries(v)\<close>; an array has its indices as names.\<close>

fun obj_entries :: "jval \<Rightarrow> obj" where
  "obj_entries (JObj es) = own_entries es"
| "obj_entries (JArr xs) = map2 (\<lambda>i x. (nat_str i, x)) [0..<length xs] xs"
| "obj_entries (JStr s) = map2 (\<lambda>i c. (nat_str i, JStr [c])) [0..<length s] s"
| "obj_entries v = []"

text \<open>\<open>JSON.parse(JSON.stringify(v))\<close>: absent members are dropped, absent elements become null.\<close>

fun clone_json :: "jval \<Rightarrow> jval" where
  "clone_json (JArr xs) = JArr (map (\<lambda>x. if x = Undef then Null else clone_json x) xs)"
| "clone_json (JObj es) =
     JObj (own_entries (filter (\<lambda>e. snd e \<noteq> Undef) (map (\<lambda>(k, v). (k, clone_json v)) es)))"
| "clone_json v = v"

fun wf_jval :: "jval \<Rightarrow> bool" where
  "wf_jval (JArr xs) \<longleftrightarrow> (\<forall>x \<in> set xs. wf_jval x)"
| "wf_jval (JObj es) \<longleftrightarrow> distinct (map fst es) \<and> (\<forall>(k, v) \<in> set es. wf_jval v)"
| "wf_jval v \<longleftrightarrow> True"

section \<open>Facts\<close>

lemmas [js_defs] = js_or_def coalesce_def str_or_def str_nullish_def oget_def ohas_def
  is_index_def own_entries_def own_keys_def ospread_def from_entries_def

lemma str_or_JStr [simp]: "str_or (JStr s) d = (if s = [] then d else s)"
  and str_or_Undef [simp]: "str_or Undef d = d"
  and str_or_Null [simp]: "str_or Null d = d"
  by (simp_all add: str_or_def js_or_def)

lemma mset_own_entries [simp, mset_simps]: "mset (own_entries es) = mset es"
  by (simp add: own_entries_def)

lemma set_own_entries [simp]: "set (own_entries es) = set es"
  by (metis mset_own_entries set_mset_mset)

lemma length_own_entries [simp]: "length (own_entries es) = length es"
  by (metis mset_own_entries size_mset)

lemma own_entries_Nil [simp]: "own_entries [] = []"
  by (simp add: own_entries_def)

lemma own_entries_eq_Nil [simp]: "own_entries es = [] \<longleftrightarrow> es = []"
  by (metis length_0_conv length_own_entries)

lemma distinct_own_entries [simp]:
  "distinct (map fst (own_entries es)) \<longleftrightarrow> distinct (map fst es)"
  by (metis distinct_count_atmost_1 mset_map mset_own_entries set_map set_own_entries)

lemma map_of_own_entries [simp]:
  "distinct (map fst es) \<Longrightarrow> map_of (own_entries es) = map_of es"
  by (rule map_of_eqI) (auto simp: map_of_eq_Some_iff)

lemma own_entries_no_index:
  "(\<And>k v. (k, v) \<in> set es \<Longrightarrow> \<not> is_index k) \<Longrightarrow> own_entries es = es"
proof -
  assume "\<And>k v. (k, v) \<in> set es \<Longrightarrow> \<not> is_index k"
  then have "filter (\<lambda>e. is_index (fst e)) es = []" and "filter (\<lambda>e. \<not> is_index (fst e)) es = es"
    by (auto simp: filter_empty_conv filter_id_conv)
  then show ?thesis by (simp add: own_entries_def)
qed

lemma own_entries_idem [simp]: "own_entries (own_entries es) = own_entries es"
proof -
  let ?I = "\<lambda>e :: string \<times> 'a. is_index (fst e)"
  let ?s = "sort_key (\<lambda>e :: string \<times> 'a. str_nat (fst e))"
  have 1: "filter ?I (?s (filter ?I es)) = ?s (filter ?I es)"
    by (rule filter_True) auto
  have 2: "filter (\<lambda>e. \<not> ?I e) (?s (filter ?I es)) = []"
    by (rule filter_False) auto
  have 3: "filter ?I (filter (\<lambda>e. \<not> ?I e) es) = []"
    by (rule filter_False) auto
  have 4: "filter (\<lambda>e. \<not> ?I e) (filter (\<lambda>e. \<not> ?I e) es) = filter (\<lambda>e. \<not> ?I e) es"
    by simp
  have 5: "?s (?s (filter ?I es)) = ?s (filter ?I es)"
    by (rule sort_key_id_if_sorted) simp
  show ?thesis
    unfolding own_entries_def by (simp only: filter_append 1 2 3 4 5 append_Nil append_Nil2)
qed

lemma filter_own_entries: "filter P (own_entries es) = own_entries (filter P es)"
  unfolding own_entries_def
  by (simp add: filter_sort filter_filter conj_commute)

lemma fst_comp_map_snd [simp]: "fst \<circ> (\<lambda>(k, v). (k, f v)) = fst"
  by auto

lemma own_entries_map_snd:
  fixes es :: "(string \<times> 'a) list" and f :: "'a \<Rightarrow> 'b"
  shows "own_entries (map (\<lambda>(k, v). (k, f v)) es) = map (\<lambda>(k, v). (k, f v)) (own_entries es)"
proof -
  have ins: "map (\<lambda>(k, v). (k, f v)) (insort_key (\<lambda>e. str_nat (fst e)) x ys)
      = insort_key (\<lambda>e. str_nat (fst e)) ((\<lambda>(k, v). (k, f v)) x) (map (\<lambda>(k, v). (k, f v)) ys)"
    for x :: "string \<times> 'a" and ys
    by (induction ys) (auto split: prod.splits)
  have srt: "map (\<lambda>(k, v). (k, f v)) (sort_key (\<lambda>e. str_nat (fst e)) ys)
      = sort_key (\<lambda>e. str_nat (fst e)) (map (\<lambda>(k, v). (k, f v)) ys)" for ys :: "(string \<times> 'a) list"
    by (induction ys) (auto simp: ins)
  have fil: "filter (\<lambda>e. Q (fst e)) (map (\<lambda>(k, v). (k, f v)) es)
      = map (\<lambda>(k, v). (k, f v)) (filter (\<lambda>e. Q (fst e)) es)" for Q
    by (induction es) auto
  show ?thesis
    unfolding own_entries_def
    by (simp add: srt fil [of is_index] fil [of "\<lambda>k. \<not> is_index k"])
qed

lemma ohas_map_of: "ohas es k \<longleftrightarrow> map_of es k \<noteq> None"
  by (auto simp: ohas_def map_of_eq_None_iff)

lemma oget_Nil [simp]: "oget [] k = Undef"
  and oget_Cons [simp]: "oget ((a, v) # es) k = (if a = k then v else oget es k)"
  by (simp_all add: oget_def)

lemma oget_update [simp]: "oget (oput a v es) k = (if a = k then v else oget es k)"
  by (simp add: oget_def update_conv')

lemma ohas_update [simp]: "ohas (oput a v es) k \<longleftrightarrow> a = k \<or> ohas es k"
  by (auto simp: ohas_def dom_update)

lemma map_of_odel [simp]: "map_of (odel a es) = (map_of es)(a := None)"
  by (simp add: delete_conv')

lemma oget_delete [simp]: "oget (odel a es) k = (if a = k then Undef else oget es k)"
  by (simp add: oget_def)

lemma ohas_delete [simp]: "ohas (odel a es) k \<longleftrightarrow> a \<noteq> k \<and> ohas es k"
  by (auto simp: ohas_map_of)

lemma map_of_fold_update:
  "distinct (map fst b) \<Longrightarrow>
   map_of (fold (\<lambda>(k, v). oput k v) b a) k = (case map_of b k of None \<Rightarrow> map_of a k | Some v \<Rightarrow> Some v)"
proof (induction b arbitrary: a)
  case Nil
  then show ?case by simp
next
  case (Cons e b)
  obtain x v where e: "e = (x, v)" by force
  from Cons e have "map_of b x = None" by (simp add: map_of_eq_None_iff)
  with Cons e show ?case by (auto simp: update_conv' split: option.splits)
qed

lemma map_of_fold_update_rev:
  "map_of (fold (\<lambda>(k, v). oput k v) b a) k = (case map_of (rev b) k of None \<Rightarrow> map_of a k | Some v \<Rightarrow> Some v)"
proof (induction b arbitrary: a)
  case Nil
  show ?case by simp
next
  case (Cons e b)
  obtain x v where e: "e = (x, v)" by force
  show ?case by (auto simp: Cons e update_conv' map_add_def split: option.splits)
qed

lemma oget_ospread_cases:
  "oget (ospread a b) k = oget a k \<or> (k, oget (ospread a b) k) \<in> set b"
  by (auto simp: oget_def ospread_def map_of_fold_update_rev split: option.split dest!: map_of_SomeD)

lemma map_of_ospread:
  "distinct (map fst b) \<Longrightarrow>
   map_of (ospread a b) k = (case map_of b k of None \<Rightarrow> map_of a k | Some v \<Rightarrow> Some v)"
  unfolding ospread_def by (simp add: map_of_fold_update)

lemma oget_ospread:
  "distinct (map fst b) \<Longrightarrow> oget (ospread a b) k = (if ohas b k then oget b k else oget a k)"
  by (auto simp: oget_def map_of_ospread ohas_map_of split: option.splits)

lemma ohas_ospread: "distinct (map fst b) \<Longrightarrow> ohas (ospread a b) k \<longleftrightarrow> ohas a k \<or> ohas b k"
  by (auto simp: ohas_map_of map_of_ospread split: option.splits)

lemma distinct_fold_update:
  "distinct (map fst a) \<Longrightarrow> distinct (map fst (fold (\<lambda>(k, v). oput k v) b a))"
  by (induction b arbitrary: a) (auto simp: distinct_update)

lemma distinct_ospread [simp]: "distinct (map fst a) \<Longrightarrow> distinct (map fst (ospread a b))"
  unfolding ospread_def by (rule distinct_fold_update)

lemma distinct_from_entries [simp]: "distinct (map fst (from_entries es))"
  unfolding from_entries_def by (rule distinct_fold_update) simp

lemma update_new: "x \<notin> fst ` set a \<Longrightarrow> oput x v a = a @ [(x, v)]"
  by (induction a) auto

lemma fold_update_new:
  "distinct (map fst (a @ b)) \<Longrightarrow> fold (\<lambda>(k, v). oput k v) b a = a @ b"
proof (induction b arbitrary: a)
  case Nil
  then show ?case by simp
next
  case (Cons e b)
  obtain x v where e: "e = (x, v)" by force
  with Cons.prems have "x \<notin> fst ` set a" by auto
  then have "oput x v a = a @ [(x, v)]" by (rule update_new)
  with Cons e show ?case by simp
qed

lemma from_entries_distinct [simp]: "distinct (map fst es) \<Longrightarrow> from_entries es = es"
  unfolding from_entries_def using fold_update_new [of "[]" es] by simp

lemma clone_json_Undef [simp]: "clone_json v = Undef \<longleftrightarrow> v = Undef"
  by (cases v) auto

lemma clone_json_Null [simp]: "clone_json v = Null \<longleftrightarrow> v = Null"
  by (cases v) auto

lemma truthy_clone [simp]: "truthy (clone_json v) = truthy v"
  by (cases v) auto

lemma is_record_clone [simp]: "is_record (clone_json v) = is_record v"
  and is_array_clone [simp]: "is_array (clone_json v) = is_array v"
  and is_object_clone [simp]: "is_object (clone_json v) = is_object v"
  and is_string_clone [simp]: "is_string (clone_json v) = is_string v"
  by (cases v; simp)+

lemma clone_json_idem [simp]: "clone_json (clone_json v) = clone_json v"
proof (induction v rule: clone_json.induct)
  case (1 xs)
  then show ?case by auto
next
  case (2 es)
  let ?c = "map (\<lambda>(k, v). (k, clone_json v)) es"
  have m: "map (\<lambda>(k, v). (k, clone_json v)) ?c = ?c"
    using 2 by auto
  have f: "map (\<lambda>(k, v). (k, clone_json v)) (filter (\<lambda>e. snd e \<noteq> Undef) ?c)
      = filter (\<lambda>e. snd e \<noteq> Undef) ?c"
    using m by (induction ?c arbitrary: es) (auto simp: filter_map o_def case_prod_beta)
  show ?case
    by (simp add: own_entries_map_snd [symmetric] f filter_own_entries)
qed auto

lemma map_fst_clone [simp]: "map fst (map (\<lambda>(k, v). (k, f v)) es) = map fst es"
  by (induction es) auto

lemma wf_clone_json: "wf_jval v \<Longrightarrow> wf_jval (clone_json v)"
proof (induction v rule: clone_json.induct)
  case (1 xs)
  then show ?case by auto
next
  case (2 es)
  have "distinct (map fst (filter (\<lambda>e. snd e \<noteq> Undef) (map (\<lambda>(k, v). (k, clone_json v)) es)))"
    by (rule distinct_map_filter) (use 2 in simp)
  with 2 show ?case by auto
qed auto

lemma oget_absent: "k \<notin> fst ` set es \<Longrightarrow> oget es k = Undef"
  by (induction es) auto

lemma oget_filter_defined:
  "distinct (map fst es) \<Longrightarrow>
   oget (filter (\<lambda>e. snd e \<noteq> Undef) (map (\<lambda>(k, v). (k, clone_json v)) es)) k = clone_json (oget es k)"
proof (induction es)
  case Nil
  then show ?case by simp
next
  case (Cons e es)
  obtain a v where e: "e = (a, v)" by force
  have "oget es a = Undef" using Cons.prems e by (intro oget_absent) auto
  with Cons e show ?case by auto
qed

lemma oget_clone:
  assumes d: "distinct (map fst es)" and ds: "clone_json (JObj es) = JObj ds"
  shows "oget ds k = clone_json (oget es k)"
proof -
  have "distinct (map fst (filter (\<lambda>e. snd e \<noteq> Undef) (map (\<lambda>(k, v). (k, clone_json v)) es)))"
    by (rule distinct_map_filter) (use d in simp)
  with oget_filter_defined [OF d] ds show ?thesis by (auto simp: oget_def)
qed

section \<open>Values that are JSON documents already\<close>

lemma clone_fix_JArr: "clone_json (JArr xs) = JArr xs \<longleftrightarrow> (\<forall>x \<in> set xs. x \<noteq> Undef \<and> clone_json x = x)"
proof -
  have "map (\<lambda>x. if x = Undef then Null else clone_json x) xs = xs
      \<longleftrightarrow> (\<forall>x \<in> set xs. (if x = Undef then Null else clone_json x) = x)"
    by (simp add: map_idI map_eq_conv [where g = "\<lambda>x. x", simplified])
  then show ?thesis by auto
qed

lemma clone_fix_JObj:
  "clone_json (JObj es) = JObj es
   \<longleftrightarrow> own_entries es = es \<and> (\<forall>(k, v) \<in> set es. v \<noteq> Undef \<and> clone_json v = v)"
proof
  let ?c = "filter (\<lambda>e. snd e \<noteq> Undef) (map (\<lambda>(k, v). (k, clone_json v)) es)"
  assume "clone_json (JObj es) = JObj es"
  then have eq: "own_entries ?c = es" by simp
  then have "own_entries es = es" by (metis own_entries_idem)
  moreover have "snd e \<noteq> Undef \<and> clone_json (snd e) = snd e" if "e \<in> set es" for e
  proof -
    have "e \<in> set ?c" using that eq by (metis set_own_entries)
    then show ?thesis by auto
  qed
  ultimately show "own_entries es = es \<and> (\<forall>(k, v) \<in> set es. v \<noteq> Undef \<and> clone_json v = v)"
    by fastforce
next
  assume r: "own_entries es = es \<and> (\<forall>(k, v) \<in> set es. v \<noteq> Undef \<and> clone_json v = v)"
  then have "map (\<lambda>(k, v). (k, clone_json v)) es = es" by (intro map_idI) auto
  moreover have "filter (\<lambda>e. snd e \<noteq> Undef) es = es" using r by (intro filter_True) auto
  ultimately show "clone_json (JObj es) = JObj es" using r by simp
qed

text \<open>The enumeration order of an object, as an order on its entries.\<close>

definition entry_before :: "string \<times> 'a \<Rightarrow> string \<times> 'a \<Rightarrow> bool" where
  "entry_before e f \<longleftrightarrow> (is_index (fst f) \<longrightarrow> is_index (fst e) \<and> str_nat (fst e) \<le> str_nat (fst f))"

lemma own_entries_sorted: "sorted_wrt entry_before (own_entries es)"
proof -
  have s: "sorted_wrt entry_before (sort_key (\<lambda>e. str_nat (fst e)) (filter (\<lambda>e. is_index (fst e)) es))"
    using sorted_sort_key [of "\<lambda>e. str_nat (fst e)" "filter (\<lambda>e. is_index (fst e)) es"]
    unfolding sorted_map by (rule sorted_wrt_mono_rel [rotated]) (auto simp: entry_before_def)
  have n: "sorted_wrt entry_before (filter (\<lambda>e. \<not> is_index (fst e)) es)"
    by (induction es) (auto simp: entry_before_def)
  show ?thesis
    unfolding own_entries_def sorted_wrt_append using s n by (auto simp: entry_before_def)
qed

lemma own_entries_fix: "own_entries es = es \<longleftrightarrow> sorted_wrt entry_before es"
proof
  assume "own_entries es = es"
  then show "sorted_wrt entry_before es" by (metis own_entries_sorted)
next
  assume s: "sorted_wrt entry_before es"
  then have "es = filter (\<lambda>e. is_index (fst e)) es @ filter (\<lambda>e. \<not> is_index (fst e)) es"
  proof (induction es)
    case Nil
    then show ?case by simp
  next
    case (Cons e es)
    show ?case
    proof (cases "is_index (fst e)")
      case True
      with Cons show ?thesis by simp
    next
      case False
      with Cons.prems have "filter (\<lambda>e. is_index (fst e)) es = []"
        by (auto simp: entry_before_def filter_empty_conv)
      with False Cons show ?thesis by simp
    qed
  qed
  moreover have "sorted (map (\<lambda>e. str_nat (fst e)) (filter (\<lambda>e. is_index (fst e)) es))"
    using s by (induction es) (auto simp: entry_before_def)
  ultimately show "own_entries es = es"
    unfolding own_entries_def by (simp add: sort_key_id_if_sorted)
qed

lemma oput_split: "(\<exists>xs w ys. es = xs @ (k, w) # ys \<and> oput k v es = xs @ (k, v) # ys)
    \<or> (k \<notin> fst ` set es \<and> oput k v es = es @ [(k, v)])"
proof (induction es)
  case Nil
  show ?case by simp
next
  case (Cons e es)
  show ?case
  proof (cases "fst e = k")
    case True
    then show ?thesis by (cases e) (auto intro!: exI [of _ "[]"])
  next
    case False
    from Cons show ?thesis
    proof (elim disjE exE conjE)
      fix xs w ys assume "es = xs @ (k, w) # ys" "oput k v es = xs @ (k, v) # ys"
      with False show ?thesis by (cases e) (auto intro!: exI [of _ "e # xs"])
    next
      assume "k \<notin> fst ` set es" "oput k v es = es @ [(k, v)]"
      with False show ?thesis by (cases e) auto
    qed
  qed
qed

lemma own_entries_oput:
  assumes "own_entries es = es" and "ohas es k \<or> \<not> is_index k"
  shows "own_entries (oput k v es) = oput k v es"
  using oput_split [of es k v] assms unfolding own_entries_fix
  by (auto simp: sorted_wrt_append entry_before_def ohas_def)

lemma own_entries_filter: "own_entries es = es \<Longrightarrow> own_entries (filter P es) = filter P es"
  by (metis filter_own_entries)

lemma odel_filter: "odel k es = filter (\<lambda>e. fst e \<noteq> k) es"
  by (induction es) auto

lemma own_entries_odel: "own_entries es = es \<Longrightarrow> own_entries (odel k es) = odel k es"
  unfolding odel_filter by (rule own_entries_filter)

lemma oput_same: "map_of es k = Some v \<Longrightarrow> oput k v es = es"
  by (induction es) auto

lemma oput_oput [simp]: "oput k v (oput k w es) = oput k v es"
  by (induction es) auto

lemma odel_oput_new [simp]: "k \<notin> fst ` set es \<Longrightarrow> odel k (oput k v es) = es"
  by (induction es) (auto simp: odel_filter filter_id_conv)

lemma clone_fix_oput:
  assumes "clone_json (JObj es) = JObj es" "ohas es k \<or> \<not> is_index k" "v \<noteq> Undef" "clone_json v = v"
  shows "clone_json (JObj (oput k v es)) = JObj (oput k v es)"
  using oput_split [of es k v] own_entries_oput [of es k v] assms
  unfolding clone_fix_JObj by fastforce

lemma clone_fix_odel: "clone_json (JObj es) = JObj es \<Longrightarrow> clone_json (JObj (odel k es)) = JObj (odel k es)"
  using own_entries_odel [of es k] unfolding clone_fix_JObj by (auto simp: odel_filter)

lemma clone_fix_oget: "clone_json (JObj es) = JObj es \<Longrightarrow> clone_json (oget es k) = oget es k"
  unfolding clone_fix_JObj by (auto simp: oget_def split: option.split dest!: map_of_SomeD)

lemma map_fst_oput_cases: "map fst (oput k v es) = (if k \<in> fst ` set es then map fst es else map fst es @ [k])"
  using oput_split [of es k v] by auto

lemma set_oput: "set (oput k v es) \<subseteq> insert (k, v) (set es)"
  by (induction es) auto

lemma keys_oput [simp]: "fst ` set (oput k v es) = insert k (fst ` set es)"
  by (simp add: dom_update)

lemma keys_fold_oput: "fst ` set (fold (\<lambda>(k, v). oput k v) es a) = fst ` set a \<union> fst ` set es"
  by (induction es arbitrary: a) (auto simp: case_prod_unfold simp del: set_map)

lemma own_entries_from_entries:
  assumes "own_entries es = es"
  shows "own_entries (from_entries es) = from_entries es"
proof -
  have "sorted_wrt entry_before es \<Longrightarrow> sorted_wrt entry_before (fold (\<lambda>(k, v). oput k v) es [])"
  proof (induction es rule: rev_induct)
    case Nil
    show ?case by simp
  next
    case (snoc e es)
    obtain k v where e: "e = (k, v)" by force
    let ?f = "fold (\<lambda>(k, v). oput k v) es []"
    from snoc have s: "sorted_wrt entry_before ?f" and before: "\<forall>f \<in> set es. entry_before f e"
      by (simp_all add: sorted_wrt_append)
    have "entry_before f (k, v)" if "f \<in> set ?f" for f
    proof -
      have "fst f \<in> fst ` set es" using that keys_fold_oput [of es "[]"] by auto
      then obtain g where "g \<in> set es" "fst g = fst f" by auto
      with before e show ?thesis by (auto simp: entry_before_def)
    qed
    with s e oput_split [of ?f k v] show ?case
      unfolding entry_before_def by (auto simp: sorted_wrt_append)
  qed
  with assms show ?thesis unfolding own_entries_fix from_entries_def by blast
qed

lemma set_from_entries: "set (from_entries es) \<subseteq> set es"
proof -
  have "set (fold (\<lambda>(k, v). oput k v) es a) \<subseteq> set a \<union> set es" for a
    by (induction es arbitrary: a) (auto dest!: subsetD [OF set_oput])
  then show ?thesis unfolding from_entries_def by fastforce
qed

lemma truthy_to_str: "truthy v \<Longrightarrow> \<not> is_array v \<Longrightarrow> to_str v \<noteq> []"
  by (cases v) (auto simp: int_str_def)

end
