(* ===== verification/Names.thy ===== *)
theory Names
  imports JsObject
begin

text \<open>
  The unique-name generators of \<open>routes.ts\<close>, \<open>import-export.ts\<close> and
  \<open>workspace-config.ts\<close>, and the consumer name rules of \<open>utils.ts\<close>. The generators share
  one loop and one contract, the locale \<open>fresh_namer\<close>; what threading a generator through
  a list of names achieves is proved once from the contract.
\<close>

section \<open>The loop\<close>

lemma finite_taken: "finite {j. i \<le> j \<and> base @ sep @ nat_str j \<in> set used}"
proof (rule finite_subset)
  show "{j. i \<le> j \<and> base @ sep @ nat_str j \<in> set used}
      \<subseteq> (\<lambda>s. str_nat (drop (length base + length sep) s)) ` set used"
    by (force intro!: image_eqI [where x = "base @ sep @ nat_str j" for j])
qed simp

function uniq_loop :: "string \<Rightarrow> string \<Rightarrow> string list \<Rightarrow> nat \<Rightarrow> string" where
  "uniq_loop sep base used i =
     (if base @ sep @ nat_str i \<in> set used then uniq_loop sep base used (Suc i)
      else base @ sep @ nat_str i)"
  by pat_completeness auto
termination
proof (relation "measure (\<lambda>(sep, base, used, i). card {j. i \<le> j \<and> base @ sep @ nat_str j \<in> set used})")
  fix sep base :: string and used i
  assume used: "base @ sep @ nat_str i \<in> set used"
  have "{j. Suc i \<le> j \<and> base @ sep @ nat_str j \<in> set used}
      \<subset> {j. i \<le> j \<and> base @ sep @ nat_str j \<in> set used}"
  proof
    show "{j. Suc i \<le> j \<and> base @ sep @ nat_str j \<in> set used}
        \<noteq> {j. i \<le> j \<and> base @ sep @ nat_str j \<in> set used}"
      using used by (metis (mono_tags, lifting) Suc_n_not_le_n mem_Collect_eq order_refl)
  qed auto
  then show "((sep, base, used, Suc i), (sep, base, used, i))
      \<in> measure (\<lambda>(sep, base, used, i). card {j. i \<le> j \<and> base @ sep @ nat_str j \<in> set used})"
    by (simp add: psubset_card_mono finite_taken)
qed simp

declare uniq_loop.simps [simp del]

lemma uniq_loop_fresh: "uniq_loop sep base used i \<notin> set used"
  by (induction sep base used i rule: uniq_loop.induct) (subst uniq_loop.simps, auto)

lemma uniq_loop_form:
  "\<exists>j \<ge> i. uniq_loop sep base used i = base @ sep @ nat_str j
     \<and> (\<forall>k. i \<le> k \<and> k < j \<longrightarrow> base @ sep @ nat_str k \<in> set used)"
proof (induction sep base used i rule: uniq_loop.induct)
  case (1 sep base used i)
  show ?case
  proof (cases "base @ sep @ nat_str i \<in> set used")
    case True
    from "1.IH" [OF this] obtain j where j: "Suc i \<le> j"
      "uniq_loop sep base used (Suc i) = base @ sep @ nat_str j"
      "\<And>k. Suc i \<le> k \<Longrightarrow> k < j \<Longrightarrow> base @ sep @ nat_str k \<in> set used"
      by blast
    have "base @ sep @ nat_str k \<in> set used" if "i \<le> k" "k < j" for k
      using that True j(3) by (cases "k = i") auto
    with j True show ?thesis by (subst uniq_loop.simps) (auto intro!: exI [where x = j])
  next
    case False
    then show ?thesis by (subst uniq_loop.simps) (auto intro!: exI [where x = i])
  qed
qed

section \<open>The generators\<close>

definition next_unique_name :: "string \<Rightarrow> string list \<Rightarrow> string" where
  "next_unique_name base_name existing =
     (if base_name \<in> set existing then uniq_loop ''_'' base_name existing 1 else base_name)"

text \<open>The copy of \<open>import-export.ts\<close> also adds the name it returns to the set.\<close>

definition import_unique_name :: "string \<Rightarrow> string list \<Rightarrow> string \<times> string list" where
  "import_unique_name base existing =
     (let candidate = (if base \<in> set existing then uniq_loop ''_'' base existing 1 else base)
      in (candidate, candidate # existing))"

definition next_unique_publisher_name :: "string \<Rightarrow> string list \<Rightarrow> string \<times> string list" where
  "next_unique_publisher_name base existing =
     (let normalized = (if js_trim base = [] then ''publisher'' else js_trim base)
      in if normalized \<notin> set existing then (normalized, normalized # existing)
         else let next_name = uniq_loop '' '' normalized existing 1 in (next_name, next_name # existing))"

section \<open>The contract\<close>

fun thread_names :: "(string \<Rightarrow> string list \<Rightarrow> string) \<Rightarrow> string list \<Rightarrow> string list \<Rightarrow> string list" where
  "thread_names gen used [] = []"
| "thread_names gen used (b # bs) = gen b used # thread_names gen (gen b used # used) bs"

locale fresh_namer =
  fixes gen :: "string \<Rightarrow> string list \<Rightarrow> string"
    and norm :: "string \<Rightarrow> string"
  assumes gen_fresh: "gen b used \<notin> set used"
    and gen_keep: "norm b \<notin> set used \<Longrightarrow> gen b used = norm b"
begin

lemma thread_names_disjoint: "set (thread_names gen used bs) \<inter> set used = {}"
proof (induction bs arbitrary: used)
  case Nil
  then show ?case by simp
next
  case (Cons b bs)
  from Cons [of "gen b used # used"] gen_fresh [of b used] show ?case by auto
qed

lemma thread_names_distinct: "distinct (thread_names gen used bs)"
proof (induction bs arbitrary: used)
  case Nil
  then show ?case by simp
next
  case (Cons b bs)
  with thread_names_disjoint [of "gen b used # used" bs] show ?case by auto
qed

lemma thread_names_keep:
  "distinct (map norm bs) \<Longrightarrow> set (map norm bs) \<inter> set used = {} \<Longrightarrow> thread_names gen used bs = map norm bs"
proof (induction bs arbitrary: used)
  case Nil
  then show ?case by simp
next
  case (Cons b bs)
  then have "gen b used = norm b" by (intro gen_keep) auto
  with Cons show ?case by auto
qed

lemma length_thread_names: "length (thread_names gen used bs) = length bs"
  by (induction bs arbitrary: used) auto

lemma thread_names_all_distinct:
  "distinct used \<Longrightarrow> distinct (used @ thread_names gen used bs)"
  using thread_names_distinct thread_names_disjoint by (metis distinct_append inf_commute)

end

interpretation routes_namer: fresh_namer next_unique_name id
  by unfold_locales (auto simp: next_unique_name_def uniq_loop_fresh)

interpretation import_namer: fresh_namer "\<lambda>b used. fst (import_unique_name b used)" id
  by unfold_locales (auto simp: import_unique_name_def uniq_loop_fresh Let_def)

interpretation publisher_namer: fresh_namer "\<lambda>b used. fst (next_unique_publisher_name b used)"
    "\<lambda>b. if js_trim b = [] then ''publisher'' else js_trim b"
  by unfold_locales (auto simp: next_unique_publisher_name_def uniq_loop_fresh Let_def)

lemma import_unique_name_used: "snd (import_unique_name b used) = fst (import_unique_name b used) # used"
  by (simp add: import_unique_name_def Let_def)

lemma publisher_name_used:
  "snd (next_unique_publisher_name b used) = fst (next_unique_publisher_name b used) # used"
  by (simp add: next_unique_publisher_name_def Let_def)

section \<open>Consumer names\<close>

text \<open>
  \<open>strip_marks\<close> stands for \<open>normalize("NFKD")\<close> followed by the removal of the combining
  marks; the rest of \<open>sanitizeConsumerName\<close> is written out.
\<close>

definition name_char :: "char \<Rightarrow> bool" where
  "name_char c \<longleftrightarrow> (let n = (of_char c :: nat) in
     (65 \<le> n \<and> n \<le> 90) \<or> (97 \<le> n \<and> n \<le> 122) \<or> (48 \<le> n \<and> n \<le> 57)
     \<or> c = CHR ''.'' \<or> c = CHR ''_'' \<or> c = CHR ''-'')"

definition name_edge :: "char \<Rightarrow> bool" where
  "name_edge c \<longleftrightarrow> c = CHR ''_'' \<or> c = CHR ''-'' \<or> c = CHR ''.''"

definition sanitize_consumer_name :: "(string \<Rightarrow> string) \<Rightarrow> string \<Rightarrow> string" where
  "sanitize_consumer_name strip_marks name =
     (let ascii_name = strip_marks name;
          a = collapse_runs is_space CHR ''_'' ascii_name;
          b = collapse_runs (\<lambda>c. \<not> name_char c) CHR ''_'' a;
          c = collapse_runs (\<lambda>c. c = CHR ''_'') CHR ''_'' b;
          normalized = drop_trailing name_edge (dropWhile name_edge c)
      in if normalized = [] then ''consumer'' else normalized)"

fun normalize_names_loop ::
    "(string \<Rightarrow> string) \<Rightarrow> string list \<Rightarrow> bool \<Rightarrow> obj list \<Rightarrow> obj list \<times> bool" where
  "normalize_names_loop sm used changed [] = ([], changed)"
| "normalize_names_loop sm used changed (consumer # rest) =
     (let name = to_str (oget consumer ''name'');
          next_name = next_unique_name (sanitize_consumer_name sm name) used;
          consumer' = (if name \<noteq> next_name then oput ''name'' (JStr next_name) consumer else consumer);
          r = normalize_names_loop sm (next_name # used) (changed \<or> name \<noteq> next_name) rest
      in (consumer' # fst r, snd r))"

record normalized_names =
  nn_consumers :: "obj list"
  nn_changed :: bool
  nn_selected_name :: "string option"

definition normalize_consumer_names ::
    "(string \<Rightarrow> string) \<Rightarrow> obj list \<Rightarrow> int option \<Rightarrow> normalized_names" where
  "normalize_consumer_names sm consumers selected_index =
     (let r = normalize_names_loop sm [] False consumers
      in \<lparr>nn_consumers = fst r, nn_changed = snd r,
          nn_selected_name = (case selected_index of None \<Rightarrow> None
            | Some i \<Rightarrow> if 0 \<le> i \<and> nat i < length (fst r)
                then (let n = oget (fst r ! nat i) ''name'' in if truthy n then Some (to_str n) else None)
                else None)\<rparr>)"

definition named_consumer :: "obj \<Rightarrow> bool" where
  "named_consumer c \<longleftrightarrow> is_string (oget c ''name'')"

abbreviation name_of :: "obj \<Rightarrow> string" where
  "name_of c \<equiv> to_str (oget c ''name'')"

lemma names_loop_eq:
  "(\<forall>c \<in> set cs. named_consumer c) \<Longrightarrow>
   map name_of (fst (normalize_names_loop sm used ch cs))
     = thread_names next_unique_name used (map (\<lambda>c. sanitize_consumer_name sm (name_of c)) cs)
   \<and> (snd (normalize_names_loop sm used ch cs)
        \<longleftrightarrow> ch \<or> map name_of cs \<noteq> map name_of (fst (normalize_names_loop sm used ch cs)))"
proof (induction cs arbitrary: used ch)
  case Nil
  then show ?case by simp
next
  case (Cons c cs)
  let ?n = "next_unique_name (sanitize_consumer_name sm (name_of c)) used"
  from Cons.IH [of "?n # used" "ch \<or> name_of c \<noteq> ?n"] Cons.prems
  show ?case by (auto simp: Let_def)
qed

lemma length_names_loop [simp]: "length (fst (normalize_names_loop sm used ch cs)) = length cs"
  by (induction cs arbitrary: used ch) (auto simp: Let_def)

lemma collapse_runs_fix: "(\<And>c. c \<in> set s \<Longrightarrow> \<not> P c) \<Longrightarrow> collapse_runs P r s = s"
  by (induction s) auto

lemma collapse_runs_set: "c \<in> set (collapse_runs P r s) \<Longrightarrow> c = r \<or> (c \<in> set s \<and> \<not> P c)"
proof (induction P r s rule: collapse_runs.induct)
  case (1 P r)
  then show ?case by simp
next
  case (2 P r a s)
  then show ?case by (cases "P a") (auto dest: set_dropWhileD)
qed

text \<open>No two neighbouring characters of the class survive.\<close>

fun no_runs :: "(char \<Rightarrow> bool) \<Rightarrow> string \<Rightarrow> bool" where
  "no_runs P (a # b # s) \<longleftrightarrow> \<not> (P a \<and> P b) \<and> no_runs P (b # s)"
| "no_runs P s \<longleftrightarrow> True"

lemma no_runs_Cons: "no_runs P (a # s) \<longleftrightarrow> (s \<noteq> [] \<longrightarrow> \<not> (P a \<and> P (hd s))) \<and> no_runs P s"
  by (cases s) auto

lemma no_runs_append:
  "no_runs P (s @ t) \<longleftrightarrow> no_runs P s \<and> no_runs P t \<and> (s \<noteq> [] \<and> t \<noteq> [] \<longrightarrow> \<not> (P (last s) \<and> P (hd t)))"
  by (induction s) (auto simp: no_runs_Cons hd_append)

lemma hd_collapse:
  "s = [] \<or> hd s \<noteq> d \<Longrightarrow> collapse_runs (\<lambda>c. c = d) d s = [] \<or> hd (collapse_runs (\<lambda>c. c = d) d s) \<noteq> d"
  by (cases s) auto

lemma no_runs_collapse: "no_runs (\<lambda>c. c = d) (collapse_runs (\<lambda>c. c = d) d s)"
proof (induction "\<lambda>c. c = d" d s rule: collapse_runs.induct)
  case (1 r)
  then show ?case by simp
next
  case (2 r a s)
  have "dropWhile (\<lambda>c. c = r) s = [] \<or> hd (dropWhile (\<lambda>c. c = r) s) \<noteq> r"
    using hd_dropWhile [of "\<lambda>c. c = r" s] by blast
  from hd_collapse [OF this]
  show ?case using 2 by (auto simp: no_runs_Cons)
qed

lemma collapse_no_runs: "no_runs (\<lambda>c. c = d) s \<Longrightarrow> collapse_runs (\<lambda>c. c = d) d s = s"
proof (induction s)
  case Nil
  then show ?case by simp
next
  case (Cons a s)
  then have "dropWhile (\<lambda>c. c = d) s = s" if "a = d"
    using that by (cases s) auto
  with Cons show ?case by (auto simp: no_runs_Cons)
qed

section \<open>What a sanitised name looks like\<close>

definition clean_name :: "string \<Rightarrow> bool" where
  "clean_name s \<longleftrightarrow> s \<noteq> [] \<and> list_all name_char s \<and> \<not> name_edge (hd s) \<and> \<not> name_edge (last s)
     \<and> no_runs (\<lambda>c. c = CHR ''_'') s"

lemma name_char_not_space: "name_char c \<Longrightarrow> \<not> is_space c"
  by (auto simp: name_char_def is_space_def Let_def)

lemma no_runs_trim:
  "no_runs P s \<Longrightarrow> no_runs P (dropWhile Q s) \<and> no_runs P (drop_trailing Q s)"
proof -
  assume s: "no_runs P s"
  have "no_runs P (takeWhile Q s @ dropWhile Q s)" using s by simp
  then have 1: "no_runs P (dropWhile Q s)" unfolding no_runs_append by blast
  have "s = drop_trailing Q s @ rev (takeWhile Q (rev s))"
    by (metis drop_trailing_def rev_append rev_rev_ident takeWhile_dropWhile_id)
  with s have "no_runs P (drop_trailing Q s)" unfolding no_runs_append by (metis no_runs_append)
  with 1 show ?thesis by blast
qed

lemma drop_trailing_props:
  "set (drop_trailing Q s) \<subseteq> set s"
  "drop_trailing Q s \<noteq> [] \<Longrightarrow> \<not> Q (last (drop_trailing Q s))"
  "drop_trailing Q s \<noteq> [] \<Longrightarrow> hd (drop_trailing Q s) = hd s"
proof -
  show "set (drop_trailing Q s) \<subseteq> set s" by (auto simp: drop_trailing_def dest: set_dropWhileD)
  show "\<not> Q (last (drop_trailing Q s))" if "drop_trailing Q s \<noteq> []"
    using that hd_dropWhile [of Q "rev s"] by (simp add: last_rev drop_trailing_def)
  show "hd (drop_trailing Q s) = hd s" if "drop_trailing Q s \<noteq> []"
  proof -
    have "s = drop_trailing Q s @ rev (takeWhile Q (rev s))"
      by (metis drop_trailing_def rev_append rev_rev_ident takeWhile_dropWhile_id)
    with that show ?thesis by (metis hd_append2)
  qed
qed

lemma clean_sanitize: "clean_name (sanitize_consumer_name sm name)"
proof -
  define c where "c = collapse_runs (\<lambda>c. c = CHR ''_'') CHR ''_''
    (collapse_runs (\<lambda>c. \<not> name_char c) CHR ''_'' (collapse_runs is_space CHR ''_'' (sm name)))"
  define n where "n = drop_trailing name_edge (dropWhile name_edge c)"
  have us: "name_char CHR ''_''" by (simp add: name_char_def)
  have "name_char x" if "x \<in> set c" for x
    using that us unfolding c_def by (auto dest!: collapse_runs_set)
  then have chars: "list_all name_char n"
    unfolding n_def list_all_iff using drop_trailing_props(1) by (metis set_dropWhileD subsetD)
  have runs: "no_runs (\<lambda>c. c = CHR ''_'') n"
    unfolding n_def c_def by (intro no_runs_trim [THEN conjunct2] no_runs_trim [THEN conjunct1] no_runs_collapse)
  have edges: "\<not> name_edge (hd n) \<and> \<not> name_edge (last n)" if "n \<noteq> []"
  proof
    have d: "dropWhile name_edge c \<noteq> []"
    proof
      assume "dropWhile name_edge c = []"
      then have "n = []" unfolding n_def by (simp only: drop_trailing_def) simp
      with that show False ..
    qed
    with that show "\<not> name_edge (hd n)"
      unfolding n_def by (metis drop_trailing_props(3) hd_dropWhile)
    from that show "\<not> name_edge (last n)" unfolding n_def by (rule drop_trailing_props(2))
  qed
  have "clean_name ''consumer''" by (simp add: clean_name_def name_char_def name_edge_def)
  with chars runs edges show ?thesis
    unfolding sanitize_consumer_name_def Let_def c_def [symmetric] n_def [symmetric]
    by (auto simp: clean_name_def)
qed

lemma sanitize_clean: "clean_name s \<Longrightarrow> sm s = s \<Longrightarrow> sanitize_consumer_name sm s = s"
proof -
  assume s: "clean_name s" and sm: "sm s = s"
  have 1: "collapse_runs is_space CHR ''_'' s = s"
    using s by (intro collapse_runs_fix) (auto simp: clean_name_def list_all_iff dest: name_char_not_space)
  have 2: "collapse_runs (\<lambda>c. \<not> name_char c) CHR ''_'' s = s"
    using s by (intro collapse_runs_fix) (auto simp: clean_name_def list_all_iff)
  have 3: "collapse_runs (\<lambda>c. c = CHR ''_'') CHR ''_'' s = s"
    using s by (intro collapse_no_runs) (auto simp: clean_name_def)
  have 4: "dropWhile name_edge s = s" using s by (cases s) (auto simp: clean_name_def)
  have "rev s \<noteq> [] \<and> \<not> name_edge (hd (rev s))" using s by (auto simp: clean_name_def hd_rev)
  then have 5: "drop_trailing name_edge s = s"
    unfolding drop_trailing_def by (cases "rev s") (auto dest: arg_cong [where f = rev])
  show ?thesis
    unfolding sanitize_consumer_name_def Let_def sm 1 2 3 4 5 using s by (simp add: clean_name_def)
qed

lemma digit_name_char: "is_digit c \<Longrightarrow> name_char c \<and> \<not> name_edge c"
  by (auto simp: is_digit_def name_char_def name_edge_def Let_def)

lemma clean_numbered: "clean_name b \<Longrightarrow> clean_name (b @ ''_'' @ nat_str n)"
proof -
  assume b: "clean_name b"
  have d: "c \<in> set (nat_str n) \<Longrightarrow> name_char c \<and> \<not> name_edge c" for c
    using nat_str_digits digit_name_char by blast
  have no_us: "c \<in> set (nat_str n) \<Longrightarrow> c \<noteq> CHR ''_''" for c
    using d by (fastforce simp: name_edge_def)
  have "no_runs (\<lambda>c. c = CHR ''_'') s" if "CHR ''_'' \<notin> set s" for s
    using that by (induction s) (auto simp: no_runs_Cons)
  then have "no_runs (\<lambda>c. c = CHR ''_'') (nat_str n)" using no_us by blast
  moreover have "hd (nat_str n) \<noteq> CHR ''_''" by (rule no_us) simp
  moreover have "last b \<noteq> CHR ''_''" using b by (auto simp: clean_name_def name_edge_def)
  ultimately have "no_runs (\<lambda>c. c = CHR ''_'') (b @ ''_'' @ nat_str n)"
    using b by (auto simp: no_runs_append no_runs_Cons clean_name_def)
  moreover have "\<not> name_edge (last (nat_str n))" using d by simp
  moreover have "list_all name_char (nat_str n)" using d by (simp add: list_all_iff)
  ultimately show ?thesis
    using b by (auto simp: clean_name_def name_char_def [of "CHR ''_''"] hd_append)
qed

lemma clean_next_unique: "clean_name b \<Longrightarrow> clean_name (next_unique_name b used)"
  unfolding next_unique_name_def using uniq_loop_form [of 1 "''_''" b used] clean_numbered by auto

lemma thread_clean: "(\<forall>b \<in> set bs. clean_name b) \<Longrightarrow> s \<in> set (thread_names next_unique_name used bs) \<Longrightarrow> clean_name s"
  by (induction bs arbitrary: used) (auto intro: clean_next_unique)

lemma names_loop_named:
  "(\<forall>c \<in> set cs. named_consumer c) \<Longrightarrow> c \<in> set (fst (normalize_names_loop sm used ch cs)) \<Longrightarrow> named_consumer c"
  by (induction cs arbitrary: used ch) (auto simp: Let_def named_consumer_def split: if_splits)

section \<open>Properties\<close>

text \<open>
  normalising the consumers' names makes them pairwise distinct, never adds or drops a
  consumer, and reports a change exactly when some name changed.
\<close>

theorem normalize_consumer_names_distinct:
  assumes "\<forall>c \<in> set consumers. named_consumer c"
  shows "distinct (map name_of (nn_consumers (normalize_consumer_names sm consumers sel)))
    \<and> length (nn_consumers (normalize_consumer_names sm consumers sel)) = length consumers
    \<and> (nn_changed (normalize_consumer_names sm consumers sel)
        \<longleftrightarrow> map name_of consumers \<noteq> map name_of (nn_consumers (normalize_consumer_names sm consumers sel)))"
proof -
  note eq = names_loop_eq [OF assms, of sm "[]" False]
  from eq have "distinct (map name_of (fst (normalize_names_loop sm [] False consumers)))"
    using routes_namer.thread_names_distinct by metis
  with eq show ?thesis
    by (simp add: normalize_consumer_names_def Let_def length_names_loop)
qed

theorem normalize_consumer_names_distinct_witness:
  "distinct (map name_of (nn_consumers (normalize_consumer_names id
      [[(''name'', JStr ''a b'')], [(''name'', JStr ''a_b'')]] None)))"
proof -
  have "\<forall>c \<in> set [[(''name'', JStr ''a b'')], [(''name'', JStr ''a_b'')]]. named_consumer c"
    by (simp add: named_consumer_def)
  from normalize_consumer_names_distinct [OF this, of id None] show ?thesis by blast
qed

text \<open>
  normalising twice is normalising once: on a list that has been normalised, no name
  changes again, provided the removal of accents leaves plain ASCII names alone.
\<close>

theorem normalize_consumer_names_idem:
  assumes named: "\<forall>c \<in> set consumers. named_consumer c"
    and ascii: "\<And>s. clean_name s \<Longrightarrow> sm s = s"
  shows "nn_changed (normalize_consumer_names sm
      (nn_consumers (normalize_consumer_names sm consumers sel)) sel') = False"
proof -
  define once where "once = fst (normalize_names_loop sm [] False consumers)"
  have named1: "\<forall>c \<in> set once. named_consumer c"
    unfolding once_def using names_loop_named [OF named] by blast
  note eq = names_loop_eq [OF named, of sm "[]" False, folded once_def]
  have clean: "clean_name (name_of c)" if "c \<in> set once" for c
    using that eq thread_clean [of "map (\<lambda>c. sanitize_consumer_name sm (name_of c)) consumers" _ "[]"]
    by (metis (no_types, lifting) clean_sanitize imageE list.set_map imageI)
  then have san: "map (\<lambda>c. sanitize_consumer_name sm (name_of c)) once = map name_of once"
    by (intro map_cong) (auto intro: sanitize_clean ascii)
  have "distinct (map name_of once)"
    using eq routes_namer.thread_names_distinct by metis
  then have "thread_names next_unique_name [] (map name_of once) = map name_of once"
    using routes_namer.thread_names_keep [of "map name_of once" "[]"] by simp
  with names_loop_eq [OF named1, of sm "[]" False] san
  have "\<not> snd (normalize_names_loop sm [] False once)" by simp
  then show ?thesis by (simp add: normalize_consumer_names_def Let_def once_def)
qed

theorem normalize_consumer_names_idem_witness:
  "nn_changed (normalize_consumer_names id
      (nn_consumers (normalize_consumer_names id [[(''name'', JStr ''x!'')], [(''name'', JStr ''x'')]] None)) None) = False"
proof -
  have "\<forall>c \<in> set [[(''name'', JStr ''x!'')], [(''name'', JStr ''x'')]]. named_consumer c"
    by (simp add: named_consumer_def)
  from normalize_consumer_names_idem [OF this, of id None None] show ?thesis by simp
qed

text \<open>
  the unique-name loop returns the requested name when it is free, and otherwise the
  name with the least positive suffix that is free.
\<close>

theorem next_unique_name_least:
  "next_unique_name b used \<notin> set used
   \<and> (b \<notin> set used \<longrightarrow> next_unique_name b used = b)
   \<and> (b \<in> set used \<longrightarrow> (\<exists>j \<ge> 1. next_unique_name b used = b @ ''_'' @ nat_str j
        \<and> (\<forall>k. 1 \<le> k \<and> k < j \<longrightarrow> b @ ''_'' @ nat_str k \<in> set used)))"
  using routes_namer.gen_fresh [of b used] uniq_loop_form [of 1 "''_''" b used]
  by (simp add: next_unique_name_def)

theorem next_unique_name_least_witness:
  "next_unique_name ''a'' [''a'', ''a_1''] \<notin> set [''a'', ''a_1'']"
  using next_unique_name_least [of "''a''" "[''a'', ''a_1'']"] by blast

end
