(* ===== verification/Routing.thy ===== *)
theory Routing
  imports JsObject
begin

text \<open>
  Navigation: \<open>routing.ts\<close>, \<open>view-navigation.ts\<close> and the tab switching of
  \<open>bootstrap.ts\<close>, with the part of the two panels' restore and init functions that moves
  the selection. One record holds the application state these functions share.
\<close>

section \<open>Tabs and hashes\<close>

datatype main_tab = Publishers | Consumers | Config

fun tab_name :: "main_tab \<Rightarrow> string" where
  "tab_name Publishers = ''publishers''"
| "tab_name Consumers = ''consumers''"
| "tab_name Config = ''config''"

definition resolve_tab_from_hash :: "string \<Rightarrow> main_tab option" where
  "resolve_tab_from_hash hash =
     (if hash = [] then None
      else if hash = ''#publishers'' \<or> starts_with ''#publishers:'' hash then Some Publishers
      else if hash = ''#consumers'' \<or> starts_with ''#consumers:'' hash then Some Consumers
      else if hash = ''#config'' then Some Config
      else None)"

definition next_hash_for_tab :: "string \<Rightarrow> main_tab \<Rightarrow> int option \<Rightarrow> string" where
  "next_hash_for_tab current_hash tab remembered_index =
     (if current_hash = ''#'' @ tab_name tab \<or> starts_with (''#'' @ tab_name tab @ '':'') current_hash
      then current_hash
      else if tab = Config then ''#config''
      else (case remembered_index of
              Some i \<Rightarrow> if 0 \<le> i then ''#'' @ tab_name tab @ '':'' @ int_str i else ''#'' @ tab_name tab
            | None \<Rightarrow> ''#'' @ tab_name tab))"

definition pick_default_tab :: "string \<Rightarrow> string list \<Rightarrow> jval \<Rightarrow> main_tab" where
  "pick_default_tab hash active_routes configured_default =
     (case resolve_tab_from_hash hash of
        Some t \<Rightarrow> t
      | None \<Rightarrow>
          if configured_default = JStr ''publishers'' then Publishers
          else if configured_default = JStr ''consumers'' then Consumers
          else if configured_default = JStr ''config'' then Config
          else Publishers)"

text \<open>The capture group of \<open>/^#publishers:(\d+)$/\<close> and \<open>/^#consumers:(\d+)$/\<close>, read as a number.\<close>

definition index_in_hash :: "main_tab \<Rightarrow> string \<Rightarrow> int option" where
  "index_in_hash tab hash =
     (let p = ''#'' @ tab_name tab @ '':''; rest = drop (length p) hash
      in if starts_with p hash \<and> rest \<noteq> [] \<and> list_all is_digit rest then Some (int (str_nat rest)) else None)"

section \<open>State\<close>

record nav_state =
  hash :: string
  active_tab :: main_tab
  consumers_initialized :: bool
  publishers_initialized :: bool
  config_initialized :: bool
  pending_consumer_restore :: "(int \<times> string) option"
  pending_publisher_restore :: "(int \<times> string) option"
  last_consumer_idx :: "int option"
  last_publisher_idx :: "int option"
  last_consumer_tab :: string
  last_publisher_tab :: string
  win_last_publisher_idx :: "int option"
  win_last_publisher_tab :: "string option"
  cons_selected :: int
  cons_subtab :: string
  pub_selected :: int
  pub_subtab :: string
  n_consumers :: nat
  n_publishers :: nat

definition value_or :: "'a \<Rightarrow> 'a option \<Rightarrow> 'a" where
  "value_or d v = (case v of None \<Rightarrow> d | Some x \<Rightarrow> x)"

definition clamp_index :: "int \<Rightarrow> nat \<Rightarrow> int" where
  "clamp_index idx n = min (max idx 0) (max (int n - 1) 0)"

section \<open>The panels' part\<close>

definition restore_consumer_state :: "int \<Rightarrow> string \<Rightarrow> nav_state \<Rightarrow> nav_state" where
  "restore_consumer_state idx tab s =
     (let clamped = clamp_index idx (n_consumers s);
          next_tab = (if tab \<noteq> [] then tab else if cons_subtab s \<noteq> [] then cons_subtab s else ''messages'')
      in s\<lparr>last_consumer_idx := Some clamped, last_consumer_tab := next_tab,
           cons_selected := clamped, cons_subtab := next_tab,
           hash := ''#consumers:'' @ int_str clamped\<rparr>)"

definition restore_publisher_state :: "int \<Rightarrow> string \<Rightarrow> nav_state \<Rightarrow> nav_state" where
  "restore_publisher_state idx tab s =
     (let clamped = clamp_index idx (n_publishers s);
          next_tab = (if tab \<noteq> [] then tab else if pub_subtab s \<noteq> [] then pub_subtab s else ''payload'')
      in s\<lparr>last_publisher_idx := Some clamped, last_publisher_tab := next_tab,
           win_last_publisher_idx := Some clamped, win_last_publisher_tab := Some next_tab,
           pub_selected := clamped, pub_subtab := next_tab,
           hash := ''#publishers:'' @ int_str clamped\<rparr>)"

definition init_consumers_nav :: "nav_state \<Rightarrow> nav_state" where
  "init_consumers_nav s =
     (let selected = (case index_in_hash Consumers (hash s) of
            Some i \<Rightarrow> i
          | None \<Rightarrow> min (value_or 0 (last_consumer_idx s)) (max (int (n_consumers s) - 1) 0));
          tab = (if last_consumer_tab s \<noteq> [] then last_consumer_tab s else ''messages'')
      in restore_consumer_state selected tab (s\<lparr>cons_selected := selected, cons_subtab := ''messages''\<rparr>))"

definition init_publishers_nav :: "nav_state \<Rightarrow> nav_state" where
  "init_publishers_nav s =
     (let selected = (case index_in_hash Publishers (hash s) of
            Some i \<Rightarrow> i
          | None \<Rightarrow> min (value_or 0 (win_last_publisher_idx s)) (max (int (n_publishers s) - 1) 0));
          tab = (case win_last_publisher_tab s of Some t \<Rightarrow> if t \<noteq> [] then t else ''payload'' | None \<Rightarrow> ''payload'')
      in restore_publisher_state selected tab (s\<lparr>pub_selected := selected\<rparr>))"

section \<open>Tab switching\<close>

definition remembered_index_for_tab :: "main_tab \<Rightarrow> nav_state \<Rightarrow> int option" where
  "remembered_index_for_tab name s =
     (case name of
        Consumers \<Rightarrow> Some (value_or 0 (last_consumer_idx s))
      | Publishers \<Rightarrow> Some (value_or 0 (last_publisher_idx s))
      | Config \<Rightarrow> None)"

definition remember_selection_from_hash :: "string \<Rightarrow> nav_state \<Rightarrow> nav_state" where
  "remember_selection_from_hash h s =
     (let s1 = (case index_in_hash Publishers h of Some i \<Rightarrow> s\<lparr>last_publisher_idx := Some i\<rparr> | None \<Rightarrow> s)
      in case index_in_hash Consumers h of Some i \<Rightarrow> s1\<lparr>last_consumer_idx := Some i\<rparr> | None \<Rightarrow> s1)"

definition init_tab_if_needed :: "main_tab \<Rightarrow> nav_state \<Rightarrow> nav_state" where
  "init_tab_if_needed name s =
     (if name = Consumers \<and> \<not> consumers_initialized s
        then (init_consumers_nav s)\<lparr>consumers_initialized := True\<rparr>
      else if name = Publishers \<and> \<not> publishers_initialized s
        then (init_publishers_nav s)\<lparr>publishers_initialized := True\<rparr>
      else if name = Config \<and> \<not> config_initialized s then s\<lparr>config_initialized := True\<rparr>
      else s)"

definition clear_pending :: "nav_state \<Rightarrow> nav_state" where
  "clear_pending s = s\<lparr>pending_consumer_restore := None, pending_publisher_restore := None\<rparr>"

definition restore_tab_state :: "main_tab \<Rightarrow> nav_state \<Rightarrow> nav_state" where
  "restore_tab_state name s =
     (case name of
        Consumers \<Rightarrow>
          (let pending = pending_consumer_restore s;
               idx = (case pending of Some (i, t) \<Rightarrow> i
                      | None \<Rightarrow> (case index_in_hash Consumers (hash s) of Some i \<Rightarrow> i
                                 | None \<Rightarrow> value_or 0 (last_consumer_idx s)));
               tab = (case pending of Some (i, t) \<Rightarrow> t | None \<Rightarrow> last_consumer_tab s)
           in restore_consumer_state idx tab ((clear_pending s)\<lparr>last_consumer_idx := Some idx\<rparr>))
      | Publishers \<Rightarrow>
          (let pending = pending_publisher_restore s;
               idx = (case pending of Some (i, t) \<Rightarrow> i
                      | None \<Rightarrow> (case index_in_hash Publishers (hash s) of Some i \<Rightarrow> i
                                 | None \<Rightarrow> value_or 0 (last_publisher_idx s)));
               tab = (case pending of Some (i, t) \<Rightarrow> t | None \<Rightarrow> last_publisher_tab s)
           in restore_publisher_state idx tab ((clear_pending s)\<lparr>last_publisher_idx := Some idx\<rparr>))
      | Config \<Rightarrow> s)"

definition switch_main :: "main_tab \<Rightarrow> nav_state \<Rightarrow> nav_state" where
  "switch_main name s =
     (let s1 = remember_selection_from_hash (hash s) s;
          s2 = s1\<lparr>active_tab := name\<rparr>;
          s3 = init_tab_if_needed name s2;
          s4 = restore_tab_state name s3
      in s4\<lparr>hash := next_hash_for_tab (hash s4) name (remembered_index_for_tab name s4)\<rparr>)"

definition on_hash_change :: "nav_state \<Rightarrow> nav_state" where
  "on_hash_change s = (case resolve_tab_from_hash (hash s) of Some t \<Rightarrow> switch_main t s | None \<Rightarrow> s)"

text \<open>
  \<open>view-navigation.ts\<close>. The caller's fallback runs first in both branches of
  \<open>switchOrRun\<close>; \<open>has_switch\<close> is \<open>hasMainTabSwitch()\<close>.
\<close>

definition switch_or_run ::
    "bool \<Rightarrow> main_tab \<Rightarrow> (nav_state \<Rightarrow> nav_state) \<Rightarrow> (nav_state \<Rightarrow> nav_state) \<Rightarrow> nav_state \<Rightarrow> nav_state" where
  "switch_or_run has_switch main_tab callback fallback s =
     (if has_switch then switch_main main_tab (fallback s) else callback (fallback s))"

definition open_consumer_by_index ::
    "bool \<Rightarrow> int \<Rightarrow> string \<Rightarrow> (nav_state \<Rightarrow> nav_state) \<Rightarrow> nav_state \<Rightarrow> nav_state" where
  "open_consumer_by_index has_switch idx tab fallback s =
     switch_or_run has_switch Consumers (restore_consumer_state idx tab) fallback
       (s\<lparr>last_consumer_idx := Some idx, last_consumer_tab := tab,
          pending_consumer_restore := Some (idx, tab), hash := ''#consumers:'' @ int_str idx\<rparr>)"

definition open_publisher_by_index ::
    "bool \<Rightarrow> int \<Rightarrow> string \<Rightarrow> (nav_state \<Rightarrow> nav_state) \<Rightarrow> nav_state \<Rightarrow> nav_state" where
  "open_publisher_by_index has_switch idx tab fallback s =
     switch_or_run has_switch Publishers (restore_publisher_state idx tab) fallback
       (s\<lparr>last_publisher_idx := Some idx, last_publisher_tab := tab,
          pending_publisher_restore := Some (idx, tab), hash := ''#publishers:'' @ int_str idx\<rparr>)"

section \<open>Facts\<close>

lemmas restore_defs = restore_consumer_state_def restore_publisher_state_def clear_pending_def
lemmas init_nav_defs = init_consumers_nav_def init_publishers_nav_def

lemma clamp_in_range: "0 \<le> clamp_index i n \<and> (0 < n \<longrightarrow> clamp_index i n < int n)"
  by (auto simp: clamp_index_def)

lemma clamp_id: "0 \<le> i \<Longrightarrow> i < int n \<Longrightarrow> clamp_index i n = i"
  by (simp add: clamp_index_def)

lemma hash_of_tab [simp]:
  "resolve_tab_from_hash (''#publishers:'' @ s) = Some Publishers"
  "resolve_tab_from_hash (''#consumers:'' @ s) = Some Consumers"
  "resolve_tab_from_hash ''#config'' = Some Config"
  by (simp_all add: resolve_tab_from_hash_def starts_with_def)

text \<open>
  \<open>next_hash_for_tab\<close> keeps any hash that starts with the tab's name and a colon;
  \<open>resolve_tab_from_hash\<close> reads such a hash for the two lists only, not for the settings.
\<close>

lemma resolve_next_hash:
  "t \<noteq> Config \<or> \<not> starts_with ''#config:'' h \<Longrightarrow> resolve_tab_from_hash (next_hash_for_tab h t r) = Some t"
  by (cases t) (auto simp: next_hash_for_tab_def resolve_tab_from_hash_def starts_with_iff split: option.splits)

lemma next_hash_stable: "next_hash_for_tab (next_hash_for_tab h t r) t r' = next_hash_for_tab h t r"
  by (cases t) (auto simp: next_hash_for_tab_def starts_with_iff split: option.splits)

text \<open>Nothing in a switch changes how many consumers and publishers there are.\<close>

lemma switch_main_counts [simp]:
  "n_consumers (switch_main t s) = n_consumers s" "n_publishers (switch_main t s) = n_publishers s"
  by (cases t; auto simp: switch_main_def remember_selection_from_hash_def init_tab_if_needed_def
      restore_tab_state_def restore_defs init_nav_defs Let_def split: option.splits)+

lemma restore_tab_counts [simp]:
  "n_consumers (init_tab_if_needed t s) = n_consumers s"
  "n_publishers (init_tab_if_needed t s) = n_publishers s"
  "n_consumers (remember_selection_from_hash h s) = n_consumers s"
  "n_publishers (remember_selection_from_hash h s) = n_publishers s"
  by (auto simp: remember_selection_from_hash_def init_tab_if_needed_def restore_defs init_nav_defs
      Let_def split: option.splits)

lemma pending_kept [simp]:
  "pending_consumer_restore (init_tab_if_needed t s) = pending_consumer_restore s"
  "pending_publisher_restore (init_tab_if_needed t s) = pending_publisher_restore s"
  "pending_consumer_restore (remember_selection_from_hash h s) = pending_consumer_restore s"
  "pending_publisher_restore (remember_selection_from_hash h s) = pending_publisher_restore s"
  by (auto simp: remember_selection_from_hash_def init_tab_if_needed_def restore_defs init_nav_defs
      Let_def split: option.splits)

lemma active_tab_kept [simp]: "active_tab (init_tab_if_needed t s) = active_tab s"
  by (auto simp: init_tab_if_needed_def restore_defs init_nav_defs Let_def split: option.splits)

section \<open>Selection\<close>

lemma int_str_nat [simp]: "0 \<le> i \<Longrightarrow> int_str i = nat_str (nat i)"
  by (simp add: int_str_def)

lemma index_in_hash_of [simp]:
  "0 \<le> i \<Longrightarrow> index_in_hash Consumers (''#consumers:'' @ int_str i) = Some i"
  "0 \<le> i \<Longrightarrow> index_in_hash Publishers (''#publishers:'' @ int_str i) = Some i"
  by (simp_all add: index_in_hash_def Let_def list_all_iff nat_str_digits)

lemma index_in_hash_other [simp]:
  "index_in_hash Consumers (''#publishers:'' @ s) = None"
  "index_in_hash Publishers (''#consumers:'' @ s) = None"
  by (simp_all add: index_in_hash_def Let_def)

lemma next_hash_keep [simp]:
  "next_hash_for_tab (''#consumers:'' @ s) Consumers r = ''#consumers:'' @ s"
  "next_hash_for_tab (''#publishers:'' @ s) Publishers r = ''#publishers:'' @ s"
  by (simp_all add: next_hash_for_tab_def)

lemmas literal_hashes [simp] = next_hash_keep [unfolded append.simps] index_in_hash_of [unfolded append.simps]
  index_in_hash_other [unfolded append.simps] hash_of_tab [unfolded append.simps]

lemma same_hash [simp]: "s\<lparr>hash := hash s\<rparr> = (s :: nav_state)"
  by (cases s) simp

lemma restore_keeps_hash [simp]:
  "next_hash_for_tab (hash (restore_consumer_state i tab s)) Consumers r = hash (restore_consumer_state i tab s)"
  "next_hash_for_tab (hash (restore_publisher_state i tab s)) Publishers r = hash (restore_publisher_state i tab s)"
  by (simp_all add: restore_consumer_state_def restore_publisher_state_def Let_def)

lemma clamp_nonneg [simp]: "0 \<le> clamp_index i n"
  by (simp add: clamp_index_def)

lemma clamp_idem [simp]: "clamp_index (clamp_index i n) n = clamp_index i n"
  by (simp add: clamp_index_def)

lemma restored_consumer:
  "let s' = restore_consumer_state i tab s in
     0 \<le> cons_selected s' \<and> (0 < n_consumers s \<longrightarrow> cons_selected s' < int (n_consumers s))
     \<and> last_consumer_idx s' = Some (cons_selected s') \<and> cons_subtab s' \<noteq> []
     \<and> hash s' = ''#consumers:'' @ int_str (cons_selected s') \<and> active_tab s' = active_tab s
     \<and> consumers_initialized s' = consumers_initialized s
     \<and> pending_consumer_restore s' = pending_consumer_restore s
     \<and> pending_publisher_restore s' = pending_publisher_restore s"
  using clamp_in_range [of i "n_consumers s"] by (simp add: restore_consumer_state_def Let_def)

lemma restored_publisher:
  "let s' = restore_publisher_state i tab s in
     0 \<le> pub_selected s' \<and> (0 < n_publishers s \<longrightarrow> pub_selected s' < int (n_publishers s))
     \<and> last_publisher_idx s' = Some (pub_selected s') \<and> pub_subtab s' \<noteq> []
     \<and> hash s' = ''#publishers:'' @ int_str (pub_selected s') \<and> active_tab s' = active_tab s
     \<and> publishers_initialized s' = publishers_initialized s
     \<and> pending_consumer_restore s' = pending_consumer_restore s
     \<and> pending_publisher_restore s' = pending_publisher_restore s"
  using clamp_in_range [of i "n_publishers s"] by (simp add: restore_publisher_state_def Let_def)

text \<open>What a switch to one of the lists leaves: the state of one restore.\<close>

lemma switch_to_consumers:
  "\<exists>idx tab s'. switch_main Consumers s = restore_consumer_state idx tab s'
     \<and> active_tab s' = Consumers \<and> consumers_initialized s' \<and> n_consumers s' = n_consumers s
     \<and> pending_consumer_restore s' = None \<and> pending_publisher_restore s' = None"
proof -
  let ?s3 = "init_tab_if_needed Consumers ((remember_selection_from_hash (hash s) s)\<lparr>active_tab := Consumers\<rparr>)"
  have init: "consumers_initialized ?s3"
    by (simp add: init_tab_if_needed_def)
  obtain idx tab where
    "restore_tab_state Consumers ?s3
      = restore_consumer_state idx tab ((clear_pending ?s3)\<lparr>last_consumer_idx := Some idx\<rparr>)"
    by (simp add: restore_tab_state_def Let_def)
  then have "switch_main Consumers s
      = restore_consumer_state idx tab ((clear_pending ?s3)\<lparr>last_consumer_idx := Some idx\<rparr>)"
    by (simp add: switch_main_def Let_def)
  moreover have "consumers_initialized ((clear_pending ?s3)\<lparr>last_consumer_idx := Some idx\<rparr>)"
    using init by (simp add: clear_pending_def)
  ultimately show ?thesis
    by (intro exI [of _ idx] exI [of _ tab] exI [of _ "(clear_pending ?s3)\<lparr>last_consumer_idx := Some idx\<rparr>"])
      (simp add: clear_pending_def)
qed

lemma switch_to_publishers:
  "\<exists>idx tab s'. switch_main Publishers s = restore_publisher_state idx tab s'
     \<and> active_tab s' = Publishers \<and> publishers_initialized s' \<and> n_publishers s' = n_publishers s
     \<and> pending_consumer_restore s' = None \<and> pending_publisher_restore s' = None"
proof -
  let ?s3 = "init_tab_if_needed Publishers ((remember_selection_from_hash (hash s) s)\<lparr>active_tab := Publishers\<rparr>)"
  have init: "publishers_initialized ?s3"
    by (simp add: init_tab_if_needed_def)
  obtain idx tab where
    "restore_tab_state Publishers ?s3
      = restore_publisher_state idx tab ((clear_pending ?s3)\<lparr>last_publisher_idx := Some idx\<rparr>)"
    by (simp add: restore_tab_state_def Let_def)
  then have "switch_main Publishers s
      = restore_publisher_state idx tab ((clear_pending ?s3)\<lparr>last_publisher_idx := Some idx\<rparr>)"
    by (simp add: switch_main_def Let_def)
  moreover have "publishers_initialized ((clear_pending ?s3)\<lparr>last_publisher_idx := Some idx\<rparr>)"
    using init by (simp add: clear_pending_def)
  ultimately show ?thesis
    by (intro exI [of _ idx] exI [of _ tab] exI [of _ "(clear_pending ?s3)\<lparr>last_publisher_idx := Some idx\<rparr>"])
      (simp add: clear_pending_def)
qed

lemma switch_pending_consumer:
  "pending_consumer_restore s = Some (idx, tab) \<Longrightarrow>
   \<exists>s'. switch_main Consumers s = restore_consumer_state idx tab s' \<and> n_consumers s' = n_consumers s
     \<and> active_tab s' = Consumers \<and> pending_consumer_restore s' = None"
  by (simp add: switch_main_def restore_tab_state_def Let_def)
    (rule exI, rule conjI, rule refl, simp add: clear_pending_def)

text \<open>A list whose selection, memory and hash agree is not moved by another switch to it.\<close>

lemma switch_consumers_stable:
  assumes "s = restore_consumer_state idx tab s'" "active_tab s' = Consumers" "consumers_initialized s'"
    "pending_consumer_restore s' = None" "pending_publisher_restore s' = None"
  shows "switch_main Consumers s = s"
  using assms
  by (simp add: switch_main_def restore_consumer_state_def remember_selection_from_hash_def
      init_tab_if_needed_def restore_tab_state_def clear_pending_def Let_def value_or_def del: int_str_nat)

lemma switch_publishers_stable:
  assumes "s = restore_publisher_state idx tab s'" "active_tab s' = Publishers" "publishers_initialized s'"
    "pending_consumer_restore s' = None" "pending_publisher_restore s' = None"
  shows "switch_main Publishers s = s"
  using assms
  by (simp add: switch_main_def restore_publisher_state_def remember_selection_from_hash_def
      init_tab_if_needed_def restore_tab_state_def clear_pending_def Let_def value_or_def del: int_str_nat)

section \<open>Properties\<close>

text \<open>
  after a switch to the consumers or the publishers, that tab is active, the list is
  initialised, the selection is inside the list (when it is not empty), the address names the
  tab and the selected entry, and no pending restore is left.
\<close>

theorem switch_main_selects:
  "active_tab (switch_main t s) = t
   \<and> (t = Consumers \<longrightarrow>
        (let s' = switch_main t s in
          consumers_initialized s' \<and> 0 \<le> cons_selected s' \<and> (0 < n_consumers s \<longrightarrow> cons_selected s' < int (n_consumers s))
          \<and> last_consumer_idx s' = Some (cons_selected s') \<and> cons_subtab s' \<noteq> []
          \<and> hash s' = ''#consumers:'' @ int_str (cons_selected s')
          \<and> pending_consumer_restore s' = None \<and> pending_publisher_restore s' = None))
   \<and> (t = Publishers \<longrightarrow>
        (let s' = switch_main t s in
          publishers_initialized s' \<and> 0 \<le> pub_selected s' \<and> (0 < n_publishers s \<longrightarrow> pub_selected s' < int (n_publishers s))
          \<and> last_publisher_idx s' = Some (pub_selected s') \<and> pub_subtab s' \<noteq> []
          \<and> hash s' = ''#publishers:'' @ int_str (pub_selected s')
          \<and> pending_consumer_restore s' = None \<and> pending_publisher_restore s' = None))
   \<and> (t = Config \<and> \<not> starts_with ''#config:'' (hash s) \<longrightarrow> resolve_tab_from_hash (hash (switch_main t s)) = Some Config)"
proof (cases t)
  case Consumers
  obtain idx tab s' where "switch_main Consumers s = restore_consumer_state idx tab s'"
    "active_tab s' = Consumers" "consumers_initialized s'" "n_consumers s' = n_consumers s"
    "pending_consumer_restore s' = None" "pending_publisher_restore s' = None"
    using switch_to_consumers [of s] by blast
  with Consumers restored_consumer [of idx tab s'] show ?thesis by (simp add: Let_def)
next
  case Publishers
  obtain idx tab s' where "switch_main Publishers s = restore_publisher_state idx tab s'"
    "active_tab s' = Publishers" "publishers_initialized s'" "n_publishers s' = n_publishers s"
    "pending_consumer_restore s' = None" "pending_publisher_restore s' = None"
    using switch_to_publishers [of s] by blast
  with Publishers restored_publisher [of idx tab s'] show ?thesis by (simp add: Let_def)
next
  case Config
  then show ?thesis
    by (auto simp: switch_main_def restore_tab_state_def init_tab_if_needed_def Let_def
        remember_selection_from_hash_def resolve_next_hash split: option.splits)
qed

definition nav_start :: nav_state where
  "nav_start = \<lparr>hash = ''#consumers:7'', active_tab = Publishers, consumers_initialized = False,
     publishers_initialized = False, config_initialized = False, pending_consumer_restore = None,
     pending_publisher_restore = Some (1, ''headers''), last_consumer_idx = Some 0, last_publisher_idx = Some 0,
     last_consumer_tab = ''messages'', last_publisher_tab = ''payload'', win_last_publisher_idx = None,
     win_last_publisher_tab = None, cons_selected = 0, cons_subtab = [], pub_selected = 0, pub_subtab = [],
     n_consumers = 3, n_publishers = 2\<rparr>"

theorem switch_main_selects_witness:
  "cons_selected (switch_main Consumers nav_start) < 3"
  using switch_main_selects [of Consumers nav_start] by (simp add: Let_def nav_start_def)

text \<open>switching to the tab that is already shown changes nothing.\<close>

theorem switch_main_idem:
  "t \<noteq> Config \<Longrightarrow> switch_main t (switch_main t s) = switch_main t s"
  using switch_to_consumers [of s] switch_to_publishers [of s]
  by (cases t) (metis switch_consumers_stable switch_publishers_stable)+

theorem switch_main_idem_witness:
  "switch_main Consumers (switch_main Consumers nav_start) = switch_main Consumers nav_start"
  by (rule switch_main_idem) simp

text \<open>
  opening a consumer by index selects that consumer, clamped to the list, on the requested
  sub-tab, whether the tab switch exists or the panel's restore runs directly, and whether or not
  the consumers tab was initialised before; the pending request is consumed by the switch.
\<close>

theorem open_consumer_selects:
  assumes keeps: "\<And>s. pending_consumer_restore (fb s) = pending_consumer_restore s \<and> n_consumers (fb s) = n_consumers s"
    and tab: "tab \<noteq> []"
  shows "cons_selected (open_consumer_by_index sw idx tab fb s) = clamp_index idx (n_consumers s)
    \<and> cons_subtab (open_consumer_by_index sw idx tab fb s) = tab
    \<and> hash (open_consumer_by_index sw idx tab fb s) = ''#consumers:'' @ int_str (clamp_index idx (n_consumers s))
    \<and> (sw \<longrightarrow> active_tab (open_consumer_by_index sw idx tab fb s) = Consumers
          \<and> pending_consumer_restore (open_consumer_by_index sw idx tab fb s) = None)"
proof -
  let ?s = "s\<lparr>last_consumer_idx := Some idx, last_consumer_tab := tab,
          pending_consumer_restore := Some (idx, tab), hash := ''#consumers:'' @ int_str idx\<rparr>"
  have p: "pending_consumer_restore (fb ?s) = Some (idx, tab)" and n: "n_consumers (fb ?s) = n_consumers s"
    using keeps [of ?s] by simp_all
  obtain s1 where "switch_main Consumers (fb ?s) = restore_consumer_state idx tab s1" "n_consumers s1 = n_consumers s"
    "active_tab s1 = Consumers" "pending_consumer_restore s1 = None"
    using switch_pending_consumer [OF p] n by auto
  with tab n show ?thesis
    by (simp add: open_consumer_by_index_def switch_or_run_def restore_consumer_state_def Let_def del: int_str_nat)
qed

theorem open_consumer_selects_witness:
  "cons_selected (open_consumer_by_index True 9 ''definition'' id nav_start) = 2"
proof -
  have "cons_selected (open_consumer_by_index True 9 ''definition'' id nav_start) = clamp_index 9 (n_consumers nav_start)"
    using open_consumer_selects [of id "''definition''" True 9 nav_start] by simp
  then show ?thesis by (simp add: nav_start_def clamp_index_def)
qed

end
