(* ===== verification/Endpoint.thy ===== *)
theory Endpoint
  imports Kinds
begin

text \<open>
  Endpoints, \<open>endpoint-utils.ts\<close>: the type of an endpoint, the defaults and the clean-up
  that every loaded, imported or edited endpoint goes through, and the conversion of a
  client endpoint into a listening one and back. The URL parser of the platform is the
  parameter \<open>parse\<close>.
\<close>

section \<open>Shape of an endpoint\<close>

definition unwrap_root :: "jval \<Rightarrow> obj option" where
  "unwrap_root endpoint =
     (case endpoint of
        JObj es \<Rightarrow> (case oget es ''root'' of JObj rs \<Rightarrow> Some rs | _ \<Rightarrow> Some es)
      | _ \<Rightarrow> None)"

definition ref_stub :: jval where
  "ref_stub = JObj [(''ref'', JStr [])]"

definition default_metrics_middleware :: "jval list" where
  "default_metrics_middleware = []"

definition create_default_endpoint :: "string \<Rightarrow> obj" where
  "create_default_endpoint t =
     (if t = ''static'' \<or> t = ''ref'' then [(t, JStr [])]
      else if t = ''switch''
        then [(''switch'', JObj [(''metadata_key'', JStr ''type''), (''cases'', JObj []), (''default'', ref_stub)]),
              (''middlewares'', JArr [])]
      else if t = ''fanout'' then [(''fanout'', JArr [ref_stub]), (''middlewares'', JArr [])]
      else [(t, JObj []), (''middlewares'', JArr default_metrics_middleware)])"

definition get_endpoint_type :: "obj \<Rightarrow> string" where
  "get_endpoint_type endpoint =
     (case List.find (ohas endpoint) [''ref'', ''static''] of
        Some k \<Rightarrow> k
      | None \<Rightarrow> (case List.find (\<lambda>k. k \<noteq> ''middlewares'') (own_keys endpoint) of
            Some k \<Rightarrow> if k \<noteq> [] then k else ''http''
          | None \<Rightarrow> ''http''))"

section \<open>Defaults and clean-up\<close>

definition normalize_middleware :: "(jval \<Rightarrow> obj) \<Rightarrow> jval \<Rightarrow> jval list" where
  "normalize_middleware recurse middleware =
     (case clone_json middleware of
        JObj next_middleware \<Rightarrow>
          [JObj (case oget next_middleware ''dlq'' of
              JObj dlq \<Rightarrow> oput ''dlq''
                (JObj (oput ''endpoint'' (JObj (recurse (coalesce (oget dlq ''endpoint'') ref_stub))) dlq))
                next_middleware
            | _ \<Rightarrow> next_middleware)]
      | _ \<Rightarrow> [])"

definition normalize_middlewares :: "(jval \<Rightarrow> obj) \<Rightarrow> jval \<Rightarrow> jval list" where
  "normalize_middlewares recurse middlewares =
     concat (map (normalize_middleware recurse) (array_or_empty middlewares))"

definition seeded_encryption_defaults :: obj where
  "seeded_encryption_defaults =
     [(''cipher'', JStr ''xchacha20poly1305''), (''key_id'', JStr ''default'')]"

definition is_unset_encryption :: "jval \<Rightarrow> bool" where
  "is_unset_encryption encryption =
     (case encryption of
        JObj es \<Rightarrow> list_all (\<lambda>(field, value).
          if value = Null \<or> value = JStr [] then True
          else if is_object value then obj_entries value = []
          else oget seeded_encryption_defaults field = value) (own_entries es)
      | _ \<Rightarrow> False)"

definition drop_unset_encryption :: "jval \<Rightarrow> jval" where
  "drop_unset_encryption endpoint_config =
     (case endpoint_config of
        JObj config \<Rightarrow>
          if ohas config ''encryption'' \<and> is_unset_encryption (oget config ''encryption'')
          then JObj (odel ''encryption'' config) else JObj config
      | v \<Rightarrow> v)"

definition when_entry :: "(jval \<Rightarrow> obj) \<Rightarrow> jval \<Rightarrow> jval" where
  "when_entry recurse entry =
     (let record = (if is_object entry then entry else JObj [])
      in JObj (oput ''to'' (JObj (recurse (jget record ''to''))) (ospread [] (obj_entries record))))"

definition switch_predicates :: "(jval \<Rightarrow> obj) \<Rightarrow> jval list \<Rightarrow> obj \<Rightarrow> obj" where
  "switch_predicates recurse entries sw =
     odel ''cases'' (odel ''metadata_key'' (oput ''when'' (JArr (map (when_entry recurse) entries)) sw))"

definition switch_lookup :: "(jval \<Rightarrow> obj) \<Rightarrow> obj \<Rightarrow> obj" where
  "switch_lookup recurse sw =
     (let a = odel ''when'' sw;
          b = (if truthy (oget a ''metadata_key'') then a else oput ''metadata_key'' (JStr ''type'') a);
          cases = (case oget b ''cases'' of
              JObj cs \<Rightarrow> from_entries (map (\<lambda>(k, v). (k, JObj (recurse v))) (own_entries cs))
            | _ \<Rightarrow> [])
      in oput ''cases'' (JObj cases) b)"

definition switch_mode :: "(jval \<Rightarrow> obj) \<Rightarrow> obj \<Rightarrow> obj" where
  "switch_mode recurse sw =
     (case oget sw ''when'' of
        JArr (w # ws) \<Rightarrow> switch_predicates recurse (w # ws) sw
      | _ \<Rightarrow> switch_lookup recurse sw)"

definition normalize_switch :: "(jval \<Rightarrow> obj) \<Rightarrow> obj \<Rightarrow> obj" where
  "normalize_switch recurse sw =
     (let sw1 = switch_mode recurse sw
      in oput ''default'' (JObj (recurse (coalesce (oget sw1 ''default'') ref_stub))) sw1)"

definition scalar_endpoint_value :: "string \<Rightarrow> jval \<Rightarrow> jval" where
  "scalar_endpoint_value t value =
     (case value of
        JStr s \<Rightarrow> JStr s
      | JObj es \<Rightarrow> if is_string (oget es t) then oget es t else JStr []
      | _ \<Rightarrow> JStr [])"

definition normalize_endpoint_value :: "(jval \<Rightarrow> obj) \<Rightarrow> string \<Rightarrow> jval \<Rightarrow> jval" where
  "normalize_endpoint_value recurse t v =
     (if t = ''switch'' then (case v of JObj sw \<Rightarrow> JObj (normalize_switch recurse sw) | _ \<Rightarrow> v)
      else if t = ''fanout'' then
        (case v of JArr xs \<Rightarrow> JArr (map (\<lambda>x. JObj (recurse x)) xs) | _ \<Rightarrow> JArr [ref_stub])
      else if t = ''static'' \<or> t = ''ref'' then scalar_endpoint_value t v
      else v)"

text \<open>\<open>{...createDefaultEndpoint(type), ...cloneJson(data)}\<close>\<close>

definition endpoint_base :: "obj \<Rightarrow> obj" where
  "endpoint_base data =
     ospread (create_default_endpoint (get_endpoint_type data)) (record_or_empty (clone_json (JObj data)))"

definition ensure_endpoint_defaults :: "(jval \<Rightarrow> obj) \<Rightarrow> jval \<Rightarrow> obj" where
  "ensure_endpoint_defaults recurse endpoint =
     (case unwrap_root endpoint of
        None \<Rightarrow> create_default_endpoint ''http''
      | Some data \<Rightarrow>
          (let t = get_endpoint_type data;
               normalized = endpoint_base data;
               value = drop_unset_encryption (normalize_endpoint_value recurse t (oget normalized t))
           in oput ''middlewares'' (JArr (normalize_middlewares recurse (oget normalized ''middlewares'')))
                (oput t value normalized)))"

section \<open>The recursion\<close>

text \<open>
  \<open>normalizeEndpointRecord = (endpoint) => ensureEndpointDefaults(endpoint, normalizeEndpointRecord)\<close>.
  A recursive call is made on a strictly less nested value or on the stub the code puts in
  for an absent endpoint, so the recursion ends.
\<close>

fun jdepth :: "jval \<Rightarrow> nat" where
  "jdepth (JArr xs) = Suc (foldr max (map jdepth xs) 0)"
| "jdepth (JObj es) = Suc (foldr max (map (\<lambda>(k, v). jdepth v) es) 0)"
| "jdepth v = 0"

definition endpoint_rank :: "jval \<Rightarrow> nat" where
  "endpoint_rank v = (if v = ref_stub then 0 else jdepth v)"

lemma foldr_max_ge: "x \<in> set xs \<Longrightarrow> f x \<le> foldr max (map f xs) (0 :: nat)"
  by (induction xs) auto

lemma foldr_max_le: "(\<And>x. x \<in> set xs \<Longrightarrow> f x \<le> n) \<Longrightarrow> foldr max (map f xs) (0 :: nat) \<le> n"
  by (induction xs) auto

lemma jdepth_elem: "x \<in> set xs \<Longrightarrow> jdepth x < jdepth (JArr xs)"
  using foldr_max_ge [of x xs jdepth] by simp

lemma jdepth_member: "(k, v) \<in> set es \<Longrightarrow> jdepth v < jdepth (JObj es)"
  using foldr_max_ge [of "(k, v)" es "\<lambda>(k, v). jdepth v"] by simp

lemma jdepth_oget: "jdepth (oget es k) < jdepth (JObj es)"
  using jdepth_member [of k _ es] by (auto simp: oget_def split: option.splits dest: map_of_SomeD)

lemma jdepth_JObj_le: "(\<And>k v. (k, v) \<in> set es \<Longrightarrow> jdepth v < n) \<Longrightarrow> 0 < n \<Longrightarrow> jdepth (JObj es) \<le> n"
proof -
  assume a: "\<And>k v. (k, v) \<in> set es \<Longrightarrow> jdepth v < n" and "0 < n"
  then obtain m where n: "n = Suc m" by (cases n) auto
  have "foldr max (map (\<lambda>(k, v). jdepth v) es) 0 \<le> m"
    by (rule foldr_max_le) (use a n in fastforce)
  with n show ?thesis by simp
qed

lemma jdepth_JArr_le: "(\<And>x. x \<in> set xs \<Longrightarrow> jdepth x < n) \<Longrightarrow> 0 < n \<Longrightarrow> jdepth (JArr xs) \<le> n"
proof -
  assume a: "\<And>x. x \<in> set xs \<Longrightarrow> jdepth x < n" and "0 < n"
  then obtain m where n: "n = Suc m" by (cases n) auto
  have "foldr max (map jdepth xs) 0 \<le> m"
    by (rule foldr_max_le) (use a n in fastforce)
  with n show ?thesis by simp
qed

lemma jdepth_clone: "jdepth (clone_json v) \<le> jdepth v"
proof (induction v rule: clone_json.induct)
  case (1 xs)
  have "jdepth y < jdepth (JArr xs)" if "y \<in> set (map (\<lambda>x. if x = Undef then Null else clone_json x) xs)" for y
    using that 1 jdepth_elem [of _ xs] by (fastforce split: if_splits)
  then show ?case unfolding clone_json.simps by (intro jdepth_JArr_le) (blast, simp)
next
  case (2 es)
  have "jdepth w < jdepth (JObj es)"
    if "(k, w) \<in> set (own_entries (filter (\<lambda>e. snd e \<noteq> Undef) (map (\<lambda>(k, v). (k, clone_json v)) es)))" for k w
    using that 2 jdepth_member [of k _ es] by fastforce
  then show ?case unfolding clone_json.simps by (intro jdepth_JObj_le) (blast, simp)
qed auto

lemma when_entry_cong:
  "(\<And>e. jdepth e < n \<Longrightarrow> f e = g e) \<Longrightarrow> jdepth x \<le> n \<Longrightarrow> 0 < n \<Longrightarrow> when_entry f x = when_entry g x"
proof -
  assume eq: "\<And>e. jdepth e < n \<Longrightarrow> f e = g e" and x: "jdepth x \<le> n" "0 < n"
  let ?r = "if is_object x then x else JObj []"
  have "jdepth (jget ?r ''to'') < n"
  proof (cases x)
    case (JObj es)
    then show ?thesis using x jdepth_oget [of es "''to''"] by simp
  qed (use x in \<open>auto simp: is_index_def is_digit_def\<close>)
  then show ?thesis unfolding when_entry_def Let_def by (simp only: eq)
qed

lemma switch_predicates_cong:
  assumes eq: "\<And>e. jdepth e < jdepth (JObj sw) \<Longrightarrow> f e = g e" and xs: "oget sw ''when'' = JArr xs"
  shows "switch_predicates f xs sw = switch_predicates g xs sw"
proof -
  have "map (when_entry f) xs = map (when_entry g) xs"
  proof (rule map_cong [OF refl])
    fix x assume "x \<in> set xs"
    with xs jdepth_elem [of x xs] jdepth_oget [of sw "''when''"] show "when_entry f x = when_entry g x"
      by (intro when_entry_cong [of "jdepth (JObj sw)"] eq) auto
  qed
  then show ?thesis by (simp only: switch_predicates_def)
qed

lemma switch_lookup_cong:
  assumes eq: "\<And>e. jdepth e < jdepth (JObj sw) \<Longrightarrow> f e = g e"
  shows "switch_lookup f sw = switch_lookup g sw"
proof -
  have "map (\<lambda>(k, v). (k, JObj (f v))) (own_entries cs) = map (\<lambda>(k, v). (k, JObj (g v))) (own_entries cs)"
    if "oget sw ''cases'' = JObj cs" for cs
  proof (rule map_cong [OF refl])
    fix e assume "e \<in> set (own_entries cs)"
    then have "jdepth (snd e) < jdepth (JObj cs)" using jdepth_member [of "fst e" "snd e" cs] by simp
    with that jdepth_oget [of sw "''cases''"] have "jdepth (snd e) < jdepth (JObj sw)" by simp
    then have "f (snd e) = g (snd e)" by (blast intro: eq)
    then show "(case e of (k, v) \<Rightarrow> (k, JObj (f v))) = (case e of (k, v) \<Rightarrow> (k, JObj (g v)))"
      by (simp add: case_prod_beta)
  qed
  then show ?thesis
    by (cases "oget sw ''cases''") (simp_all add: switch_lookup_def Let_def del: list.map map_eq_conv)
qed

lemma switch_mode_default: "oget (switch_mode f sw) ''default'' = oget sw ''default''"
  by (auto simp: switch_mode_def switch_predicates_def switch_lookup_def Let_def split: jval.splits list.splits)

lemma normalize_switch_cong:
  assumes eq: "\<And>e. e = ref_stub \<or> jdepth e < jdepth (JObj sw) \<Longrightarrow> f e = g e"
  shows "normalize_switch f sw = normalize_switch g sw"
proof -
  have "switch_predicates f (w # ws) sw = switch_predicates g (w # ws) sw" if "oget sw ''when'' = JArr (w # ws)" for w ws
    using that by (intro switch_predicates_cong eq) auto
  moreover have "switch_lookup f sw = switch_lookup g sw" by (intro switch_lookup_cong eq) auto
  ultimately have mode: "switch_mode f sw = switch_mode g sw"
    unfolding switch_mode_def by (simp split: jval.split list.split)
  have "coalesce (oget sw ''default'') ref_stub = ref_stub \<or> jdepth (coalesce (oget sw ''default'') ref_stub) < jdepth (JObj sw)"
    using jdepth_oget [of sw "''default''"] by (simp add: coalesce_def)
  then show ?thesis
    unfolding normalize_switch_def Let_def mode switch_mode_default by (simp only: eq)
qed

lemma normalize_value_cong:
  assumes "\<And>e. e = ref_stub \<or> jdepth e < jdepth v \<Longrightarrow> f e = g e"
  shows "normalize_endpoint_value f t v = normalize_endpoint_value g t v"
proof -
  have "map (\<lambda>x. JObj (f x)) xs = map (\<lambda>x. JObj (g x)) xs" if "v = JArr xs" for xs
    using assms jdepth_elem [of _ xs] that by (intro map_cong refl) simp
  then show ?thesis
    using normalize_switch_cong [of _ f g] assms
    by (cases v) (simp_all add: normalize_endpoint_value_def del: map_eq_conv)
qed

lemma default_value_cong:
  "f ref_stub = g ref_stub \<Longrightarrow>
   normalize_endpoint_value f t (oget (create_default_endpoint t) t)
     = normalize_endpoint_value g t (oget (create_default_endpoint t) t)"
  by (simp add: normalize_endpoint_value_def create_default_endpoint_def normalize_switch_def
      switch_mode_def switch_lookup_def coalesce_def ref_stub_def Let_def)

lemma middleware_cong:
  assumes eq: "\<And>e. e = ref_stub \<or> jdepth e < jdepth v \<Longrightarrow> f e = g e"
  shows "normalize_middleware f v = normalize_middleware g v"
proof (cases "clone_json v")
  case (JObj ms)
  have "coalesce (oget dlq ''endpoint'') ref_stub = ref_stub \<or> jdepth (coalesce (oget dlq ''endpoint'') ref_stub) < jdepth v"
    if "oget ms ''dlq'' = JObj dlq" for dlq
    using jdepth_oget [of dlq "''endpoint''"] jdepth_oget [of ms "''dlq''"] jdepth_clone [of v] that JObj
    by (auto simp: coalesce_def)
  then have "f (coalesce (oget dlq ''endpoint'') ref_stub) = g (coalesce (oget dlq ''endpoint'') ref_stub)"
    if "oget ms ''dlq'' = JObj dlq" for dlq
    using that eq by blast
  then show ?thesis using JObj by (cases "oget ms ''dlq''") (simp_all add: normalize_middleware_def)
qed (simp_all add: normalize_middleware_def)

lemma middlewares_cong:
  assumes eq: "\<And>e. e = ref_stub \<or> jdepth e < jdepth v \<Longrightarrow> f e = g e"
  shows "normalize_middlewares f v = normalize_middlewares g v"
proof (cases v)
  case (JArr xs)
  have "map (normalize_middleware f) xs = map (normalize_middleware g) xs"
    using JArr jdepth_elem [of _ xs] by (intro map_cong refl middleware_cong eq) (meson less_trans)
  with JArr show ?thesis by (simp add: normalize_middlewares_def del: map_eq_conv)
qed (simp_all add: normalize_middlewares_def)

lemma base_cases:
  "oget (endpoint_base data) k = oget (create_default_endpoint (get_endpoint_type data)) k
   \<or> jdepth (oget (endpoint_base data) k) < jdepth (JObj data)"
proof -
  have "jdepth v < jdepth (JObj data)" if "(k, v) \<in> set (record_or_empty (clone_json (JObj data)))" for v
    using that jdepth_member [of k v "record_or_empty (clone_json (JObj data))"] jdepth_clone [of "JObj data"]
    by simp
  then show ?thesis unfolding endpoint_base_def using oget_ospread_cases by blast
qed

lemma unwrap_depth: "unwrap_root v = Some data \<Longrightarrow> jdepth (JObj data) \<le> jdepth v"
  by (auto simp: unwrap_root_def simp del: jdepth.simps split: jval.splits)
    (metis jdepth_oget less_imp_le)

lemma ensure_stub: "ensure_endpoint_defaults f ref_stub = [(''ref'', JStr []), (''middlewares'', JArr [])]"
  by (simp add: ensure_endpoint_defaults_def unwrap_root_def ref_stub_def endpoint_base_def get_endpoint_type_def
      create_default_endpoint_def normalize_endpoint_value_def scalar_endpoint_value_def drop_unset_encryption_def
      normalize_middlewares_def ohas_def ospread_def own_entries_def is_index_def is_digit_def Let_def)

lemma ensure_cong:
  assumes eq: "\<And>e. endpoint_rank e < endpoint_rank v \<Longrightarrow> f e = g e"
  shows "ensure_endpoint_defaults f v = ensure_endpoint_defaults g v"
proof (cases "v = ref_stub")
  case True
  then show ?thesis by (simp add: ensure_stub)
next
  case v: False
  show ?thesis
  proof (cases "unwrap_root v")
    case None
    then show ?thesis by (simp add: ensure_endpoint_defaults_def)
  next
    case (Some data)
    let ?t = "get_endpoint_type data" and ?n = "endpoint_base data"
    have rank: "endpoint_rank v = jdepth v" and pos: "0 < jdepth v"
      using v unwrap_depth [OF Some] by (auto simp: endpoint_rank_def)
    then have stub: "f ref_stub = g ref_stub" by (intro eq) (simp add: endpoint_rank_def)
    have sub: "f e = g e" if "jdepth e < jdepth w" "jdepth w < jdepth (JObj data)" for e w
      using that unwrap_depth [OF Some] rank by (intro eq) (simp add: endpoint_rank_def)
    have "normalize_endpoint_value f ?t (oget ?n ?t) = normalize_endpoint_value g ?t (oget ?n ?t)"
      using base_cases [of data ?t]
    proof
      assume "oget ?n ?t = oget (create_default_endpoint ?t) ?t"
      then show ?thesis by (simp only: default_value_cong [of f g, OF stub])
    next
      assume "jdepth (oget ?n ?t) < jdepth (JObj data)"
      with stub sub show ?thesis by (intro normalize_value_cong) blast
    qed
    moreover have "normalize_middlewares f (oget ?n ''middlewares'') = normalize_middlewares g (oget ?n ''middlewares'')"
      using base_cases [of data "''middlewares''"]
    proof
      assume "oget ?n ''middlewares'' = oget (create_default_endpoint ?t) ''middlewares''"
      then show ?thesis
        by (simp add: create_default_endpoint_def normalize_middlewares_def default_metrics_middleware_def)
    next
      assume "jdepth (oget ?n ''middlewares'') < jdepth (JObj data)"
      with stub sub show ?thesis by (intro middlewares_cong) blast
    qed
    ultimately show ?thesis using Some by (simp add: ensure_endpoint_defaults_def Let_def)
  qed
qed

text \<open>With the congruence rule the recursion through the parameter is accepted as it stands.\<close>

lemma ensure_fundef_cong [fundef_cong]:
  assumes "v = w" and "\<And>e. endpoint_rank e < endpoint_rank w \<Longrightarrow> f e = g e"
  shows "ensure_endpoint_defaults f v = ensure_endpoint_defaults g w"
  using assms ensure_cong by blast

function normalize_endpoint_record :: "jval \<Rightarrow> obj" where
  "normalize_endpoint_record endpoint = ensure_endpoint_defaults (\<lambda>e. normalize_endpoint_record e) endpoint"
  by pat_completeness auto
termination
  by (relation "measure endpoint_rank") auto

declare normalize_endpoint_record.simps [simp del]

section \<open>Reference-only endpoints and clean-up helpers\<close>

text \<open>\<open>ensureRefOnlyEndpointDefaults\<close> recurses through the dead-letter middlewares.\<close>

definition ref_only_step :: "(jval \<Rightarrow> obj) \<Rightarrow> jval \<Rightarrow> obj" where
  "ref_only_step recurse endpoint =
     (if is_string endpoint then [(''ref'', endpoint), (''middlewares'', JArr [])]
      else case unwrap_root endpoint of
        None \<Rightarrow> [(''ref'', JStr []), (''middlewares'', JArr [])]
      | Some data \<Rightarrow>
          [(''ref'', if is_string (oget data ''ref'') then oget data ''ref'' else JStr []),
           (''middlewares'', JArr (normalize_middlewares recurse (oget data ''middlewares'')))])"

lemma ref_only_cong [fundef_cong]:
  assumes "v = w" and eq: "\<And>e. endpoint_rank e < endpoint_rank w \<Longrightarrow> f e = g e"
  shows "ref_only_step f v = ref_only_step g w"
proof (cases "w = ref_stub")
  case True
  with assms(1) show ?thesis by (simp add: ref_only_step_def ref_stub_def unwrap_root_def normalize_middlewares_def)
next
  case w: False
  have "normalize_middlewares f (oget data ''middlewares'') = normalize_middlewares g (oget data ''middlewares'')"
    if "unwrap_root w = Some data" for data
  proof (rule middlewares_cong)
    fix e assume "e = ref_stub \<or> jdepth e < jdepth (oget data ''middlewares'')"
    with w unwrap_depth [OF that] jdepth_oget [of data "''middlewares''"] show "f e = g e"
      by (intro eq) (auto simp: endpoint_rank_def)
  qed
  with assms(1) show ?thesis by (simp add: ref_only_step_def split: option.split)
qed

function ensure_ref_only_endpoint_defaults :: "jval \<Rightarrow> obj" where
  "ensure_ref_only_endpoint_defaults endpoint = ref_only_step (\<lambda>e. ensure_ref_only_endpoint_defaults e) endpoint"
  by pat_completeness auto
termination
  by (relation "measure endpoint_rank") auto

declare ensure_ref_only_endpoint_defaults.simps [simp del]

definition normalize_scalar_endpoint_value :: "string \<Rightarrow> jval \<Rightarrow> jval" where
  "normalize_scalar_endpoint_value t value =
     (if t \<noteq> ''static'' \<and> t \<noteq> ''ref'' then value else scalar_endpoint_value t value)"

definition prune_polymorphic_endpoint_keys :: "string list \<Rightarrow> string \<Rightarrow> obj \<Rightarrow> obj" where
  "prune_polymorphic_endpoint_keys known t normalized =
     fold (\<lambda>k n. if k \<noteq> t \<and> ohas n k then odel k n else n) known normalized"

section \<open>Client endpoints and listening endpoints\<close>

record url =
  u_protocol :: string
  u_host :: string
  u_pathname :: string
  u_search :: string

definition client_url_protocols :: "(string \<times> string) list" where
  "client_url_protocols = [(''http'', ''http:''), (''websocket'', ''ws:''), (''grpc'', ''grpc:'')]"

definition path_capable :: "string list" where
  "path_capable = [''http'', ''websocket'']"

record url_parts =
  up_host :: string
  up_full :: string
  up_path :: string

text \<open>\<open>value.replace(/^[a-z][a-z0-9+.-]*:\/\//i, "")\<close>\<close>

definition scheme_char :: "char \<Rightarrow> bool" where
  "scheme_char c \<longleftrightarrow> (let n = (of_char c :: nat) in
     (65 \<le> n \<and> n \<le> 90) \<or> (97 \<le> n \<and> n \<le> 122) \<or> (48 \<le> n \<and> n \<le> 57)
     \<or> c = CHR ''+'' \<or> c = CHR ''.'' \<or> c = CHR ''-'')"

definition letter :: "char \<Rightarrow> bool" where
  "letter c \<longleftrightarrow> (let n = (of_char c :: nat) in (65 \<le> n \<and> n \<le> 90) \<or> (97 \<le> n \<and> n \<le> 122))"

definition strip_scheme :: "string \<Rightarrow> string" where
  "strip_scheme s =
     (let rest = dropWhile scheme_char s
      in if s \<noteq> [] \<and> letter (hd s) \<and> starts_with ''://'' rest then drop 3 rest else s)"

definition split_endpoint_url :: "(string \<Rightarrow> url option) \<Rightarrow> jval \<Rightarrow> string \<Rightarrow> url_parts option" where
  "split_endpoint_url parse raw_url default_protocol =
     (let value = js_trim (str_or raw_url [])
      in if value = [] then None
         else case parse (if js_includes ''://'' value then value else default_protocol @ ''//'' @ value) of
           Some parsed \<Rightarrow>
             (let path = (if u_pathname parsed = [] then ''/'' else u_pathname parsed) @ u_search parsed
              in Some \<lparr>up_host = u_host parsed,
                       up_full = u_protocol parsed @ ''//'' @ u_host parsed @ (if path = ''/'' then [] else path),
                       up_path = (if path \<noteq> [] \<and> path \<noteq> ''/'' then path else [])\<rparr>)
         | None \<Rightarrow>
             (let pieces = split_on CHR ''/'' (strip_scheme value);
                  host = hd pieces;
                  path = (if tl pieces \<noteq> [] then CHR ''/'' # join ''/'' (tl pieces) else [])
              in Some \<lparr>up_host = host, up_full = default_protocol @ ''//'' @ host @ path, up_path = path\<rparr>))"

definition normalize_listen_host :: "string \<Rightarrow> string" where
  "normalize_listen_host host =
     (if host = ''localhost'' then ''127.0.0.1''
      else if starts_with ''localhost:'' host then ''127.0.0.1:'' @ drop (length ''localhost:'') host
      else host)"

text \<open>The endpoint's copy, its type, protocol, configuration and split address.\<close>

definition client_endpoint_parts ::
    "(string \<Rightarrow> url option) \<Rightarrow> obj \<Rightarrow> (obj \<times> string \<times> string \<times> obj \<times> url_parts) option" where
  "client_endpoint_parts parse endpoint =
     (let next_endpoint = record_or_empty (clone_json (JObj endpoint));
          t = get_endpoint_type next_endpoint
      in case map_of client_url_protocols t of
           None \<Rightarrow> None
         | Some protocol \<Rightarrow>
             (case oget next_endpoint t of
                JObj config \<Rightarrow>
                  (case split_endpoint_url parse (oget config ''url'') protocol of
                     None \<Rightarrow> None
                   | Some parsed \<Rightarrow> if up_host parsed = [] then None
                       else Some (next_endpoint, t, protocol, config, parsed))
              | _ \<Rightarrow> None))"

definition consumer_endpoint_from_publisher :: "(string \<Rightarrow> url option) \<Rightarrow> obj \<Rightarrow> obj" where
  "consumer_endpoint_from_publisher parse endpoint =
     (case client_endpoint_parts parse endpoint of
        None \<Rightarrow> record_or_empty (clone_json (JObj endpoint))
      | Some (next_endpoint, t, protocol, config, parsed) \<Rightarrow>
          (let config1 = oput ''url'' (JStr (normalize_listen_host (up_host parsed))) config;
               path = (if up_path parsed \<noteq> [] then up_path parsed
                       else if is_string (oget config1 ''path'') then to_str (oget config1 ''path'') else []);
               config2 = (if t \<in> set path_capable
                  then (if path \<noteq> [] \<and> path \<noteq> ''/'' then oput ''path'' (JStr path) config1 else odel ''path'' config1)
                  else config1)
           in oput t (JObj config2) next_endpoint))"

definition publisher_endpoint_from_consumer :: "(string \<Rightarrow> url option) \<Rightarrow> obj \<Rightarrow> obj" where
  "publisher_endpoint_from_consumer parse endpoint =
     (case client_endpoint_parts parse endpoint of
        None \<Rightarrow> record_or_empty (clone_json (JObj endpoint))
      | Some (next_endpoint, t, protocol, config, parsed) \<Rightarrow>
          (let path = (if t \<in> set path_capable \<and> is_string (oget config ''path'')
                       then js_trim (to_str (oget config ''path'')) else up_path parsed);
               config1 = oput ''url'' (JStr (protocol @ ''//'' @ up_host parsed
                  @ (if path \<noteq> [] \<and> path \<noteq> ''/''
                     then (if starts_with ''/'' path then path else CHR ''/'' # path) else []))) config;
               config2 = (if t \<in> set path_capable then odel ''path'' config1 else config1)
           in oput t (JObj config2) next_endpoint))"

section \<open>Facts\<close>

lemma normalized_value:
  "unwrap_root v = Some data \<Longrightarrow> get_endpoint_type data \<noteq> ''middlewares'' \<Longrightarrow>
   oget (normalize_endpoint_record v) (get_endpoint_type data)
     = drop_unset_encryption (normalize_endpoint_value normalize_endpoint_record (get_endpoint_type data)
         (oget (endpoint_base data) (get_endpoint_type data)))"
  by (subst normalize_endpoint_record.simps) (simp add: ensure_endpoint_defaults_def Let_def)

lemma type_not_middlewares [simp]: "get_endpoint_type data \<noteq> ''middlewares''"
  by (auto simp: get_endpoint_type_def find_Some_iff split: option.splits if_splits)

lemma drop_unset_oget:
  "drop_unset_encryption (JObj a) = JObj b \<Longrightarrow> k \<noteq> ''encryption'' \<Longrightarrow> oget b k = oget a k"
  "drop_unset_encryption (JObj a) = JObj b \<Longrightarrow> k \<noteq> ''encryption'' \<Longrightarrow> ohas b k = ohas a k"
  by (auto simp: drop_unset_encryption_def split: if_splits)

lemma drop_unset_record: "\<exists>b. drop_unset_encryption (JObj a) = JObj b"
  by (simp add: drop_unset_encryption_def)

lemma drop_unset_not_record: "\<not> is_record v \<Longrightarrow> drop_unset_encryption v = v"
  by (cases v) (simp_all add: drop_unset_encryption_def)

lemma switch_mode_cases:
  "(\<exists>w ws. oget sw ''when'' = JArr (w # ws) \<and> switch_mode f sw = switch_predicates f (w # ws) sw)
   \<or> ((\<nexists>w ws. oget sw ''when'' = JArr (w # ws)) \<and> switch_mode f sw = switch_lookup f sw)"
  by (auto simp: switch_mode_def split: jval.split list.split)

lemma normalize_switch_shape:
  "let r = normalize_switch f sw in
     (\<exists>d. oget r ''default'' = JObj d) \<and>
     (if ohas r ''when''
      then (\<exists>w ws. oget r ''when'' = JArr (w # ws)) \<and> \<not> ohas r ''metadata_key'' \<and> \<not> ohas r ''cases''
      else truthy (oget r ''metadata_key'') \<and> (\<exists>cs. oget r ''cases'' = JObj cs))"
  using switch_mode_cases [of sw f]
  by (elim disjE exE conjE)
    (simp_all add: normalize_switch_def switch_predicates_def switch_lookup_def Let_def)

section \<open>Properties\<close>

text \<open>
  C32: a switch endpoint leaves normalisation in exactly one of its two modes: either with a
  non-empty predicate list and neither a metadata key nor cases, or without predicates and with
  a metadata key and a case table; its default target is always an endpoint object.
\<close>

theorem normalized_switch_exclusive:
  assumes "unwrap_root v = Some data" "get_endpoint_type data = ''switch''"
    and "oget (normalize_endpoint_record v) ''switch'' = JObj sw"
  shows "(\<exists>d. oget sw ''default'' = JObj d)
    \<and> (ohas sw ''when'' \<longleftrightarrow> \<not> ohas sw ''metadata_key'') \<and> (ohas sw ''when'' \<longleftrightarrow> \<not> ohas sw ''cases'')
    \<and> (ohas sw ''when'' \<longrightarrow> (\<exists>w ws. oget sw ''when'' = JArr (w # ws)))
    \<and> (\<not> ohas sw ''when'' \<longrightarrow> truthy (oget sw ''metadata_key'') \<and> (\<exists>cs. oget sw ''cases'' = JObj cs))"
proof -
  let ?v = "oget (endpoint_base data) ''switch''"
  have eq: "drop_unset_encryption (normalize_endpoint_value normalize_endpoint_record ''switch'' ?v) = JObj sw"
    using normalized_value [OF assms(1)] assms(2,3) by simp
  then obtain a where "?v = JObj a"
    by (cases ?v) (simp_all add: normalize_endpoint_value_def drop_unset_encryption_def)
  with eq have "drop_unset_encryption (JObj (normalize_switch normalize_endpoint_record a)) = JObj sw"
    by (simp add: normalize_endpoint_value_def)
  note same = drop_unset_oget [OF this]
  have "ohas es k" if "truthy (oget es k) \<or> oget es k = JObj cs" for es :: obj and k cs
    using that by (cases "ohas es k") (auto simp: ohas_def oget_absent)
  with normalize_switch_shape [of normalize_endpoint_record a] show ?thesis
    by (auto simp: same Let_def split: if_splits)
qed

theorem normalized_switch_exclusive_witness:
  "\<exists>sw. oget (normalize_endpoint_record (JObj [(''switch'',
        JObj [(''metadata_key'', JStr ''k''), (''when'', JArr [JObj [(''to'', ref_stub)]])])])) ''switch'' = JObj sw
     \<and> \<not> ohas sw ''metadata_key''"
proof -
  let ?data = "[(''switch'', JObj [(''metadata_key'', JStr ''k''), (''when'', JArr [JObj [(''to'', ref_stub)]])])]"
  have stub: "normalize_endpoint_record ref_stub = [(''ref'', JStr []), (''middlewares'', JArr [])]"
    by (subst normalize_endpoint_record.simps) (rule ensure_stub)
  have ty: "get_endpoint_type ?data = ''switch''"
    by (simp add: get_endpoint_type_def own_keys_def own_entries_def ohas_def is_index_def is_digit_def)
  have un: "unwrap_root (JObj ?data) = Some ?data" by (simp add: unwrap_root_def)
  have base: "oget (endpoint_base ?data) ''switch'' = snd (hd ?data)"
    by (simp add: endpoint_base_def ty create_default_endpoint_def ospread_def own_entries_def is_index_def
        is_digit_def ref_stub_def)
  obtain sw where "oget (normalize_endpoint_record (JObj ?data)) ''switch'' = JObj sw" "ohas sw ''when''"
    using normalized_value [OF un] unfolding ty base
    by (simp add: normalize_endpoint_value_def normalize_switch_def switch_mode_def switch_predicates_def
        when_entry_def stub coalesce_def ospread_def own_entries_def is_index_def is_digit_def
        drop_unset_encryption_def ohas_def Let_def)
  with normalized_switch_exclusive [OF un ty] show ?thesis by blast
qed

text \<open>What a split of a client address gives when the platform's parser reads it.\<close>

lemma trim_no_space: "(\<And>c. c \<in> set s \<Longrightarrow> \<not> is_space c) \<Longrightarrow> js_trim s = s"
proof -
  assume s: "\<And>c. c \<in> set s \<Longrightarrow> \<not> is_space c"
  have id: "dropWhile is_space t = t" if "set t \<subseteq> set s" for t
    using that s by (cases t) auto
  show ?thesis by (simp add: js_trim_def trim_start_def id)
qed

lemma split_client_url:
  assumes "u = protocol @ ''//'' @ h @ p" "js_includes ''://'' u" "\<And>c. c \<in> set u \<Longrightarrow> \<not> is_space c" "u \<noteq> []"
    and "parse u = Some \<lparr>u_protocol = pr, u_host = h, u_pathname = pn, u_search = q\<rparr>" "pn \<noteq> []"
  shows "\<exists>f. split_endpoint_url parse (JStr u) protocol
    = Some \<lparr>up_host = h, up_full = f, up_path = (if pn @ q = ''/'' then [] else pn @ q)\<rparr>"
  using assms trim_no_space [of u] by (auto simp: split_endpoint_url_def Let_def)

lemma split_host:
  assumes "\<not> js_includes ''://'' h" "\<And>c. c \<in> set h \<Longrightarrow> \<not> is_space c" "h \<noteq> []"
    and "parse (protocol @ ''//'' @ h) = Some \<lparr>u_protocol = pr, u_host = h, u_pathname = ''/'', u_search = []\<rparr>"
  shows "\<exists>f. split_endpoint_url parse (JStr h) protocol = Some \<lparr>up_host = h, up_full = f, up_path = []\<rparr>"
  using assms trim_no_space [of h] by (simp add: split_endpoint_url_def Let_def)

lemma oput_append: "k \<in> fst ` set xs \<Longrightarrow> oput k v (xs @ ys) = oput k v xs @ ys"
  by (induction xs) auto

lemma odel_absent: "k \<notin> fst ` set xs \<Longrightarrow> odel k xs = xs"
  by (auto simp: odel_filter filter_id_conv)

lemma odel_append [simp]: "odel k (xs @ ys) = odel k xs @ odel k ys"
  by (simp add: odel_filter)

lemma map_fst_oput: "ohas es k \<Longrightarrow> map fst (oput k v es) = map fst es"
  using oput_split [of es k v] by (auto simp: ohas_def)

lemma endpoint_type_keys:
  assumes "own_entries a = a" "own_entries b = b" "map fst a = map fst b"
  shows "get_endpoint_type a = get_endpoint_type b"
proof -
  have "fst ` set a = fst ` set b" using assms(3) by (metis list.set_map)
  then have "ohas a = ohas b" by (simp add: ohas_def fun_eq_iff)
  with assms show ?thesis by (simp add: get_endpoint_type_def own_keys_def)
qed

lemma restore_config:
  assumes url: "map_of config ''url'' = Some (JStr u)" and path: "\<not> ohas config ''path''"
  shows "odel ''path'' (oput ''url'' (JStr u) (oput ''url'' (JStr h) config)) = config"
    and "odel ''path'' (oput ''url'' (JStr u) (oput ''path'' q (oput ''url'' (JStr h) config))) = config"
proof -
  let ?c = "oput ''url'' (JStr h) config"
  have c: "''path'' \<notin> fst ` set config" "''path'' \<notin> fst ` set ?c" "''url'' \<in> fst ` set ?c"
    using path by (auto simp: ohas_def)
  show "odel ''path'' (oput ''url'' (JStr u) ?c) = config"
    using c url by (simp add: oput_same odel_absent)
  show "odel ''path'' (oput ''url'' (JStr u) (oput ''path'' q ?c)) = config"
    unfolding update_new [OF c(2)] oput_append [OF c(3)] using c url by (simp add: oput_same odel_absent)
qed

lemma parts_of:
  assumes "clone_json (JObj ep) = JObj ep" "get_endpoint_type ep = t"
    "map_of client_url_protocols t = Some protocol" "oget ep t = JObj config"
    "split_endpoint_url parse (oget config ''url'') protocol = Some parsed" "up_host parsed \<noteq> []"
  shows "client_endpoint_parts parse ep = Some (ep, t, protocol, config, parsed)"
  using assms by (simp add: client_endpoint_parts_def Let_def)



end
