(* ===== verification/Labels.thy ===== *)
theory Labels
  imports Endpoint "HOL-Library.Word"
begin

text \<open>
  \<open>utils.ts\<close>: the labels shown for endpoints, the consumer's canned response, the storage key
  of an entity and the byte helpers. The random part of a fresh identifier is a parameter.
\<close>

section \<open>Entities\<close>

text \<open>\<open>{...entity}\<close> with \<open>root\<close> merged over it; \<open>fresh\<close> is \<open>createLocalEntityId(idPrefix)\<close>.\<close>

definition normalize_named_entity_form_shape :: "string \<Rightarrow> obj \<Rightarrow> obj" where
  "normalize_named_entity_form_shape fresh entity =
     (let data = (if truthy (oget entity ''root'')
          then ospread (odel ''root'' entity) (obj_entries (oget entity ''root'')) else entity);
          trimmed = js_trim (str_or (oget data ''id'') []);
          with_id = oput ''id'' (JStr (if trimmed = [] then fresh else trimmed)) data
      in oput ''name'' (JStr (str_nullish (oget with_id ''name'') [])) with_id)"

definition get_entity_storage_key :: "jval \<Rightarrow> string" where
  "get_entity_storage_key entity =
     (let trimmed_id = js_trim (str_or (jget entity ''id'') []);
          trimmed_name = js_trim (str_or (jget entity ''name'') [])
      in if trimmed_id \<noteq> [] then trimmed_id else trimmed_name)"

definition create_local_entity_id :: "string \<Rightarrow> string option \<Rightarrow> nat \<Rightarrow> string \<Rightarrow> string" where
  "create_local_entity_id prefix uuid now random =
     (case uuid of Some u \<Rightarrow> prefix @ ''_'' @ u
      | None \<Rightarrow> prefix @ ''_'' @ nat_str now @ ''_'' @ random)"

section \<open>The canned response of a consumer\<close>

definition response_headers :: "jval \<Rightarrow> (string \<times> string) list" where
  "response_headers raw_headers =
     own_entries (from_entries (filter (\<lambda>(k, v). k \<noteq> [] \<and> v \<noteq> [])
       (map (\<lambda>(k, v). (js_trim k, js_trim (to_str v))) (own_entries (record_or_empty raw_headers)))))"

definition normalize_consumer_response :: "jval \<Rightarrow> ((string \<times> string) list \<times> string) option" where
  "normalize_consumer_response response =
     (if \<not> is_object response then None
      else let headers = response_headers (jget response ''headers'');
               payload = (if is_string (jget response ''payload'') then to_str (jget response ''payload'') else [])
           in if headers \<noteq> [] \<or> js_trim payload \<noteq> [] then Some (headers, payload) else None)"

section \<open>Labels\<close>

definition sanitize_url_host :: "(string \<Rightarrow> url option) \<Rightarrow> string \<Rightarrow> string" where
  "sanitize_url_host parse raw =
     (let value = js_trim raw
      in if value = [] then []
         else case parse value of Some u \<Rightarrow> u_host u | None \<Rightarrow> strip_scheme value)"

definition sanitize_url_target :: "(string \<Rightarrow> url option) \<Rightarrow> string \<Rightarrow> bool \<Rightarrow> string" where
  "sanitize_url_target parse raw include_path =
     (let value = js_trim raw; host = sanitize_url_host parse value
      in if value = [] then []
         else if \<not> include_path then host
         else case parse value of
             Some u \<Rightarrow> (let path = u_pathname u @ u_search u
                        in js_trim (host @ (if path \<noteq> [] \<and> path \<noteq> ''/'' then path else [])))
           | None \<Rightarrow> host)"

definition normalize_path_value :: "string \<Rightarrow> string" where
  "normalize_path_value raw =
     (let value = js_trim raw
      in if value = [] then [] else if starts_with ''/'' value then value else CHR ''/'' # value)"

definition summary_secret_fields :: "string list" where
  "summary_secret_fields =
     [''username'', ''password'', ''access_key'', ''secret_key'', ''secret_access_key'',
      ''key_repository_password'', ''cert_password'']"

definition known_endpoint_type :: "derived \<Rightarrow> obj \<Rightarrow> string" where
  "known_endpoint_type d endpoint =
     (case List.find (\<lambda>k. k \<noteq> ''middlewares'' \<and> k \<in> set (known_root_keys d)) (own_keys endpoint) of
        Some k \<Rightarrow> if k \<noteq> [] then k else ''http'' | None \<Rightarrow> ''http'')"

definition label_field :: "(string \<Rightarrow> url option) \<Rightarrow> obj \<Rightarrow> string \<Rightarrow> string" where
  "label_field parse data field =
     (let raw = oget data field
      in if field = ''url'' then sanitize_url_target parse (str_or raw []) (js_trim (str_or (oget data ''path'') []) = [])
         else if field = ''path'' then normalize_path_value (str_or raw [])
         else js_trim (str_or raw []))"

definition get_technical_display_label ::
    "(string \<Rightarrow> url option) \<Rightarrow> derived \<Rightarrow> obj \<Rightarrow> string \<Rightarrow> string" where
  "get_technical_display_label parse d endpoint endpoint_type =
     (let t = to_lower (js_trim (if endpoint_type \<noteq> [] then endpoint_type else known_endpoint_type d endpoint));
          data = (case oget endpoint t of JObj es \<Rightarrow> es | _ \<Rightarrow> endpoint);
          fields = filter (\<lambda>f. f \<notin> set summary_secret_fields) (opt_or (map_of (basic_endpoint_fields d) t) []);
          values = filter (\<lambda>s. s \<noteq> []) (map (label_field parse data) fields);
          joined = js_trim (join '' '' values)
      in if joined \<noteq> [] then joined else format_endpoint_type_label t)"

definition get_entity_display_label ::
    "(string \<Rightarrow> url option) \<Rightarrow> derived \<Rightarrow> string \<Rightarrow> obj \<Rightarrow> string \<Rightarrow> string" where
  "get_entity_display_label parse d name endpoint endpoint_type =
     (if js_trim name \<noteq> [] then js_trim name else get_technical_display_label parse d endpoint endpoint_type)"

definition label_of :: "jval \<Rightarrow> string option" where
  "label_of node =
     (case jget node ''label'' of JStr s \<Rightarrow> if js_trim s \<noteq> [] then Some s else None | _ \<Rightarrow> None)"

definition get_label :: "(string \<Rightarrow> url option) \<Rightarrow> derived \<Rightarrow> jval \<Rightarrow> string" where
  "get_label parse d node =
     (if \<not> truthy node then []
      else case label_of node of
        Some s \<Rightarrow> s
      | None \<Rightarrow>
          (let entity = js_or (js_or (jget node ''publisher'') (jget node ''item'')) node;
               name = js_or (js_or (jget entity ''name'') (jget entity ''displayName'')) (JStr []);
               endpoint = js_or (jget entity ''endpoint'') (JObj []);
               t = js_or (js_or (js_or (jget entity ''endpointType'') (jget entity ''inputProto''))
                     (jget entity ''proto'')) (JStr [])
           in if \<not> truthy name \<and> obj_entries endpoint = [] \<and> \<not> truthy t then ''Unnamed Entity''
              else get_entity_display_label parse d (to_str name) (obj_entries endpoint) (to_str t)))"

section \<open>Bytes\<close>

definition is_printable_ascii :: "string \<Rightarrow> bool" where
  "is_printable_ascii s \<longleftrightarrow> list_all (\<lambda>c. 32 \<le> (of_char c :: nat) \<and> (of_char c :: nat) \<le> 126) s"

definition hex_digit :: "nat \<Rightarrow> char" where
  "hex_digit n = (if n < 10 then char_of (48 + n) else char_of (87 + n))"

text \<open>\<open>('0' + (byte & 0xFF).toString(16)).slice(-2)\<close>\<close>

definition to_string16 :: "nat \<Rightarrow> string" where
  "to_string16 n = (if n < 16 then [hex_digit n] else [hex_digit (n div 16), hex_digit (n mod 16)])"

definition hex_byte :: "8 word \<Rightarrow> string" where
  "hex_byte b = (let s = CHR ''0'' # to_string16 (unat b) in drop (length s - 2) s)"

definition to_hex_string :: "8 word list \<Rightarrow> string" where
  "to_hex_string bytes = join '' '' (map hex_byte bytes)"

definition hex_value :: "char \<Rightarrow> nat option" where
  "hex_value c = (let n = (of_char c :: nat) in
     if 48 \<le> n \<and> n \<le> 57 then Some (n - 48)
     else if 97 \<le> n \<and> n \<le> 102 then Some (n - 87)
     else if 65 \<le> n \<and> n \<le> 70 then Some (n - 55)
     else None)"

text \<open>\<open>parseInt(s, 16)\<close> of at most two characters; no number is stored as zero.\<close>

fun parse_hex :: "string \<Rightarrow> int" where
  "parse_hex [] = 0"
| "parse_hex [a] = (case hex_value a of Some n \<Rightarrow> int n | None \<Rightarrow> 0)"
| "parse_hex (a # b # s) =
     (if a = CHR ''-'' then - parse_hex [b]
      else if a = CHR ''+'' then parse_hex [b]
      else case hex_value a of
        None \<Rightarrow> 0
      | Some n \<Rightarrow> (case hex_value b of None \<Rightarrow> int n | Some m \<Rightarrow> int (16 * n + m)))"

fun hex_pairs :: "string \<Rightarrow> 8 word list" where
  "hex_pairs (a # b # s) = word_of_int (parse_hex [a, b]) # hex_pairs s"
| "hex_pairs s = []"

definition from_hex_string :: "string \<Rightarrow> 8 word list" where
  "from_hex_string s = hex_pairs (filter (\<lambda>c. \<not> is_space c) s)"

definition string_to_uint8_latin1 :: "string \<Rightarrow> 8 word list" where
  "string_to_uint8_latin1 s = map (\<lambda>c. word_of_nat (of_char c)) s"

section \<open>Facts\<close>

lemma response_headers_clean:
  "(k, v) \<in> set (response_headers raw) \<Longrightarrow> k \<noteq> [] \<and> v \<noteq> [] \<and> js_trim k = k \<and> js_trim v = v"
  unfolding response_headers_def by (auto dest!: subsetD [OF set_from_entries])

lemma response_headers_distinct: "distinct (map fst (response_headers raw))"
  by (simp add: response_headers_def)

text \<open>The response as the document it is saved in.\<close>

definition response_document :: "(string \<times> string) list \<times> string \<Rightarrow> jval" where
  "response_document r =
     JObj [(''headers'', JObj (map (\<lambda>(k, v). (k, JStr v)) (fst r))), (''payload'', JStr (snd r))]"

lemma response_headers_idem:
  "response_headers (JObj (map (\<lambda>(k, v). (k, JStr v)) (response_headers raw))) = response_headers raw"
proof -
  let ?h = "response_headers raw"
  have own: "own_entries ?h = ?h" by (simp add: response_headers_def)
  have "map (\<lambda>(k, v). (js_trim k, js_trim (to_str v))) (map (\<lambda>(k, v). (k, JStr v)) ?h) = ?h"
    using response_headers_clean [of _ _ raw] by (auto simp: o_def intro!: map_idI)
  moreover have "filter (\<lambda>(k, v). k \<noteq> [] \<and> v \<noteq> []) ?h = ?h"
    using response_headers_clean [of _ _ raw] by (auto intro!: filter_True)
  ultimately show ?thesis
    unfolding response_headers_def [of "JObj _"] record_or_empty.simps own_entries_map_snd own
    using response_headers_distinct own by simp
qed

lemma hex_value_digit [simp]: "n < 16 \<Longrightarrow> hex_value (hex_digit n) = Some n"
  by (auto simp: hex_value_def hex_digit_def of_char_of Let_def)

lemma hex_digit_plain [simp]: "n < 16 \<Longrightarrow> hex_digit n \<noteq> CHR ''-'' \<and> hex_digit n \<noteq> CHR ''+'' \<and> \<not> is_space (hex_digit n)"
proof -
  assume n: "n < 16"
  then have "hex_value (hex_digit n) = Some n" by simp
  moreover have "hex_value CHR ''-'' = None" "hex_value CHR ''+'' = None" by (simp_all add: hex_value_def)
  moreover have "is_space c \<Longrightarrow> hex_value c = None" for c
    by (auto simp: is_space_def hex_value_def Let_def)
  ultimately show ?thesis by (metis option.distinct(1))
qed

lemma hex_byte_digits: "hex_byte b = [hex_digit (unat b div 16), hex_digit (unat b mod 16)]"
proof -
  have "unat b < 16 \<Longrightarrow> hex_digit 0 = CHR ''0''" by (simp add: hex_digit_def char_of_def bit_simps)
  then show ?thesis by (auto simp: hex_byte_def to_string16_def Let_def)
qed

lemma unat8: "unat (b :: 8 word) div 16 < 16"
  using unsigned_less [of b, where ?'a = nat] by simp

lemma hex_pair_value: "word_of_int (parse_hex (hex_byte b)) = b"
proof -
  have "parse_hex (hex_byte b) = int (unat b)"
    using unat8 [of b] by (simp add: hex_byte_digits)
  then show ?thesis by simp
qed

lemma filter_hex_byte: "filter (\<lambda>c. \<not> is_space c) (hex_byte b) = hex_byte b"
  using unat8 [of b] by (simp add: hex_byte_digits)

lemma filter_join_hex:
  "filter (\<lambda>c. \<not> is_space c) (join '' '' (map hex_byte bs)) = concat (map hex_byte bs)"
proof (induction bs)
  case Nil
  show ?case by simp
next
  case (Cons b bs)
  have "is_space CHR '' ''" by (simp add: is_space_def)
  with Cons show ?case by (cases bs) (simp_all add: filter_hex_byte)
qed

lemma hex_pairs_concat: "hex_pairs (concat (map hex_byte bs)) = bs"
proof (induction bs)
  case (Cons b bs)
  have "hex_byte b = [hd (hex_byte b), hd (tl (hex_byte b))]" by (simp add: hex_byte_digits)
  then have "hex_pairs (hex_byte b @ s) = word_of_int (parse_hex (hex_byte b)) # hex_pairs s" for s
    by (metis append_Cons append_Nil hex_pairs.simps(1))
  with Cons hex_pair_value show ?case by simp
qed simp

section \<open>Properties\<close>

text \<open>
  a normalised consumer response is never blank, its headers have distinct non-empty trimmed
  names and non-empty trimmed values, and normalising the saved document again changes nothing.
\<close>

theorem consumer_response_normal:
  assumes "normalize_consumer_response v = Some r"
  shows "(fst r \<noteq> [] \<or> js_trim (snd r) \<noteq> [])
    \<and> distinct (map fst (fst r))
    \<and> (\<forall>(k, h) \<in> set (fst r). k \<noteq> [] \<and> h \<noteq> [] \<and> js_trim k = k \<and> js_trim h = h)
    \<and> normalize_consumer_response (response_document r) = Some r"
proof -
  let ?h = "response_headers (jget v ''headers'')"
  from assms obtain p where r: "r = (?h, p)" and ne: "?h \<noteq> [] \<or> js_trim p \<noteq> []"
    by (auto simp: normalize_consumer_response_def Let_def split: if_splits)
  with response_headers_idem response_headers_clean [of _ _ "jget v ''headers''"] show ?thesis
    by (auto simp: response_headers_distinct normalize_consumer_response_def response_document_def Let_def)
qed

theorem consumer_response_normal_witness:
  "normalize_consumer_response (response_document ([(''A'', ''b'')], [])) = Some ([(''A'', ''b'')], [])"
proof -
  have "normalize_consumer_response (JObj [(''headers'', JObj [('' A '', JStr ''b'')])]) = Some ([(''A'', ''b'')], [])"
    by (simp add: normalize_consumer_response_def response_headers_def own_entries_def is_index_def is_digit_def
        from_entries_def js_trim_def trim_start_def is_space_def Let_def)
  from consumer_response_normal [OF this] show ?thesis by simp
qed

text \<open>
  No credential field of an endpoint's configuration shows in its label: changing the
  value of one of them leaves the label as it is.
\<close>

theorem label_hides_secrets:
  assumes "k \<in> set summary_secret_fields" "oget endpoint t = JObj data" "to_lower (js_trim ty) = t" "ty \<noteq> []"
  shows "get_technical_display_label parse d (oput t (JObj (oput k v data)) endpoint) ty
       = get_technical_display_label parse d endpoint ty"
proof -
  have field: "label_field parse (oput k v data) f = label_field parse data f" if "f \<notin> set summary_secret_fields" for f
  proof -
    have "k \<noteq> ''url''" "k \<noteq> ''path''" "k \<noteq> f"
      using assms(1) that by (auto simp: summary_secret_fields_def)
    then show ?thesis by (simp add: label_field_def Let_def)
  qed
  have "map (label_field parse (oput k v data)) (filter (\<lambda>f. f \<notin> set summary_secret_fields) fs)
      = map (label_field parse data) (filter (\<lambda>f. f \<notin> set summary_secret_fields) fs)" for fs
    by (rule map_cong) (auto simp: field)
  with assms(2-4) show ?thesis
    by (simp add: get_technical_display_label_def Let_def del: map_eq_conv)
qed

theorem label_hides_secrets_witness:
  "get_technical_display_label (\<lambda>u. None) (rebuild_derived (\<lambda>a b. 0) [])
      (oput ''ibmmq'' (JObj (oput ''password'' (JStr ''pw'') [(''queue'', JStr ''Q'')])) [(''ibmmq'', JObj [(''queue'', JStr ''Q'')])]) ''ibmmq''
    = get_technical_display_label (\<lambda>u. None) (rebuild_derived (\<lambda>a b. 0) []) [(''ibmmq'', JObj [(''queue'', JStr ''Q'')])] ''ibmmq''"
  by (rule label_hides_secrets)
    (simp_all add: summary_secret_fields_def to_lower_def lower_char_def js_trim_def trim_start_def is_space_def)

text \<open>bytes written as hexadecimal pairs are read back unchanged.\<close>

theorem hex_roundtrip: "from_hex_string (to_hex_string bytes) = bytes"
  by (simp add: from_hex_string_def to_hex_string_def filter_join_hex hex_pairs_concat)

end
