(* ===== verification/Grouping.thy ===== *)
theory Grouping
  imports Labels
begin

text \<open>
  The sidebar tree of \<open>grouping-utils.ts\<close>: buckets of leaves, the path trie of a bucket of HTTP
  endpoints, and the nodes made of it. \<open>lc\<close> is \<open>localeCompare\<close>; the URL parser of the
  platform is the record \<open>url_api\<close>: the parts of a URL, its text without credentials, and its
  text without credentials, path, query and fragment (\<open>None\<close> where the constructor throws).
\<close>

record url_api =
  ua_parse :: "string \<Rightarrow> url option"
  ua_plain :: "string \<Rightarrow> string option"
  ua_root :: "string \<Rightarrow> string option"

section \<open>Addresses\<close>

definition normalize_segment :: "string \<Rightarrow> string" where
  "normalize_segment value = collapse_runs is_space CHR '' '' (js_trim value)"

text \<open>One match of \<open>/\/\/([^/@:\s]+):([^@/\s]+)@/\<close> at the start: the user and what follows.\<close>

definition match_credentials :: "string \<Rightarrow> (string \<times> string) option" where
  "match_credentials s =
     (if \<not> starts_with ''//'' s then None
      else let user_char = (\<lambda>c. c \<notin> {CHR ''/'', CHR ''@'', CHR '':''} \<and> \<not> is_space c);
               pass_char = (\<lambda>c. c \<notin> {CHR ''/'', CHR ''@''} \<and> \<not> is_space c);
               s1 = drop 2 s; user = takeWhile user_char s1; s2 = dropWhile user_char s1;
               s3 = tl s2; pass = takeWhile pass_char s3; s4 = dropWhile pass_char s3
           in if user \<noteq> [] \<and> s2 \<noteq> [] \<and> hd s2 = CHR '':'' \<and> pass \<noteq> [] \<and> s4 \<noteq> [] \<and> hd s4 = CHR ''@''
              then Some (user, tl s4) else None)"

lemma match_credentials_shorter: "match_credentials s = Some (u, r) \<Longrightarrow> length r < length s"
proof -
  let ?p = "\<lambda>c. c \<notin> {CHR ''/'', CHR ''@'', CHR '':''} \<and> \<not> is_space c"
  let ?q = "\<lambda>c. c \<notin> {CHR ''/'', CHR ''@''} \<and> \<not> is_space c"
  assume m: "match_credentials s = Some (u, r)"
  then have r: "r = tl (dropWhile ?q (tl (dropWhile ?p (drop 2 s))))" and ne: "s \<noteq> []"
    by (auto simp: match_credentials_def Let_def starts_with_def split: if_splits)
  have "length r \<le> length (drop 2 s)"
    unfolding r using length_dropWhile_le [of ?q "tl (dropWhile ?p (drop 2 s))"] length_dropWhile_le [of ?p "drop 2 s"]
    by simp
  with ne m show "length r < length s"
    by (cases s) (auto simp: match_credentials_def split: if_splits)
qed

function redact_credentials :: "string \<Rightarrow> string" where
  "redact_credentials s =
     (case s of [] \<Rightarrow> []
      | c # t \<Rightarrow> (case match_credentials s of
            Some (user, rest) \<Rightarrow> ''//'' @ user @ ''@'' @ redact_credentials rest
          | None \<Rightarrow> c # redact_credentials t))"
  by pat_completeness auto
termination
  by (relation "measure length") (auto dest: match_credentials_shorter)

declare redact_credentials.simps [simp del]

definition sanitize_tooltip_value :: "url_api \<Rightarrow> string \<Rightarrow> string" where
  "sanitize_tooltip_value ua value =
     (let trimmed = js_trim value
      in if trimmed = [] then []
         else case ua_plain ua trimmed of Some href \<Rightarrow> href | None \<Rightarrow> redact_credentials trimmed)"

text \<open>\<open>safe.replace(/^[a-z]+:\/\//i, "")\<close>\<close>

definition strip_letter_scheme :: "string \<Rightarrow> string" where
  "strip_letter_scheme s =
     (let rest = dropWhile letter s
      in if s \<noteq> [] \<and> letter (hd s) \<and> starts_with ''://'' rest then drop 3 rest else s)"

definition display_url_without_scheme :: "url_api \<Rightarrow> string \<Rightarrow> string" where
  "display_url_without_scheme ua raw_url =
     (let safe = sanitize_tooltip_value ua raw_url;
          bare = strip_letter_scheme safe
      in if safe = [] then [] else if bare \<noteq> [] \<and> last bare = CHR ''/'' then butlast bare else bare)"

definition sanitize_http_root_url :: "url_api \<Rightarrow> string \<Rightarrow> string" where
  "sanitize_http_root_url ua raw_url =
     (let value = js_trim raw_url
      in if value = [] then []
         else case ua_root ua value of
             Some href \<Rightarrow> href
           | None \<Rightarrow> (let first = hd (split_on CHR ''/'' (strip_letter_scheme value))
                      in if first \<noteq> [] then first else value))"

definition parse_http_path :: "url_api \<Rightarrow> string \<Rightarrow> string \<Rightarrow> string" where
  "parse_http_path ua raw_url raw_path =
     (let trimmed_path = js_trim raw_path; trimmed_url = js_trim raw_url
      in if trimmed_path \<noteq> [] then trimmed_path
         else if trimmed_url = [] then []
         else case ua_parse ua trimmed_url of
             Some u \<Rightarrow> (if u_pathname u = [] then ''/'' else u_pathname u) @ u_search u
           | None \<Rightarrow> dropWhile (\<lambda>c. c \<noteq> CHR ''/'') trimmed_url)"

definition split_path_segments :: "string \<Rightarrow> string list" where
  "split_path_segments path =
     filter (\<lambda>s. s \<noteq> []) (map normalize_segment (split_on CHR ''/'' (hd (split_on CHR ''?'' path))))"

definition split_messaging_segments :: "string \<Rightarrow> string list" where
  "split_messaging_segments value =
     filter (\<lambda>s. s \<noteq> []) (map normalize_segment (split_by (\<lambda>c. c = CHR ''.'' \<or> c = CHR ''/'') value))"

definition format_http_segments :: "string list \<Rightarrow> string" where
  "format_http_segments segments = (if segments = [] then ''/'' else ''/'' @ join ''/'' segments @ ''/'')"

definition common_path_prefix :: "string list list \<Rightarrow> string list" where
  "common_path_prefix paths =
     (case paths of
        [] \<Rightarrow> []
      | first # _ \<Rightarrow> map (nth first)
          (takeWhile (\<lambda>i. list_all (\<lambda>path. path ! i = first ! i) paths)
            [0 ..< foldr min (map length paths) (length first)]))"

section \<open>Leaves, tries and trees\<close>

record group_sort_key =
  gk_manual :: "int option"
  gk_method :: "int option"
  gk_target :: string
  gk_label :: string

type_synonym 'l mleaf = "'l \<times> group_sort_key"

datatype 'l tree_node =
    Leaf 'l
  | Group (gid: string) (glabel: string) (gchildren: "'l tree_node list")
      (gtype: "string option") (gtooltip: "string option")

datatype 'l path_trie =
  Trie (tsegment: string) (tkey: string) (texact: "'l list") (tchildren: "(string \<times> 'l path_trie) list")

definition max_safe_integer :: int where "max_safe_integer = 9007199254740991"

definition compare_leaves :: "(string \<Rightarrow> string \<Rightarrow> int) \<Rightarrow> 'l mleaf \<Rightarrow> 'l mleaf \<Rightarrow> int" where
  "compare_leaves lc l r =
     (let a = snd l; b = snd r;
          manual = opt_or (gk_manual a) max_safe_integer - opt_or (gk_manual b) max_safe_integer;
          method = opt_or (gk_method a) max_safe_integer - opt_or (gk_method b) max_safe_integer;
          target = lc (gk_target a) (gk_target b)
      in if manual \<noteq> 0 then manual else if method \<noteq> 0 then method
         else if target \<noteq> 0 then target else lc (gk_label a) (gk_label b))"

definition sort_group_leaves :: "(string \<Rightarrow> string \<Rightarrow> int) \<Rightarrow> 'l mleaf list \<Rightarrow> 'l mleaf list" where
  "sort_group_leaves lc leaves = js_sort (compare_leaves lc) leaves"

fun count_trie_leaves :: "'l path_trie \<Rightarrow> nat" where
  "count_trie_leaves (Trie s k ex ch) = length ex + sum_list (map (\<lambda>(_, c). count_trie_leaves c) ch)"

fun trie_add :: "string list \<Rightarrow> string list \<Rightarrow> 'l \<Rightarrow> 'l path_trie \<Rightarrow> 'l path_trie" where
  "trie_add built [] leaf (Trie s k ex ch) = Trie s k (ex @ [leaf]) ch"
| "trie_add built (seg # segs) leaf (Trie s k ex ch) =
     (let built' = built @ [seg];
          next_node = (case map_of ch seg of Some c \<Rightarrow> c | None \<Rightarrow> Trie seg (join ''/'' built') [] [])
      in Trie s k ex (oput seg (trie_add built' segs leaf next_node) ch))"

fun node_for_path_prefix :: "'l path_trie \<Rightarrow> string list \<Rightarrow> 'l path_trie \<Rightarrow> 'l path_trie" where
  "node_for_path_prefix root [] cursor = cursor"
| "node_for_path_prefix root (seg # segs) cursor =
     (case map_of (tchildren cursor) seg of
        None \<Rightarrow> root
      | Some c \<Rightarrow> node_for_path_prefix root segs c)"

lemma child_smaller: "(k, c) \<in> set (tchildren t) \<Longrightarrow> size c < size t"
proof (cases t)
  case (Trie s key ex ch)
  assume "(k, c) \<in> set (tchildren t)"
  with Trie have "(k, c) \<in> set ch" by simp
  then have "size c < size_list (size_prod (\<lambda>x. 0) size) ch"
    by (induction ch) (auto simp: less_Suc_eq_le trans_le_add1 intro: less_imp_le)
  with Trie show ?thesis by simp
qed

fun flatten_single_descendant ::
    "('l mleaf \<Rightarrow> string list \<Rightarrow> 'l) \<Rightarrow> 'l mleaf path_trie \<Rightarrow> string list \<Rightarrow> 'l option" where
  "flatten_single_descendant to_rel (Trie s k ex ch) segments =
     (if count_trie_leaves (Trie s k ex ch) \<noteq> 1 then None
      else case ex of
        [leaf] \<Rightarrow> Some (to_rel leaf segments)
      | _ \<Rightarrow> (case ch of [] \<Rightarrow> None
             | (_, child) # _ \<Rightarrow> flatten_single_descendant to_rel child (segments @ [tsegment child])))"

fun collapse_chain :: "string list \<Rightarrow> 'l path_trie \<Rightarrow> 'l path_trie \<times> string list" where
  "collapse_chain segments (Trie s k ex ch) =
     (case ch of
        [(_, only)] \<Rightarrow>
          if segments \<noteq> [] \<and> ex = [] then collapse_chain (segments @ [tsegment only]) only
          else (Trie s k ex ch, segments)
      | _ \<Rightarrow> (Trie s k ex ch, segments))"

definition is_group :: "'l tree_node \<Rightarrow> bool" where
  "is_group n = (case n of Leaf _ \<Rightarrow> False | Group _ _ _ _ _ \<Rightarrow> True)"

lemma size_collapse: "size (fst (collapse_chain segs t)) \<le> size t"
proof (induction segs t rule: collapse_chain.induct)
  case (1 segments s k ex ch)
  show ?case
  proof (cases "\<exists>key only. ch = [(key, only)] \<and> segments \<noteq> [] \<and> ex = []")
    case True
    then obtain key only where ch: "ch = [(key, only)]" "segments \<noteq> []" "ex = []" by blast
    with 1 [of "(key, only)" "[]" key only] child_smaller [of key only "Trie s k ex ch"] show ?thesis
      by simp
  next
    case False
    then show ?thesis by (auto split: list.split)
  qed
qed

definition by_segment :: "(string \<Rightarrow> string \<Rightarrow> int) \<Rightarrow> 'l path_trie \<Rightarrow> 'l path_trie \<Rightarrow> int" where
  "by_segment lc a b = lc (tsegment a) (tsegment b)"

definition child_entries :: "(string \<Rightarrow> string \<Rightarrow> int) \<Rightarrow> 'l path_trie \<Rightarrow> 'l path_trie list" where
  "child_entries lc node = js_sort (by_segment lc) (map snd (tchildren node))"

lemma child_entries_smaller: "c \<in> set (child_entries lc node) \<Longrightarrow> size c < size node"
  using child_smaller [of _ c node] by (auto simp: child_entries_def)

definition close_node :: "string \<Rightarrow> 'l path_trie \<Rightarrow> string list \<Rightarrow> 'm tree_node list \<Rightarrow> 'm tree_node list" where
  "close_node root_id current_node current_segments merged =
     (if current_segments = []
      then (case merged of
          [Group i l cs ty tt] \<Rightarrow> if list_all (\<lambda>c. \<not> is_group c) cs then cs else merged
        | _ \<Rightarrow> merged)
      else [Group (root_id @ '':path:''
                @ (if tkey current_node \<noteq> [] then tkey current_node else join ''/'' current_segments))
              (format_http_segments current_segments) merged None None])"

function materialize_http_nodes ::
    "(string \<Rightarrow> string \<Rightarrow> int) \<Rightarrow> ('l mleaf \<Rightarrow> string list \<Rightarrow> 'l) \<Rightarrow> string
      \<Rightarrow> string list \<Rightarrow> 'l mleaf path_trie \<Rightarrow> 'l tree_node list" where
  "materialize_http_nodes lc to_rel root_id inherited node =
     (let current = fst (collapse_chain inherited node);
          segments = snd (collapse_chain inherited node);
          exact = map (\<lambda>leaf. Leaf (to_rel leaf segments)) (sort_group_leaves lc (texact current));
          entries = child_entries lc current;
          can_flatten = (length entries = 1 \<and> exact = []);
          child_nodes = concat (map (\<lambda>child.
            let child_segments = segments @ [tsegment child];
                flattened = (if can_flatten then flatten_single_descendant to_rel child child_segments else None)
            in case flattened of
                 Some leaf \<Rightarrow> [Leaf leaf]
               | None \<Rightarrow> materialize_http_nodes lc to_rel root_id child_segments child) entries)
      in close_node root_id current segments (exact @ child_nodes))"
  by pat_completeness auto
termination
proof (relation "measure (\<lambda>(_, _, _, _, node). size node)")
  fix lc :: "string \<Rightarrow> string \<Rightarrow> int" and to_rel :: "'l mleaf \<Rightarrow> string list \<Rightarrow> 'l" and root_id inherited node x xa xb xc xd z xf xg
  assume "x = fst (collapse_chain inherited node)" "xc = child_entries lc x" "z \<in> set xc"
  with child_entries_smaller [of z lc x] size_collapse [of inherited node]
  show "((lc, to_rel, root_id, xf, z), (lc, to_rel, root_id, inherited, node)) \<in> measure (\<lambda>(_, _, _, _, node). size node)"
    by simp
qed simp

declare materialize_http_nodes.simps [simp del]

section \<open>Buckets\<close>

record 'l bucket =
  b_id :: string
  b_label :: string
  b_type :: string
  b_tooltip :: string
  b_leaves :: "'l mleaf list"
  b_root :: "'l mleaf path_trie option"
  b_segments :: "string list list option"

definition add_http_leaf_to_bucket ::
    "url_api \<Rightarrow> string \<Rightarrow> string \<Rightarrow> 'l mleaf \<Rightarrow> 'l bucket \<Rightarrow> 'l bucket" where
  "add_http_leaf_to_bucket ua raw_url raw_path leaf bucket =
     (let segments = split_path_segments (parse_http_path ua raw_url raw_path);
          root = opt_or (b_root bucket) (Trie [] [] [] [])
      in bucket\<lparr>b_segments := map_option (\<lambda>ps. ps @ [segments]) (b_segments bucket),
                b_root := Some (trie_add [] segments leaf root)\<rparr>)"

definition create_http_bucket :: "url_api \<Rightarrow> string \<Rightarrow> 'l bucket" where
  "create_http_bucket ua raw_url =
     (let root_url = sanitize_http_root_url ua raw_url;
          shown = display_url_without_scheme ua root_url;
          group_label = js_trim (''HTTP '' @ (if shown \<noteq> [] then shown else ''Ungrouped''))
      in \<lparr>b_id = ''http:'' @ (if root_url \<noteq> [] then root_url else group_label), b_label = group_label,
          b_type = ''HTTP'', b_tooltip = root_url, b_leaves = [],
          b_root = Some (Trie [] [] [] []), b_segments = Some []\<rparr>)"

record non_http_info =
  ni_type :: string
  ni_key :: string
  ni_label :: string
  ni_tooltip :: string
  ni_leaf_tooltip :: string
  ni_sort_target :: string

definition messaging_target :: "jval \<Rightarrow> jval" where
  "messaging_target config =
     foldr (\<lambda>k v. js_or (jget config k) v)
       [''subject'', ''topic'', ''queue'', ''routing_key'', ''routingKey'', ''table'', ''path''] (JStr [])"

definition build_non_http_group_info :: "url_api \<Rightarrow> obj \<Rightarrow> non_http_info" where
  "build_non_http_group_info ua endpoint =
     (let t = get_endpoint_type endpoint;
          config = (if is_object (oget endpoint t) then oget endpoint t else JObj []);
          safe_url = sanitize_tooltip_value ua (member_str config ''url'')
      in if t = ''mongodb'' then
           (let database = js_trim (member_str config ''database'');
                collection = js_trim (member_str config ''collection'');
                slash = (\<lambda>c. c = CHR ''/'');
                target = drop_trailing slash (dropWhile slash (database @ ''/'' @ collection));
                label = ''MONGODB '' @ display_url_without_scheme ua safe_url
                  @ (if database \<noteq> [] then ''/'' @ database else [])
                  @ (if collection \<noteq> [] then ''/'' @ collection else [])
            in \<lparr>ni_type = ''MONGODB'', ni_key = ''mongodb:'' @ safe_url @ '':'' @ database @ '':'' @ collection,
                ni_label = js_trim label, ni_tooltip = safe_url,
                ni_leaf_tooltip = (if target \<noteq> [] then target else safe_url),
                ni_sort_target = database @ ''/'' @ collection\<rparr>)
         else
           (let target = js_trim (to_str (messaging_target config));
                first_segment = (case split_messaging_segments target of
                    s # _ \<Rightarrow> s | [] \<Rightarrow> if target \<noteq> [] then target else ''Ungrouped'');
                shown = display_url_without_scheme ua safe_url
            in \<lparr>ni_type = format_endpoint_type_label t,
                ni_key = t @ '':'' @ safe_url @ '':'' @ first_segment,
                ni_label = js_trim (format_endpoint_type_label t @ '' '' @ (if shown \<noteq> [] then shown else first_segment)),
                ni_tooltip = (if safe_url \<noteq> [] then safe_url else target),
                ni_leaf_tooltip = (if target \<noteq> [] then target else safe_url),
                ni_sort_target = (if target \<noteq> [] then target else if safe_url \<noteq> [] then safe_url else first_segment)\<rparr>))"

definition materialize_bucket_children ::
    "(string \<Rightarrow> string \<Rightarrow> int) \<Rightarrow> ('l mleaf \<Rightarrow> 'l) \<Rightarrow> ('l mleaf \<Rightarrow> string list \<Rightarrow> 'l) \<Rightarrow> 'l bucket
      \<Rightarrow> 'l tree_node list \<times> string" where
  "materialize_bucket_children lc to_leaf to_rel bucket =
     (let common = (if b_root bucket \<noteq> None then common_path_prefix (opt_or (b_segments bucket) []) else []);
          children = (case b_root bucket of
              Some root \<Rightarrow> materialize_http_nodes lc to_rel (b_id bucket) [] (node_for_path_prefix root common root)
            | None \<Rightarrow> map (\<lambda>l. Leaf (to_leaf l)) (sort_group_leaves lc (b_leaves bucket)));
          label = (if common \<noteq> [] then b_label bucket @ ''/'' @ join ''/'' common else b_label bucket)
      in (children, label))"

text \<open>\<open>getOrCreateBucket\<close> followed by the change the caller makes to the bucket.\<close>

definition get_or_create_bucket :: "(string \<times> 'l bucket) list \<Rightarrow> 'l bucket \<Rightarrow> 'l bucket" where
  "get_or_create_bucket groups bucket =
     (case map_of groups (b_id bucket) of Some existing \<Rightarrow> existing | None \<Rightarrow> bucket)"

definition put_bucket ::
    "(string \<times> 'l bucket) list \<Rightarrow> 'l bucket \<Rightarrow> ('l bucket \<Rightarrow> 'l bucket) \<Rightarrow> (string \<times> 'l bucket) list" where
  "put_bucket groups bucket change = oput (b_id bucket) (change (get_or_create_bucket groups bucket)) groups"

section \<open>What a trie and a tree hold\<close>

fun tree_leaves :: "'l tree_node \<Rightarrow> 'l list" where
  "tree_leaves (Leaf l) = [l]"
| "tree_leaves (Group i lab cs ty tt) = concat (map tree_leaves cs)"

abbreviation forest_leaves :: "'l tree_node list \<Rightarrow> 'l list" where
  "forest_leaves ns \<equiv> concat (map tree_leaves ns)"

fun trie_paths :: "'l path_trie \<Rightarrow> (string list \<times> 'l) list" where
  "trie_paths (Trie s k ex ch) = map (\<lambda>l. ([], l)) ex
     @ concat (map (\<lambda>(seg, c). map (\<lambda>(p, l). (seg # p, l)) (trie_paths c)) ch)"

definition trie_leaves :: "'l path_trie \<Rightarrow> 'l list" where
  "trie_leaves t = map snd (trie_paths t)"

fun trie_wf :: "'l path_trie \<Rightarrow> bool" where
  "trie_wf (Trie s k ex ch) \<longleftrightarrow> distinct (map fst ch) \<and> (\<forall>(seg, c) \<in> set ch. trie_wf c)"

lemma trie_leaves_simps [simp]:
  "trie_leaves (Trie s k ex ch) = ex @ concat (map (\<lambda>(seg, c). trie_leaves c) ch)"
proof -
  have "map snd (concat (map (\<lambda>(seg, c). map (\<lambda>(p, l). (seg # p, l)) (trie_paths c)) ch))
      = concat (map (\<lambda>(seg, c). trie_leaves c) ch)"
    by (induction ch) (auto simp: trie_leaves_def o_def case_prod_beta)
  then show ?thesis by (simp add: trie_leaves_def o_def)
qed

lemma count_is_length: "count_trie_leaves t = length (trie_leaves t)"
proof (induction t rule: count_trie_leaves.induct)
  case (1 s k ex ch)
  then have "map (\<lambda>(uu, c). count_trie_leaves c) ch = map (\<lambda>x. length (trie_leaves (snd x))) ch"
    by (intro map_cong) auto
  then show ?case by (simp add: length_concat o_def case_prod_beta del: map_eq_conv)
qed

lemma map_of_split: "map_of es k = Some v \<Longrightarrow> \<exists>xs ys. es = xs @ (k, v) # ys \<and> (\<forall>w. oput k w es = xs @ (k, w) # ys)"
proof (induction es)
  case Nil
  then show ?case by simp
next
  case (Cons e es)
  obtain a b where e: "e = (a, b)" by force
  show ?case
  proof (cases "a = k")
    case True
    with Cons.prems e have "e # es = [] @ (k, v) # es \<and> (\<forall>w. oput k w (e # es) = [] @ (k, w) # es)" by simp
    then show ?thesis by blast
  next
    case False
    with Cons e obtain xs ys where "es = xs @ (k, v) # ys" "\<forall>w. oput k w es = xs @ (k, w) # ys"
      by auto
    with False e have "e # es = (e # xs) @ (k, v) # ys \<and> (\<forall>w. oput k w (e # es) = (e # xs) @ (k, w) # ys)"
      by simp
    then show ?thesis by blast
  qed
qed

lemma trie_add_paths:
  "mset (trie_paths (trie_add built segs leaf t)) = add_mset (segs, leaf) (mset (trie_paths t))"
proof (induction built segs leaf t rule: trie_add.induct)
  case (1 built leaf s k ex ch)
  show ?case by simp
next
  case (2 built seg segs leaf s k ex ch)
  let ?f = "\<lambda>(seg, c). map (\<lambda>(p, l). (seg # p, l)) (trie_paths c)"
  let ?new = "case map_of ch seg of Some c \<Rightarrow> c | None \<Rightarrow> Trie seg (join ''/'' (built @ [seg])) [] []"
  from 2 have IH: "mset (trie_paths (trie_add (built @ [seg]) segs leaf ?new)) = add_mset (segs, leaf) (mset (trie_paths ?new))"
    by simp
  have img: "mset (?f (seg, trie_add (built @ [seg]) segs leaf ?new)) = add_mset (seg # segs, leaf) (mset (?f (seg, ?new)))"
    using IH by simp
  show ?case
  proof (cases "map_of ch seg")
    case None
    then have "seg \<notin> fst ` set ch" by (simp add: map_of_eq_None_iff)
    with None img show ?thesis by (simp add: Let_def update_new)
  next
    case (Some c)
    then obtain xs ys where "ch = xs @ (seg, c) # ys" "\<And>w. oput seg w ch = xs @ (seg, w) # ys"
      using map_of_split by metis
    with Some img show ?thesis by (simp add: Let_def)
  qed
qed

lemma trie_add_wf: "trie_wf t \<Longrightarrow> trie_wf (trie_add built segs leaf t)"
proof (induction built segs leaf t rule: trie_add.induct)
  case (1 built leaf s k ex ch)
  then show ?case by simp
next
  case (2 built seg segs leaf s k ex ch)
  let ?new = "case map_of ch seg of Some c \<Rightarrow> c | None \<Rightarrow> Trie seg (join ''/'' (built @ [seg])) [] []"
  have "trie_wf ?new" using 2 by (auto split: option.split dest!: map_of_SomeD)
  with 2 have "trie_wf (trie_add (built @ [seg]) segs leaf ?new)" by simp
  moreover have "set (oput seg w ch) \<subseteq> insert (seg, w) (set ch)" for w by (rule set_oput)
  ultimately show ?case using 2 by (fastforce simp: Let_def distinct_update)
qed

lemma collapse_leaves: "trie_leaves (fst (collapse_chain segs t)) = trie_leaves t"
proof (induction segs t rule: collapse_chain.induct)
  case (1 segments s k ex ch)
  show ?case
  proof (cases "\<exists>key only. ch = [(key, only)] \<and> segments \<noteq> [] \<and> ex = []")
    case True
    with 1 show ?thesis by auto
  next
    case False
    then show ?thesis by (auto split: list.split)
  qed
qed

lemma flatten_leaf:
  "flatten_single_descendant to_rel t segs = Some l \<Longrightarrow> \<exists>m segs'. trie_leaves t = [m] \<and> l = to_rel m segs'"
proof (induction t arbitrary: segs rule: measure_induct_rule [of size])
  case (less t)
  obtain s k ex ch where t: "t = Trie s k ex ch" by (cases t)
  with less.prems have one: "length (trie_leaves t) = 1"
    by (auto simp: count_is_length simp del: trie_leaves_simps split: if_splits)
  show ?case
  proof (cases ex)
    case Nil
    with less.prems t obtain key c rest where ch: "ch = (key, c) # rest"
      "flatten_single_descendant to_rel c (segs @ [tsegment c]) = Some l"
      by (auto split: if_splits list.splits)
    with less.IH [OF child_smaller [of key c t] ch(2)] t obtain m segs' where
      "trie_leaves c = [m]" "l = to_rel m segs'" by auto
    with ch one t Nil show ?thesis by auto
  next
    case (Cons m ms)
    with less.prems t one show ?thesis by (auto split: if_splits list.splits)
  qed
qed

lemma child_entries_leaves:
  "mset (concat (map trie_leaves (child_entries lc t)))
     = mset (concat (map (\<lambda>(seg, c). trie_leaves c) (tchildren t)))"
proof -
  have "mset (concat (map trie_leaves (child_entries lc t))) = mset (concat (map trie_leaves (map snd (tchildren t))))"
    by (rule mset_concat_map_perm) (simp add: child_entries_def)
  then show ?thesis by (simp add: o_def case_prod_unfold)
qed

lemma trie_leaves_split: "trie_leaves t = texact t @ concat (map (\<lambda>(seg, c). trie_leaves c) (tchildren t))"
  by (cases t) simp

lemma close_node_leaves: "forest_leaves (close_node root_id t segs merged) = forest_leaves merged"
  by (auto simp: close_node_def split: list.split tree_node.split)

section \<open>The common path of a bucket\<close>

lemma min_list_le: "x \<in> set xs \<Longrightarrow> foldr min xs (n :: nat) \<le> x"
  by (induction xs) (auto intro: min.coboundedI2)

lemma takeWhile_upt: "takeWhile P [0..<n] = [0..<length (takeWhile P [0..<n])]"
proof -
  let ?m = "length (takeWhile P [0..<n])"
  have "?m \<le> n" using length_takeWhile_le [of P "[0..<n]"] by simp
  then have "take ?m [0..<n] = [0..<?m]" by simp
  with takeWhile_eq_take [of P "[0..<n]"] show ?thesis by simp
qed

lemma common_prefix_of:
  assumes "p \<in> set paths"
  shows "\<exists>rest. p = common_path_prefix paths @ rest"
proof -
  from assms obtain first others where paths: "paths = first # others" by (cases paths) auto
  let ?ok = "\<lambda>i. list_all (\<lambda>path. path ! i = first ! i) paths"
  let ?n = "foldr min (map length paths) (length first)"
  define m where "m = length (takeWhile ?ok [0..<?n])"
  have is_m: "takeWhile ?ok [0..<?n] = [0..<m]" unfolding m_def by (rule takeWhile_upt)
  have "m \<le> ?n" using length_takeWhile_le [of ?ok "[0..<?n]"] by (simp add: m_def)
  also have "?n \<le> length p" using assms by (intro min_list_le) simp
  finally have len: "m \<le> length p" .
  have same: "p ! i = first ! i" if "i < m" for i
  proof -
    have "i \<in> set (takeWhile ?ok [0..<?n])" using that is_m by simp
    then have "?ok i" by (rule set_takeWhileD [THEN conjunct2])
    with assms show ?thesis by (auto simp: list_all_iff)
  qed
  have "common_path_prefix paths = map ((!) first) [0..<m]"
    using is_m by (simp add: common_path_prefix_def paths)
  also have "\<dots> = take m p" using len same by (intro nth_equalityI) auto
  finally show ?thesis by (metis append_take_drop_id)
qed

lemma child_path:
  assumes "(seg, c) \<in> set ch" "(p, l) \<in> set (trie_paths c)"
  shows "(seg # p, l) \<in> set (trie_paths (Trie s k ex ch))"
proof -
  have "(seg # p, l) \<in> set (map (\<lambda>(p, l). (seg # p, l)) (trie_paths c))" using assms(2) by force
  with assms(1) show ?thesis by fastforce
qed

text \<open>All entries of the trie lie below one child.\<close>

definition all_below :: "string list \<Rightarrow> 'l path_trie \<Rightarrow> bool" where
  "all_below prefix t \<longleftrightarrow> (\<forall>e \<in> set (trie_paths t). \<exists>rest. fst e = prefix @ rest)"

lemma all_below_child:
  assumes wf: "trie_wf t" and below: "all_below (seg # segs) t" and c: "map_of (tchildren t) seg = Some c"
  shows "trie_leaves t = trie_leaves c \<and> all_below segs c \<and> trie_wf c"
proof -
  obtain s k ex ch where t: "t = Trie s k ex ch" by (cases t)
  from c t obtain xs ys where ch: "ch = xs @ (seg, c) # ys" using map_of_split [of ch seg c] by auto
  have "ex = []" using below t by (cases ex) (auto simp: all_below_def)
  have head: "seg' = seg" if "(seg', d) \<in> set ch" "(p, l) \<in> set (trie_paths d)" for seg' d p l
  proof -
    have "(seg' # p, l) \<in> set (trie_paths t)" unfolding t by (rule child_path) fact+
    with below show ?thesis by (fastforce simp: all_below_def)
  qed
  have other: "trie_leaves d = []" if "(seg', d) \<in> set ch" "seg' \<noteq> seg" for seg' d
    using that head [OF that(1)] by (cases "trie_paths d") (auto simp: trie_leaves_def)
  have none: "concat (map (\<lambda>(seg, c). trie_leaves c) zs) = []" if "set zs \<subseteq> set ch" "seg \<notin> fst ` set zs" for zs
  proof -
    have "trie_leaves (snd e) = []" if "e \<in> set zs" for e
      using other [of "fst e" "snd e"] that \<open>set zs \<subseteq> set ch\<close> \<open>seg \<notin> fst ` set zs\<close> by force
    then show ?thesis by (auto simp: concat_eq_Nil_conv)
  qed
  have out: "seg \<notin> fst ` set xs" "seg \<notin> fst ` set ys" using wf t ch by auto
  have "concat (map (\<lambda>(seg, c). trie_leaves c) xs) = []" by (rule none [OF _ out(1)]) (use ch in auto)
  moreover have "concat (map (\<lambda>(seg, c). trie_leaves c) ys) = []" by (rule none [OF _ out(2)]) (use ch in auto)
  ultimately have "trie_leaves t = trie_leaves c" using t ch \<open>ex = []\<close> by (simp del: concat_eq_Nil_conv)
  moreover have "all_below segs c"
    unfolding all_below_def
  proof
    fix e assume "e \<in> set (trie_paths c)"
    then have "(seg # fst e, snd e) \<in> set (trie_paths t)" unfolding t by (intro child_path [of seg c]) (simp_all add: ch)
    with below show "\<exists>rest. fst e = segs @ rest" by (fastforce simp: all_below_def)
  qed
  moreover have "trie_wf c" using wf t ch by simp
  ultimately show ?thesis by blast
qed

lemma node_for_prefix_leaves:
  assumes "trie_wf cursor" "trie_leaves cursor = trie_leaves root" "all_below prefix cursor"
  shows "trie_leaves (node_for_path_prefix root prefix cursor) = trie_leaves root"
  using assms
proof (induction root prefix cursor rule: node_for_path_prefix.induct)
  case (1 root cursor)
  then show ?case by simp
next
  case (2 root seg segs cursor)
  show ?case
  proof (cases "map_of (tchildren cursor) seg")
    case None
    then show ?thesis by simp
  next
    case (Some c)
    from all_below_child [OF 2(2) 2(4) Some] 2(1) [OF Some] 2(3) Some show ?thesis by simp
  qed
qed

section \<open>The contract of the two panels' leaves\<close>

text \<open>
  A panel gives two ways to turn a collected leaf into a shown one, \<open>toLeafNode\<close> and
  \<open>toRelativeHttpLeaf\<close>; both keep the number of the entry the leaf stands for.
\<close>

definition bucket_leaves :: "'l bucket \<Rightarrow> 'l mleaf list" where
  "bucket_leaves b = (case b_root b of Some t \<Rightarrow> trie_leaves t | None \<Rightarrow> b_leaves b)"

text \<open>
  The two kinds of bucket. A bucket of HTTP leaves has a trie whose paths are those it recorded,
  and no plain leaves; any other bucket has no trie.
\<close>

definition http_bucket :: "'l bucket \<Rightarrow> bool" where
  "http_bucket b \<longleftrightarrow> b_leaves b = [] \<and> (\<exists>t ps. b_root b = Some t \<and> b_segments b = Some ps
     \<and> trie_wf t \<and> mset (map fst (trie_paths t)) = mset ps)"

definition plain_bucket :: "'l bucket \<Rightarrow> bool" where
  "plain_bucket b \<longleftrightarrow> b_root b = None \<and> b_segments b = None"

definition bucket_ok :: "'l bucket \<Rightarrow> bool" where
  "bucket_ok b \<longleftrightarrow> http_bucket b \<or> plain_bucket b"

locale leaf_view =
  fixes to_leaf :: "'l mleaf \<Rightarrow> 'l"
    and to_rel :: "'l mleaf \<Rightarrow> string list \<Rightarrow> 'l"
    and number :: "'l \<Rightarrow> nat"
  assumes number_leaf: "number (to_leaf m) = number (fst m)"
    and number_rel: "number (to_rel m segs) = number (fst m)"
begin

lemma materialize_numbers:
  "mset (map number (forest_leaves (materialize_http_nodes lc to_rel root_id inherited node)))
     = mset (map (\<lambda>m. number (fst m)) (trie_leaves node))"
proof (induction node arbitrary: inherited rule: measure_induct_rule [of size])
  case (less node)
  define current where "current = fst (collapse_chain inherited node)"
  define segments where "segments = snd (collapse_chain inherited node)"
  define exact where "exact = map (\<lambda>leaf. Leaf (to_rel leaf segments)) (sort_group_leaves lc (texact current))"
  define flat where "flat = (\<lambda>child. if length (child_entries lc current) = 1 \<and> exact = []
      then flatten_single_descendant to_rel child (segments @ [tsegment child]) else None)"
  define sub where "sub = (\<lambda>child. case flat child of Some leaf \<Rightarrow> [Leaf leaf]
      | None \<Rightarrow> materialize_http_nodes lc to_rel root_id (segments @ [tsegment child]) child)"
  have eq: "materialize_http_nodes lc to_rel root_id inherited node
      = close_node root_id current segments (exact @ concat (map sub (child_entries lc current)))"
    unfolding exact_def sub_def flat_def current_def segments_def
    by (subst materialize_http_nodes.simps) (simp only: Let_def)
  have child: "mset (map number (forest_leaves (sub c))) = mset (map (\<lambda>m. number (fst m)) (trie_leaves c))"
    if "c \<in> set (child_entries lc current)" for c
  proof (cases "flat c")
    case None
    have "size c < size node"
      using child_entries_smaller [OF that] size_collapse [of inherited node] by (simp add: current_def)
    from less.IH [OF this] None show ?thesis by (simp add: sub_def)
  next
    case (Some l)
    then obtain m segs where "trie_leaves c = [m]" "l = to_rel m segs"
      by (auto simp: flat_def split: if_splits dest: flatten_leaf)
    with Some show ?thesis by (simp add: sub_def number_rel)
  qed
  have "mset (map number (forest_leaves (concat (map sub cs)))) = mset (map (\<lambda>m. number (fst m)) (concat (map trie_leaves cs)))"
    if "set cs \<subseteq> set (child_entries lc current)" for cs
    using that
  proof (induction cs)
    case (Cons c cs)
    then show ?case using child [of c] by simp
  qed simp
  moreover have "mset (map (\<lambda>m. number (fst m)) (concat (map trie_leaves (child_entries lc current))))
      = mset (map (\<lambda>m. number (fst m)) (concat (map (\<lambda>(seg, c). trie_leaves c) (tchildren current))))"
    unfolding mset_map child_entries_leaves ..
  moreover have "mset (map number (forest_leaves exact)) = mset (map (\<lambda>m. number (fst m)) (texact current))"
    by (simp add: exact_def o_def number_rel sort_group_leaves_def image_mset.compositionality)
  moreover have "trie_leaves node = texact current @ concat (map (\<lambda>(seg, c). trie_leaves c) (tchildren current))"
    using collapse_leaves [of inherited node] trie_leaves_split [of current] by (simp add: current_def)
  ultimately show ?case by (simp add: eq close_node_leaves)
qed

lemma bucket_numbers:
  assumes "bucket_ok b"
  shows "mset (map number (forest_leaves (fst (materialize_bucket_children lc to_leaf to_rel b))))
     = mset (map (\<lambda>m. number (fst m)) (bucket_leaves b))"
proof (cases "b_root b")
  case None
  then show ?thesis
    by (simp add: materialize_bucket_children_def bucket_leaves_def o_def number_leaf sort_group_leaves_def
        image_mset.compositionality)
next
  case (Some t)
  with assms obtain ps where ps: "b_segments b = Some ps" "trie_wf t" "mset (map fst (trie_paths t)) = mset ps"
    by (auto simp: bucket_ok_def http_bucket_def plain_bucket_def)
  have "all_below (common_path_prefix ps) t"
    unfolding all_below_def
  proof
    fix e assume "e \<in> set (trie_paths t)"
    then have "fst e \<in> set ps" using ps(3) by (metis image_eqI list.set_map set_mset_mset)
    then show "\<exists>rest. fst e = common_path_prefix ps @ rest" by (rule common_prefix_of)
  qed
  with ps have "trie_leaves (node_for_path_prefix t (common_path_prefix ps) t) = trie_leaves t"
    by (intro node_for_prefix_leaves) auto
  with Some ps show ?thesis
    by (simp add: materialize_bucket_children_def bucket_leaves_def materialize_numbers opt_or_def Let_def
        del: mset_map)
qed

end

section \<open>From buckets to the tree\<close>

text \<open>
  What both panels do with a finished bucket: a bucket with one leaf is shown as that leaf
  (\<open>single\<close> is the panel's own adjustment of it), any other as a group.
\<close>

definition bucket_node ::
    "(string \<Rightarrow> string \<Rightarrow> int) \<Rightarrow> ('l mleaf \<Rightarrow> 'l) \<Rightarrow> ('l mleaf \<Rightarrow> string list \<Rightarrow> 'l)
      \<Rightarrow> ('l \<Rightarrow> 'l bucket \<Rightarrow> 'l) \<Rightarrow> 'l bucket \<Rightarrow> 'l tree_node" where
  "bucket_node lc to_leaf to_rel single bucket =
     (let children = fst (materialize_bucket_children lc to_leaf to_rel bucket);
          label = snd (materialize_bucket_children lc to_leaf to_rel bucket);
          group = Group (b_id bucket) label children (Some (b_type bucket)) (Some (b_tooltip bucket))
      in case children of [Leaf l] \<Rightarrow> Leaf (single l bucket) | _ \<Rightarrow> group)"

definition bucket_forest ::
    "(string \<Rightarrow> string \<Rightarrow> int) \<Rightarrow> ('l mleaf \<Rightarrow> 'l) \<Rightarrow> ('l mleaf \<Rightarrow> string list \<Rightarrow> 'l)
      \<Rightarrow> ('l \<Rightarrow> 'l bucket \<Rightarrow> 'l) \<Rightarrow> (string \<times> 'l bucket) list \<Rightarrow> 'l tree_node list" where
  "bucket_forest lc to_leaf to_rel single groups =
     map (bucket_node lc to_leaf to_rel single) (js_sort (\<lambda>a b. lc (b_label a) (b_label b)) (map snd groups))"

definition bucket_kind_ok :: "'l bucket \<Rightarrow> bool" where
  "bucket_kind_ok b \<longleftrightarrow> (if starts_with ''http:'' (b_id b) then http_bucket b else plain_bucket b)"

definition groups_ok :: "(string \<times> 'l bucket) list \<Rightarrow> bool" where
  "groups_ok groups \<longleftrightarrow> (\<forall>(k, b) \<in> set groups. b_id b = k \<and> bucket_kind_ok b)"

definition group_leaves :: "(string \<times> 'l bucket) list \<Rightarrow> 'l mleaf list" where
  "group_leaves groups = concat (map (\<lambda>(k, b). bucket_leaves b) groups)"

lemma groups_ok_Nil [simp]: "groups_ok []"
  and group_leaves_Nil [simp]: "group_leaves [] = []"
  by (simp_all add: groups_ok_def group_leaves_def)

lemma put_bucket_step:
  assumes gs: "groups_ok gs" and nb: "bucket_kind_ok nb" "bucket_leaves nb = []"
    and change: "\<And>b. bucket_kind_ok b \<Longrightarrow> b_id b = b_id nb \<Longrightarrow> b_id (f b) = b_id b \<and> bucket_kind_ok (f b)
      \<and> mset (bucket_leaves (f b)) = add_mset m (mset (bucket_leaves b))"
  shows "groups_ok (put_bucket gs nb f) \<and> mset (group_leaves (put_bucket gs nb f)) = add_mset m (mset (group_leaves gs))"
proof (cases "map_of gs (b_id nb)")
  case None
  then have "b_id nb \<notin> fst ` set gs" by (simp add: map_of_eq_None_iff)
  then have "put_bucket gs nb f = gs @ [(b_id nb, f nb)]"
    by (simp add: put_bucket_def get_or_create_bucket_def None update_new)
  with change [of nb] nb gs show ?thesis by (auto simp: groups_ok_def group_leaves_def)
next
  case (Some b)
  then obtain xs ys where gs': "gs = xs @ (b_id nb, b) # ys" "oput (b_id nb) (f b) gs = xs @ (b_id nb, f b) # ys"
    using map_of_split by metis
  with gs have "bucket_kind_ok b" "b_id b = b_id nb" by (auto simp: groups_ok_def)
  from change [OF this] this gs gs' Some show ?thesis
    by (auto simp: put_bucket_def get_or_create_bucket_def groups_ok_def group_leaves_def)
qed

lemma http_bucket_new [simp]: "bucket_kind_ok (create_http_bucket ua u)" "bucket_leaves (create_http_bucket ua u) = []"
  by (simp_all add: create_http_bucket_def bucket_kind_ok_def http_bucket_def bucket_leaves_def Let_def)

lemma http_id: "starts_with ''http:'' (b_id (create_http_bucket ua u))"
  by (simp add: create_http_bucket_def Let_def)

lemma add_http_leaf_step:
  assumes "bucket_kind_ok b" "starts_with ''http:'' (b_id b)"
  shows "b_id (add_http_leaf_to_bucket ua u p m b) = b_id b \<and> bucket_kind_ok (add_http_leaf_to_bucket ua u p m b)
    \<and> mset (bucket_leaves (add_http_leaf_to_bucket ua u p m b)) = add_mset m (mset (bucket_leaves b))"
proof -
  from assms obtain t ps where t: "b_leaves b = []" "b_root b = Some t" "b_segments b = Some ps" "trie_wf t"
    "mset (map fst (trie_paths t)) = mset ps" by (auto simp: bucket_kind_ok_def http_bucket_def)
  note paths = trie_add_paths [of "[]" "split_path_segments (parse_http_path ua u p)" m t]
  have "mset (trie_leaves (trie_add [] (split_path_segments (parse_http_path ua u p)) m t)) = add_mset m (mset (trie_leaves t))"
    unfolding trie_leaves_def mset_map paths by simp
  with t paths trie_add_wf [OF t(4)] assms show ?thesis
    by (simp add: add_http_leaf_to_bucket_def bucket_kind_ok_def http_bucket_def bucket_leaves_def opt_or_def Let_def)
qed

lemma non_http_key:
  assumes "get_endpoint_type endpoint \<noteq> ''http''" "CHR '':'' \<notin> set (get_endpoint_type endpoint)"
  shows "\<not> starts_with ''http:'' (ni_key (build_non_http_group_info ua endpoint))"
proof -
  let ?t = "get_endpoint_type endpoint"
  obtain rest where "ni_key (build_non_http_group_info ua endpoint) = ?t @ '':'' @ rest"
    by (cases "?t = ''mongodb''") (simp_all add: build_non_http_group_info_def Let_def)
  moreover have "?t = ''http''" if "?t @ '':'' @ rest = ''http:'' @ more" for more
  proof -
    from that have "takeWhile (\<lambda>c. c \<noteq> CHR '':'') (?t @ '':'' @ rest) = takeWhile (\<lambda>c. c \<noteq> CHR '':'') (''http:'' @ more)"
      by simp
    moreover have "takeWhile (\<lambda>c. c \<noteq> CHR '':'') (?t @ '':'' @ rest) = ?t"
      using assms(2) by (subst takeWhile_append2) auto
    ultimately show ?thesis by simp
  qed
  ultimately show ?thesis using assms(1) unfolding starts_with_iff by metis
qed

text \<open>The parts the two panels write alike.\<close>

definition http_config :: "obj \<Rightarrow> jval" where
  "http_config entity = jget (oget entity ''endpoint'') ''http''"

definition endpoint_of :: "obj \<Rightarrow> obj" where
  "endpoint_of entity = record_or_empty (oget entity ''endpoint'')"

definition full_http_target :: "url_api \<Rightarrow> string \<Rightarrow> string \<Rightarrow> string" where
  "full_http_target ua raw_url path =
     (let base = display_url_without_scheme ua raw_url
      in if path \<noteq> [] \<and> ends_with path base then base else base @ path)"

definition non_http_bucket :: "non_http_info \<Rightarrow> 'l bucket" where
  "non_http_bucket info =
     \<lparr>b_id = ni_key info, b_label = ni_label info, b_type = ni_type info, b_tooltip = ni_tooltip info,
      b_leaves = [], b_root = None, b_segments = None\<rparr>"

definition push_leaf :: "'l mleaf \<Rightarrow> 'l bucket \<Rightarrow> 'l bucket" where
  "push_leaf leaf bucket = bucket\<lparr>b_leaves := b_leaves bucket @ [leaf]\<rparr>"

lemma push_leaf_step:
  "plain_bucket b \<Longrightarrow> plain_bucket (push_leaf m b) \<and> b_id (push_leaf m b) = b_id b
     \<and> mset (bucket_leaves (push_leaf m b)) = add_mset m (mset (bucket_leaves b))"
  by (auto simp: push_leaf_def plain_bucket_def bucket_leaves_def)

lemma put_plain:
  fixes gs :: "(string \<times> 'l bucket) list"
  assumes gs: "groups_ok gs" and ty: "get_endpoint_type e \<noteq> ''http''" "CHR '':'' \<notin> set (get_endpoint_type e)"
  shows "groups_ok (put_bucket gs (non_http_bucket (build_non_http_group_info ua e)) (push_leaf m))
    \<and> mset (group_leaves (put_bucket gs (non_http_bucket (build_non_http_group_info ua e)) (push_leaf m)))
        = add_mset m (mset (group_leaves gs))"
proof (rule put_bucket_step [OF gs])
  let ?nb = "non_http_bucket (build_non_http_group_info ua e) :: 'l bucket"
  have id: "\<not> starts_with ''http:'' (b_id ?nb)"
    using non_http_key [OF ty, of ua] by (simp add: non_http_bucket_def)
  then show "bucket_kind_ok ?nb" by (simp add: bucket_kind_ok_def) (simp add: non_http_bucket_def plain_bucket_def)
  show "bucket_leaves ?nb = []" by (simp add: non_http_bucket_def bucket_leaves_def)
  fix b :: "'l bucket"
  assume b: "bucket_kind_ok b" "b_id b = b_id ?nb"
  with id have "plain_bucket b" by (simp add: bucket_kind_ok_def)
  note step = push_leaf_step [OF this, of m]
  with b id have "bucket_kind_ok (push_leaf m b)" by (simp add: bucket_kind_ok_def)
  with step show "b_id (push_leaf m b) = b_id b \<and> bucket_kind_ok (push_leaf m b)
      \<and> mset (bucket_leaves (push_leaf m b)) = add_mset m (mset (bucket_leaves b))" by blast
qed

locale tree_view = leaf_view +
  fixes single :: "'a \<Rightarrow> 'a bucket \<Rightarrow> 'a"
  assumes number_single: "number (single l b) = number l"
begin

lemma bucket_node_numbers:
  "bucket_ok b \<Longrightarrow> mset (map number (tree_leaves (bucket_node lc to_leaf to_rel single b)))
     = mset (map (\<lambda>m. number (fst m)) (bucket_leaves b))"
  using bucket_numbers [of b lc]
  by (auto simp: bucket_node_def Let_def number_single split: list.split tree_node.split)

text \<open>The tree of well-formed groups shows exactly the leaves the groups hold.\<close>

lemma forest_numbers:
  assumes "groups_ok groups"
  shows "mset (map number (forest_leaves (bucket_forest lc to_leaf to_rel single groups)))
    = mset (map (\<lambda>m. number (fst m)) (group_leaves groups))"
proof -
  let ?bs = "js_sort (\<lambda>a b. lc (b_label a) (b_label b)) (map snd groups)"
  have ok: "bucket_ok b" if "b \<in> set (map snd groups)" for b
    using that assms by (auto simp: groups_ok_def bucket_kind_ok_def bucket_ok_def split: if_splits)
  have "mset (map number (forest_leaves (map (bucket_node lc to_leaf to_rel single) bs)))
      = mset (map (\<lambda>m. number (fst m)) (concat (map bucket_leaves bs)))" if "set bs \<subseteq> set (map snd groups)" for bs
    using that
  proof (induction bs)
    case (Cons b bs)
    then show ?case using bucket_node_numbers [OF ok, of b lc] by simp
  qed simp
  then have "mset (map number (forest_leaves (bucket_forest lc to_leaf to_rel single groups)))
      = mset (map (\<lambda>m. number (fst m)) (concat (map bucket_leaves ?bs)))"
    by (simp only: bucket_forest_def set_js_sort subset_refl)
  also have "\<dots> = image_mset (\<lambda>m. number (fst m)) (mset (concat (map bucket_leaves (map snd groups))))"
    using mset_concat_map_perm [of ?bs "map snd groups" bucket_leaves] by (simp only: mset_js_sort mset_map)
  finally show ?thesis by (simp add: group_leaves_def o_def case_prod_unfold)
qed

end

end
