(* ===== verification/PublisherTree.thy ===== *)
theory PublisherTree
  imports Grouping
begin

text \<open>
  The publishers' sidebar tree, \<open>publisher-grouping.ts\<close>. A publisher is the configuration
  object; \<open>d\<close> is the state of the kind registry's derived collections.
\<close>

record pub_leaf =
  pl_id :: string
  pl_label :: string
  pl_publisher :: obj
  pl_index :: nat
  pl_type :: string
  pl_tooltip :: string

definition http_method_sort_order :: "string list" where
  "http_method_sort_order = [''GET'', ''POST'', ''PUT'', ''PATCH'', ''DELETE'']"

definition pub_fallback_leaf_id :: "obj \<Rightarrow> nat \<Rightarrow> string" where
  "pub_fallback_leaf_id publisher index =
     to_str (js_or (js_or (oget publisher ''id'') (oget publisher ''name'')) (JNum (int index)))"

definition get_publisher_menu_label :: "url_api \<Rightarrow> derived \<Rightarrow> obj \<Rightarrow> string \<Rightarrow> string" where
  "get_publisher_menu_label ua d publisher fallback =
     (let name = js_trim (str_or (oget publisher ''name'') [])
      in if name \<noteq> [] then name
         else js_trim (if fallback \<noteq> [] then fallback
           else get_entity_display_label (ua_parse ua) d [] (endpoint_of publisher)
                  (get_endpoint_type (endpoint_of publisher))))"

definition get_http_method :: "obj \<Rightarrow> string" where
  "get_http_method publisher =
     to_upper (str_or (if is_object (http_config publisher) then jget (http_config publisher) ''method'' else Undef) ''POST'')"

fun index_of :: "'a \<Rightarrow> 'a list \<Rightarrow> nat option" where
  "index_of x [] = None"
| "index_of x (y # ys) = (if x = y then Some 0 else map_option Suc (index_of x ys))"

definition build_leaf_sort_key :: "obj \<Rightarrow> string \<Rightarrow> string \<Rightarrow> group_sort_key" where
  "build_leaf_sort_key publisher endpoint_type target_summary =
     (let manual = (case oget publisher ''sort_order'' of JNum n \<Rightarrow> n | _ \<Rightarrow> max_safe_integer);
          method_index = index_of (get_http_method publisher) http_method_sort_order;
          method = (if endpoint_type = ''http''
             then int (case method_index of None \<Rightarrow> length http_method_sort_order | Some i \<Rightarrow> i)
             else max_safe_integer - 1)
      in \<lparr>gk_manual = Some manual, gk_method = Some method, gk_target = to_lower target_summary,
          gk_label = to_lower (str_or (oget publisher ''name'') [])\<rparr>)"

definition pub_http_leaf :: "url_api \<Rightarrow> derived \<Rightarrow> obj \<Rightarrow> nat \<Rightarrow> string \<Rightarrow> string \<Rightarrow> pub_leaf mleaf" where
  "pub_http_leaf ua d publisher index raw_url path =
     (let publisher_name = js_trim (str_or (oget publisher ''name'') []);
          target = full_http_target ua raw_url path
      in (\<lparr>pl_id = pub_fallback_leaf_id publisher index,
           pl_label = get_publisher_menu_label ua d publisher (if target \<noteq> [] then target else ''/''),
           pl_publisher = publisher, pl_index = index, pl_type = ''HTTP'', pl_tooltip = target\<rparr>,
          build_leaf_sort_key publisher ''http'' (path @ ''|'' @ publisher_name)))"

definition pub_relative_http_leaf :: "url_api \<Rightarrow> derived \<Rightarrow> pub_leaf mleaf \<Rightarrow> string list \<Rightarrow> pub_leaf" where
  "pub_relative_http_leaf ua d leaf segments =
     (fst leaf)\<lparr>pl_label := get_publisher_menu_label ua d (pl_publisher (fst leaf))
        (get_http_method (pl_publisher (fst leaf)) @ '' '' @ format_http_segments segments)\<rparr>"

definition pub_leaf_node :: "pub_leaf mleaf \<Rightarrow> pub_leaf" where
  "pub_leaf_node leaf = fst leaf"

definition collapse_single_leaf :: "pub_leaf \<Rightarrow> pub_leaf bucket \<Rightarrow> pub_leaf" where
  "collapse_single_leaf leaf bucket =
     (let name = js_trim (str_or (oget (pl_publisher leaf) ''name'') [])
      in leaf\<lparr>pl_label := (if name \<noteq> [] then name
                 else if pl_tooltip leaf \<noteq> [] then pl_tooltip leaf else b_label bucket),
              pl_tooltip := (if b_tooltip bucket \<noteq> [] then b_tooltip bucket else pl_tooltip leaf)\<rparr>)"

definition add_http_publisher_to_bucket ::
    "url_api \<Rightarrow> derived \<Rightarrow> obj \<Rightarrow> nat \<Rightarrow> pub_leaf bucket \<Rightarrow> pub_leaf bucket" where
  "add_http_publisher_to_bucket ua d publisher index bucket =
     (let raw_url = member_str (http_config publisher) ''url'';
          raw_path = member_str (http_config publisher) ''path'';
          path = parse_http_path ua raw_url raw_path
      in add_http_leaf_to_bucket ua raw_url raw_path (pub_http_leaf ua d publisher index raw_url path) bucket)"

definition pub_other_leaf :: "url_api \<Rightarrow> derived \<Rightarrow> obj \<Rightarrow> nat \<Rightarrow> non_http_info \<Rightarrow> pub_leaf mleaf" where
  "pub_other_leaf ua d publisher index info =
     (\<lparr>pl_id = pub_fallback_leaf_id publisher index,
       pl_label = get_publisher_menu_label ua d publisher
         (if ni_leaf_tooltip info \<noteq> [] then ni_leaf_tooltip info else ni_sort_target info),
       pl_publisher = publisher, pl_index = index, pl_type = ni_type info, pl_tooltip = ni_leaf_tooltip info\<rparr>,
      build_leaf_sort_key publisher (get_endpoint_type (endpoint_of publisher))
        (ni_sort_target info @ ''|'' @ to_str (oget publisher ''name'')))"

definition add_publisher ::
    "url_api \<Rightarrow> derived \<Rightarrow> (string \<times> pub_leaf bucket) list \<Rightarrow> nat \<times> obj \<Rightarrow> (string \<times> pub_leaf bucket) list" where
  "add_publisher ua d groups entry =
     (let index = fst entry; publisher = snd entry
      in if get_endpoint_type (endpoint_of publisher) = ''http''
         then put_bucket groups (create_http_bucket ua (member_str (http_config publisher) ''url''))
                (add_http_publisher_to_bucket ua d publisher index)
         else (let info = build_non_http_group_info ua (endpoint_of publisher)
               in put_bucket groups (non_http_bucket info)
                    (push_leaf (pub_other_leaf ua d publisher index info))))"

definition build_publisher_tree ::
    "url_api \<Rightarrow> derived \<Rightarrow> (string \<Rightarrow> string \<Rightarrow> int) \<Rightarrow> obj list \<Rightarrow> pub_leaf tree_node list" where
  "build_publisher_tree ua d lc publishers =
     bucket_forest lc pub_leaf_node (pub_relative_http_leaf ua d) collapse_single_leaf
       (foldl (add_publisher ua d) [] (zip [0..<length publishers] publishers))"

section \<open>Facts\<close>

interpretation pub_view: tree_view pub_leaf_node "pub_relative_http_leaf ua d" pl_index collapse_single_leaf
  by unfold_locales
    (simp_all add: pub_leaf_node_def pub_relative_http_leaf_def collapse_single_leaf_def Let_def)

lemma add_publisher_step:
  assumes "groups_ok gs" "CHR '':'' \<notin> set (get_endpoint_type (endpoint_of p))"
  shows "groups_ok (add_publisher ua d gs (i, p))
    \<and> mset (map (\<lambda>m. pl_index (fst m)) (group_leaves (add_publisher ua d gs (i, p))))
        = add_mset i (mset (map (\<lambda>m. pl_index (fst m)) (group_leaves gs)))"
proof (cases "get_endpoint_type (endpoint_of p) = ''http''")
  case True
  let ?u = "member_str (http_config p) ''url''" and ?p = "member_str (http_config p) ''path''"
  let ?m = "pub_http_leaf ua d p i ?u (parse_http_path ua ?u ?p)"
  have "groups_ok (add_publisher ua d gs (i, p)) \<and> mset (group_leaves (add_publisher ua d gs (i, p))) = add_mset ?m (mset (group_leaves gs))"
    unfolding add_publisher_def Let_def fst_conv snd_conv if_P [OF True]
    by (rule put_bucket_step [OF assms(1)])
      (simp_all add: add_http_publisher_to_bucket_def Let_def add_http_leaf_step http_id)
  then show ?thesis by (simp add: pub_http_leaf_def Let_def)
next
  case False
  from put_plain [OF assms(1) False assms(2)] False show ?thesis
    by (simp add: add_publisher_def Let_def pub_other_leaf_def)
qed

lemma add_publishers_step:
  "groups_ok gs \<Longrightarrow> (\<forall>(i, p) \<in> set es. CHR '':'' \<notin> set (get_endpoint_type (endpoint_of p))) \<Longrightarrow>
   groups_ok (foldl (add_publisher ua d) gs es)
   \<and> mset (map (\<lambda>m. pl_index (fst m)) (group_leaves (foldl (add_publisher ua d) gs es)))
       = mset (map fst es) + mset (map (\<lambda>m. pl_index (fst m)) (group_leaves gs))"
proof (induction es arbitrary: gs)
  case Nil
  then show ?case by simp
next
  case (Cons e es)
  obtain i p where e: "e = (i, p)" by force
  from add_publisher_step [of gs p ua d i] Cons e show ?case by simp
qed

section \<open>Properties\<close>

text \<open>
  C36: every publisher appears in the sidebar tree exactly once, whatever its endpoint: no leaf
  is lost when paths are merged, chains collapsed or single-leaf groups flattened, and none is
  shown twice. The hypothesis is that no endpoint kind has a colon in its name: such a kind can
  collide with the bucket of an HTTP address.
\<close>

theorem publisher_tree_complete:
  assumes "\<forall>p \<in> set publishers. CHR '':'' \<notin> set (get_endpoint_type (endpoint_of p))"
  shows "mset (map pl_index (forest_leaves (build_publisher_tree ua d lc publishers))) = mset [0..<length publishers]"
proof -
  let ?es = "zip [0..<length publishers] publishers"
  have "\<forall>(i, p) \<in> set ?es. CHR '':'' \<notin> set (get_endpoint_type (endpoint_of p))"
    using assms by (auto dest: set_zip_rightD)
  from add_publishers_step [OF groups_ok_Nil this, of ua d] show ?thesis
    by (simp add: build_publisher_tree_def pub_view.forest_numbers del: mset_map mset_upt)
qed

theorem publisher_tree_complete_witness:
  "mset (map pl_index (forest_leaves (build_publisher_tree
      \<lparr>ua_parse = \<lambda>u. None, ua_plain = \<lambda>u. None, ua_root = \<lambda>u. None\<rparr> (rebuild_derived (\<lambda>a b. 0) []) (\<lambda>a b. 0)
      [[(''endpoint'', JObj [(''http'', JObj [(''url'', JStr ''h/a/b'')])])],
       [(''endpoint'', JObj [(''http'', JObj [(''url'', JStr ''h/a/c'')])])],
       [(''endpoint'', JObj [(''kafka'', JObj [(''topic'', JStr ''t'')])])]]))) = mset [0, 1, 2]"
proof -
  have "\<forall>p \<in> set [[(''endpoint'', JObj [(''http'', JObj [(''url'', JStr ''h/a/b'')])])],
       [(''endpoint'', JObj [(''http'', JObj [(''url'', JStr ''h/a/c'')])])],
       [(''endpoint'', JObj [(''kafka'', JObj [(''topic'', JStr ''t'')])])]].
      CHR '':'' \<notin> set (get_endpoint_type (endpoint_of p))"
    by (simp add: endpoint_of_def get_endpoint_type_def own_keys_def own_entries_def ohas_def is_index_def is_digit_def)
  from publisher_tree_complete [OF this] show ?thesis by (simp add: upt_rec)
qed

end
