(* ===== verification/ConsumerTree.thy ===== *)
theory ConsumerTree
  imports Grouping
begin

text \<open>
  The consumers' sidebar tree, \<open>consumer-grouping.ts\<close>. It is built from the configured consumers
  and the items the panel shows for them; a consumer without an item is left out.
\<close>

record consumer_item =
  ci_name :: string
  ci_display :: string
  ci_proto :: string
  ci_status :: string
  ci_count :: nat
  ci_throughput :: string
  ci_index :: nat
  ci_id :: string

record con_leaf =
  cl_id :: string
  cl_label :: string
  cl_index :: nat
  cl_type :: string
  cl_status :: string
  cl_count :: nat
  cl_throughput :: string
  cl_tooltip :: string

definition con_fallback_leaf_id :: "obj \<Rightarrow> consumer_item \<Rightarrow> nat \<Rightarrow> string" where
  "con_fallback_leaf_id consumer item index =
     to_str (js_or (js_or (js_or (JStr (ci_id item)) (oget consumer ''id'')) (oget consumer ''name'')) (JNum (int index)))"

definition get_consumer_menu_label :: "url_api \<Rightarrow> derived \<Rightarrow> obj \<Rightarrow> consumer_item \<Rightarrow> string \<Rightarrow> string" where
  "get_consumer_menu_label ua d consumer item fallback =
     (let label = js_trim (if ci_display item \<noteq> [] then ci_display item else ci_name item)
      in if label \<noteq> [] then label
         else js_trim (if fallback \<noteq> [] then fallback
           else get_entity_display_label (ua_parse ua) d [] (endpoint_of consumer)
                  (get_endpoint_type (endpoint_of consumer))))"

definition create_leaf ::
    "url_api \<Rightarrow> derived \<Rightarrow> obj \<Rightarrow> consumer_item \<Rightarrow> string \<Rightarrow> string \<Rightarrow> string \<Rightarrow> con_leaf mleaf" where
  "create_leaf ua d consumer item endpoint_type target_summary tooltip =
     (let label = get_consumer_menu_label ua d consumer item target_summary
      in (\<lparr>cl_id = con_fallback_leaf_id consumer item (ci_index item), cl_label = label, cl_index = ci_index item,
           cl_type = endpoint_type, cl_status = ci_status item, cl_count = ci_count item,
           cl_throughput = ci_throughput item, cl_tooltip = tooltip\<rparr>,
          \<lparr>gk_manual = None, gk_method = None, gk_target = to_lower target_summary, gk_label = to_lower label\<rparr>))"

definition con_http_leaf :: "url_api \<Rightarrow> derived \<Rightarrow> obj \<Rightarrow> consumer_item \<Rightarrow> string \<Rightarrow> string \<Rightarrow> con_leaf mleaf" where
  "con_http_leaf ua d consumer item raw_url path =
     (let target = full_http_target ua raw_url path
      in create_leaf ua d consumer item ''HTTP'' (if target \<noteq> [] then target else ''/'') target)"

definition con_relative_http_leaf :: "con_leaf mleaf \<Rightarrow> string list \<Rightarrow> con_leaf" where
  "con_relative_http_leaf leaf segments =
     (fst leaf)\<lparr>cl_label := (if cl_label (fst leaf) \<noteq> [] then cl_label (fst leaf) else format_http_segments segments)\<rparr>"

definition con_leaf_node :: "con_leaf mleaf \<Rightarrow> con_leaf" where
  "con_leaf_node leaf = fst leaf"

definition con_single_leaf :: "con_leaf \<Rightarrow> con_leaf bucket \<Rightarrow> con_leaf" where
  "con_single_leaf leaf bucket =
     leaf\<lparr>cl_tooltip := (if b_tooltip bucket \<noteq> [] then b_tooltip bucket else cl_tooltip leaf)\<rparr>"

definition add_http_consumer_to_bucket ::
    "url_api \<Rightarrow> derived \<Rightarrow> obj \<Rightarrow> consumer_item \<Rightarrow> con_leaf bucket \<Rightarrow> con_leaf bucket" where
  "add_http_consumer_to_bucket ua d consumer item bucket =
     (let raw_url = member_str (http_config consumer) ''url'';
          raw_path = member_str (http_config consumer) ''path'';
          path = parse_http_path ua raw_url raw_path
      in add_http_leaf_to_bucket ua raw_url raw_path (con_http_leaf ua d consumer item raw_url path) bucket)"

text \<open>\<open>new Map(items.map((item) => [item.originalIndex, item]))\<close>: the last item of an index wins.\<close>

definition item_by_index :: "consumer_item list \<Rightarrow> nat \<Rightarrow> consumer_item option" where
  "item_by_index items i = map_of (map (\<lambda>item. (ci_index item, item)) (rev items)) i"

definition add_consumer ::
    "url_api \<Rightarrow> derived \<Rightarrow> consumer_item list \<Rightarrow> (string \<times> con_leaf bucket) list \<Rightarrow> nat \<times> obj
      \<Rightarrow> (string \<times> con_leaf bucket) list" where
  "add_consumer ua d items groups entry =
     (let index = fst entry; consumer = snd entry
      in case item_by_index items index of
           None \<Rightarrow> groups
         | Some item \<Rightarrow>
             if get_endpoint_type (endpoint_of consumer) = ''http''
             then put_bucket groups (create_http_bucket ua (member_str (http_config consumer) ''url''))
                    (add_http_consumer_to_bucket ua d consumer item)
             else (let info = build_non_http_group_info ua (endpoint_of consumer)
                   in put_bucket groups (non_http_bucket info)
                        (push_leaf (create_leaf ua d consumer item (ni_type info) (ni_sort_target info) (ni_leaf_tooltip info)))))"

definition build_consumer_tree ::
    "url_api \<Rightarrow> derived \<Rightarrow> (string \<Rightarrow> string \<Rightarrow> int) \<Rightarrow> obj list \<Rightarrow> consumer_item list \<Rightarrow> con_leaf tree_node list" where
  "build_consumer_tree ua d lc consumers items =
     bucket_forest lc con_leaf_node con_relative_http_leaf con_single_leaf
       (foldl (add_consumer ua d items) [] (zip [0..<length consumers] consumers))"

section \<open>Facts\<close>

interpretation con_view: tree_view con_leaf_node con_relative_http_leaf cl_index con_single_leaf
  by unfold_locales (simp_all add: con_leaf_node_def con_relative_http_leaf_def con_single_leaf_def)

lemma item_by_index_Some: "item_by_index items i = Some item \<Longrightarrow> ci_index item = i \<and> item \<in> set items"
  by (auto simp: item_by_index_def dest!: map_of_SomeD)

lemma item_by_index_None: "item_by_index items i = None \<longleftrightarrow> i \<notin> ci_index ` set items"
  by (simp add: item_by_index_def map_of_eq_None_iff image_image)

lemma add_consumer_step:
  assumes "groups_ok gs" "CHR '':'' \<notin> set (get_endpoint_type (endpoint_of c))"
  shows "groups_ok (add_consumer ua d items gs (i, c))
    \<and> mset (map (\<lambda>m. cl_index (fst m)) (group_leaves (add_consumer ua d items gs (i, c))))
        = (if i \<in> ci_index ` set items then {#i#} else {#}) + mset (map (\<lambda>m. cl_index (fst m)) (group_leaves gs))"
proof (cases "item_by_index items i")
  case None
  then have "i \<notin> ci_index ` set items" by (simp add: item_by_index_None)
  with None show ?thesis using assms(1) by (simp add: add_consumer_def)
next
  case (Some item)
  note item = item_by_index_Some [OF Some]
  show ?thesis
  proof (cases "get_endpoint_type (endpoint_of c) = ''http''")
    case True
    let ?u = "member_str (http_config c) ''url''" and ?p = "member_str (http_config c) ''path''"
    let ?m = "con_http_leaf ua d c item ?u (parse_http_path ua ?u ?p)"
    have "groups_ok (add_consumer ua d items gs (i, c))
        \<and> mset (group_leaves (add_consumer ua d items gs (i, c))) = add_mset ?m (mset (group_leaves gs))"
      unfolding add_consumer_def Let_def fst_conv snd_conv Some option.case if_P [OF True]
      by (rule put_bucket_step [OF assms(1)])
        (simp_all add: add_http_consumer_to_bucket_def Let_def add_http_leaf_step http_id)
    then show ?thesis using item by (auto simp: con_http_leaf_def create_leaf_def Let_def)
  next
    case False
    from put_plain [OF assms(1) False assms(2)] False Some item show ?thesis
      by (auto simp: add_consumer_def Let_def create_leaf_def)
  qed
qed

lemma add_consumers_step:
  "groups_ok gs \<Longrightarrow> (\<forall>(i, c) \<in> set es. CHR '':'' \<notin> set (get_endpoint_type (endpoint_of c))) \<Longrightarrow>
   groups_ok (foldl (add_consumer ua d items) gs es)
   \<and> mset (map (\<lambda>m. cl_index (fst m)) (group_leaves (foldl (add_consumer ua d items) gs es)))
       = mset (filter (\<lambda>i. i \<in> ci_index ` set items) (map fst es)) + mset (map (\<lambda>m. cl_index (fst m)) (group_leaves gs))"
proof (induction es arbitrary: gs)
  case Nil
  then show ?case by simp
next
  case (Cons e es)
  obtain i c where e: "e = (i, c)" by force
  from add_consumer_step [of gs c ua d items i] Cons e show ?case by simp
qed

section \<open>Properties\<close>

text \<open>
  The sidebar tree shows every consumer that has an item exactly once, and no other.
\<close>

theorem consumer_tree_complete:
  assumes "\<forall>c \<in> set consumers. CHR '':'' \<notin> set (get_endpoint_type (endpoint_of c))"
  shows "mset (map cl_index (forest_leaves (build_consumer_tree ua d lc consumers items)))
    = mset (filter (\<lambda>i. i \<in> ci_index ` set items) [0..<length consumers])"
proof -
  let ?es = "zip [0..<length consumers] consumers"
  have "\<forall>(i, c) \<in> set ?es. CHR '':'' \<notin> set (get_endpoint_type (endpoint_of c))"
    using assms by (auto dest: set_zip_rightD)
  from add_consumers_step [OF groups_ok_Nil this, of ua d items] show ?thesis
    by (simp add: build_consumer_tree_def con_view.forest_numbers del: mset_map mset_upt mset_filter)
qed

theorem consumer_tree_complete_witness:
  "mset (map cl_index (forest_leaves (build_consumer_tree
      \<lparr>ua_parse = \<lambda>u. None, ua_plain = \<lambda>u. None, ua_root = \<lambda>u. None\<rparr> (rebuild_derived (\<lambda>a b. 0) []) (\<lambda>a b. 0)
      [[(''endpoint'', JObj [(''http'', JObj [(''url'', JStr ''h/a'')])])],
       [(''endpoint'', JObj [(''kafka'', JObj [(''topic'', JStr ''t'')])])]]
      [\<lparr>ci_name = ''c'', ci_display = [], ci_proto = ''KAFKA'', ci_status = [], ci_count = 0, ci_throughput = [],
        ci_index = 1, ci_id = []\<rparr>]))) = {#1#}"
proof -
  have "\<forall>c \<in> set [[(''endpoint'', JObj [(''http'', JObj [(''url'', JStr ''h/a'')])])],
       [(''endpoint'', JObj [(''kafka'', JObj [(''topic'', JStr ''t'')])])]].
      CHR '':'' \<notin> set (get_endpoint_type (endpoint_of c))"
    by (simp add: endpoint_of_def get_endpoint_type_def own_keys_def own_entries_def ohas_def is_index_def is_digit_def)
  from consumer_tree_complete [OF this] show ?thesis by (simp add: upt_rec)
qed

end
