(* ===== verification/Json.thy ===== *)
theory Json
  imports JsObject
begin

text \<open>
  \<open>JSON.stringify\<close>, with and without indentation, and \<open>JSON.parse\<close>, with the
  round trip the stored settings and the exported files depend on.
\<close>

definition hex_lower :: "nat \<Rightarrow> char" where
  "hex_lower n = (if n < 10 then char_of (48 + n) else char_of (87 + n))"

definition escape_char :: "char \<Rightarrow> string" where
  "escape_char c = (let n = (of_char c :: nat) in
     if n = 34 then [CHR 0x5C, CHR 0x22]
     else if n = 92 then [CHR 0x5C, CHR 0x5C]
     else if n = 8 then [CHR 0x5C, CHR ''b'']
     else if n = 12 then [CHR 0x5C, CHR ''f'']
     else if n = 10 then [CHR 0x5C, CHR ''n'']
     else if n = 13 then [CHR 0x5C, CHR ''r'']
     else if n = 9 then [CHR 0x5C, CHR ''t'']
     else if n < 32 then [CHR 0x5C, CHR ''u'', CHR ''0'', CHR ''0'', hex_lower (n div 16), hex_lower (n mod 16)]
     else [c])"

definition quote_string :: "string \<Rightarrow> string" where
  "quote_string s = CHR 0x22 # concat (map escape_char s) @ [CHR 0x22]"

text \<open>An absent element is written \<open>null\<close>, an absent member is left out.\<close>

fun stringify :: "jval \<Rightarrow> string" where
  "stringify Undef = ''null''"
| "stringify Null = ''null''"
| "stringify (JBool b) = (if b then ''true'' else ''false'')"
| "stringify (JNum n) = int_str n"
| "stringify (JStr s) = quote_string s"
| "stringify (JArr xs) = ''['' @ join '','' (map stringify xs) @ '']''"
| "stringify (JObj es) = ''{'' @ join '','' (map (\<lambda>(k, s). quote_string k @ '':'' @ s)
     (own_entries (map (\<lambda>(k, v). (k, stringify v)) (filter (\<lambda>e. snd e \<noteq> Undef) es)))) @ ''}''"

text \<open>\<open>JSON.stringify(v, null, 2)\<close>; \<open>d\<close> is the depth reached.\<close>

definition newline :: "nat \<Rightarrow> string" where
  "newline d = CHR 0x0A # replicate (2 * d) CHR '' ''"

definition wrap_lines :: "nat \<Rightarrow> string \<Rightarrow> string \<Rightarrow> string list \<Rightarrow> string" where
  "wrap_lines d open close items =
     (if items = [] then open @ close
      else open @ newline (d + 1) @ join ('','' @ newline (d + 1)) items @ newline d @ close)"

fun pretty :: "nat \<Rightarrow> jval \<Rightarrow> string" where
  "pretty d (JArr xs) = wrap_lines d ''['' '']'' (map (pretty (d + 1)) xs)"
| "pretty d (JObj es) = wrap_lines d ''{'' ''}'' (map (\<lambda>(k, s). quote_string k @ '': '' @ s)
     (own_entries (map (\<lambda>(k, v). (k, pretty (d + 1) v)) (filter (\<lambda>e. snd e \<noteq> Undef) es))))"
| "pretty d v = stringify v"

section \<open>\<open>JSON.parse\<close>\<close>

text \<open>
  A text that is no JSON document gives \<open>None\<close> (the language throws). Numbers with a fraction
  or an exponent and escapes beyond the first 256 code units are outside the values modelled.
  \<open>fuel\<close> bounds the nesting; one more than the length of the text is always enough for what
  \<open>stringify\<close> writes.
\<close>

definition json_space :: "char \<Rightarrow> bool" where
  "json_space c \<longleftrightarrow> (of_char c :: nat) \<in> {32, 9, 10, 13}"

definition skip_space :: "string \<Rightarrow> string" where
  "skip_space s = dropWhile json_space s"

definition hex_of :: "char \<Rightarrow> nat option" where
  "hex_of c = (let n = (of_char c :: nat) in
     if 48 \<le> n \<and> n \<le> 57 then Some (n - 48)
     else if 97 \<le> n \<and> n \<le> 102 then Some (n - 87)
     else if 65 \<le> n \<and> n \<le> 70 then Some (n - 55)
     else None)"

definition unescape :: "char \<Rightarrow> char option" where
  "unescape c = (let n = (of_char c :: nat) in
     if n = 34 \<or> n = 92 \<or> n = 47 then Some c
     else if c = CHR ''b'' then Some (CHR 0x08)
     else if c = CHR ''f'' then Some (CHR 0x0C)
     else if c = CHR ''n'' then Some (CHR 0x0A)
     else if c = CHR ''r'' then Some (CHR 0x0D)
     else if c = CHR ''t'' then Some (CHR 0x09)
     else None)"

definition prepend :: "char \<Rightarrow> (string \<times> string) option \<Rightarrow> (string \<times> string) option" where
  "prepend c r = map_option (\<lambda>(s, rest). (c # s, rest)) r"

text \<open>The characters up to the closing quote, and what follows it.\<close>

fun parse_chars :: "string \<Rightarrow> (string \<times> string) option" where
  "parse_chars [] = None"
| "parse_chars (c # s) =
     (if c = CHR 0x22 then Some ([], s)
      else if c = CHR 0x5C then
        (case s of
           [] \<Rightarrow> None
         | e # t \<Rightarrow>
             (if e = CHR ''u'' then
                (case t of
                   a # b # x # y # u \<Rightarrow>
                     (if a = CHR ''0'' \<and> b = CHR ''0'' then
                        (case (hex_of x, hex_of y) of
                           (Some m, Some n) \<Rightarrow> prepend (char_of (16 * m + n)) (parse_chars u)
                         | _ \<Rightarrow> None)
                      else None)
                 | _ \<Rightarrow> None)
              else (case unescape e of Some d \<Rightarrow> prepend d (parse_chars t) | None \<Rightarrow> None)))
      else if (of_char c :: nat) < 32 then None
      else prepend c (parse_chars s))"

definition parse_number :: "string \<Rightarrow> (jval \<times> string) option" where
  "parse_number s =
     (let neg = (s \<noteq> [] \<and> hd s = CHR ''-''); t = (if neg then tl s else s);
          ds = takeWhile is_digit t; rest = dropWhile is_digit t
      in if ds = [] \<or> (hd ds = CHR ''0'' \<and> ds \<noteq> ''0'')
            \<or> (rest \<noteq> [] \<and> hd rest \<in> {CHR ''.'', CHR ''e'', CHR ''E''}) then None
         else Some (JNum (if neg then - int (str_nat ds) else int (str_nat ds)), rest))"

fun parse_value :: "nat \<Rightarrow> string \<Rightarrow> (jval \<times> string) option"
and parse_elems :: "nat \<Rightarrow> string \<Rightarrow> (jval list \<times> string) option"
and parse_members :: "nat \<Rightarrow> string \<Rightarrow> ((string \<times> jval) list \<times> string) option" where
  "parse_value 0 s = None"
| "parse_value (Suc fuel) s =
     (case skip_space s of
        [] \<Rightarrow> None
      | c # t \<Rightarrow>
          (if c = CHR 0x22 then map_option (\<lambda>(x, r). (JStr x, r)) (parse_chars t)
           else if c = CHR ''['' then
             (case skip_space t of
                [] \<Rightarrow> None
              | d # r \<Rightarrow> if d = CHR '']'' then Some (JArr [], r)
                         else map_option (\<lambda>(xs, r). (JArr xs, r)) (parse_elems fuel t))
           else if c = CHR ''{'' then
             (case skip_space t of
                [] \<Rightarrow> None
              | d # r \<Rightarrow> if d = CHR ''}'' then Some (JObj [], r)
                         else map_option (\<lambda>(es, r). (JObj (own_entries (from_entries es)), r)) (parse_members fuel t))
           else if starts_with ''null'' (c # t) then Some (Null, drop 4 (c # t))
           else if starts_with ''true'' (c # t) then Some (JBool True, drop 4 (c # t))
           else if starts_with ''false'' (c # t) then Some (JBool False, drop 5 (c # t))
           else parse_number (c # t)))"
| "parse_elems 0 s = None"
| "parse_elems (Suc fuel) s =
     (case parse_value fuel s of
        None \<Rightarrow> None
      | Some (v, r) \<Rightarrow>
          (case skip_space r of
             [] \<Rightarrow> None
           | d # r' \<Rightarrow>
               (if d = CHR '']'' then Some ([v], r')
                else if d = CHR '','' then map_option (\<lambda>(vs, q). (v # vs, q)) (parse_elems fuel r')
                else None)))"
| "parse_members 0 s = None"
| "parse_members (Suc fuel) s =
     (case skip_space s of
        [] \<Rightarrow> None
      | c # t \<Rightarrow>
          (if c \<noteq> CHR 0x22 then None
           else case parse_chars t of
             None \<Rightarrow> None
           | Some (k, r) \<Rightarrow>
               (case skip_space r of
                  [] \<Rightarrow> None
                | e # q \<Rightarrow>
                    (if e \<noteq> CHR '':'' then None
                     else case parse_value fuel q of
                       None \<Rightarrow> None
                     | Some (v, r') \<Rightarrow>
                         (case skip_space r' of
                            [] \<Rightarrow> None
                          | d # r'' \<Rightarrow>
                              (if d = CHR ''}'' then Some ([(k, v)], r'')
                               else if d = CHR '','' then map_option (\<lambda>(es, q). ((k, v) # es, q)) (parse_members fuel r'')
                               else None))))))"

definition parse_json :: "string \<Rightarrow> jval option" where
  "parse_json s =
     (case parse_value (Suc (length s)) s of
        Some (v, r) \<Rightarrow> if skip_space r = [] then Some v else None
      | None \<Rightarrow> None)"

section \<open>Reading back what was written\<close>

lemma char_nat_eq: "c = d \<longleftrightarrow> (of_char c :: nat) = of_char d"
  by simp

lemma hex_lower_inverse: "n < 16 \<Longrightarrow> hex_of (hex_lower n) = Some n"
  by (auto simp: hex_of_def hex_lower_def of_char_of Let_def)


lemma char_of_code: "(of_char c :: nat) = n \<Longrightarrow> c = char_of n"
  by (metis char_of_char)

lemma parse_chars_plain:
  "c \<noteq> CHR 0x22 \<Longrightarrow> c \<noteq> CHR 0x5C \<Longrightarrow> \<not> (of_char c :: nat) < 32 \<Longrightarrow> parse_chars (c # s) = prepend c (parse_chars s)"
  by simp

lemma parse_chars_escape:
  "parse_chars (escape_char c @ s) = prepend c (parse_chars s)"
proof -
  define n where "n = (of_char c :: nat)"
  have c: "c = char_of n" by (simp add: n_def)
  have n: "n < 256" by (simp add: n_def)
  show ?thesis
  proof (cases "c \<in> {CHR 0x22, CHR 0x5C, CHR 0x08, CHR 0x0C, CHR 0x0A, CHR 0x0D, CHR 0x09}")
    case True
    then show ?thesis by (auto simp: escape_char_def unescape_def)
  next
    case c': False
    then have False: "n \<notin> {34, 92, 8, 12, 10, 13, 9}"
      by (auto simp: n_def char_nat_eq)
    show ?thesis
    proof (cases "n < 32")
      case True
      then have h: "hex_of (hex_lower (n div 16)) = Some (n div 16)" "hex_of (hex_lower (n mod 16)) = Some (n mod 16)"
        by (auto intro!: hex_lower_inverse)
      from True False have e: "escape_char c = [CHR 0x5C, CHR ''u'', CHR ''0'', CHR ''0'', hex_lower (n div 16), hex_lower (n mod 16)]"
        by (simp add: escape_char_def n_def [symmetric] Let_def)
      show ?thesis unfolding e by (simp add: h c)
    next
      case ge: False
      with False have e: "escape_char c = [c]"
        by (simp add: escape_char_def n_def [symmetric] Let_def)
      have "c \<noteq> CHR 0x22" "c \<noteq> CHR 0x5C" using False by (auto simp: n_def)
      with ge show ?thesis unfolding e by (simp add: n_def)
    qed
  qed
qed

lemma parse_chars_escaped: "parse_chars (concat (map escape_char s) @ CHR 0x22 # r) = Some (s, r)"
  by (induction s) (simp_all add: parse_chars_escape prepend_def)

definition json_doc :: "jval \<Rightarrow> bool" where
  "json_doc v \<longleftrightarrow> v \<noteq> Undef \<and> wf_jval v \<and> clone_json v = v"

text \<open>What may follow a value: nothing that would continue a number.\<close>

definition ends_value :: "string \<Rightarrow> bool" where
  "ends_value r \<longleftrightarrow> (case r of [] \<Rightarrow> True | c # t \<Rightarrow> \<not> is_digit c \<and> c \<notin> {CHR ''.'', CHR ''e'', CHR ''E''})"

lemma ends_value_simps [simp]: "ends_value []" "ends_value (CHR '','' # r)" "ends_value (CHR '']'' # r)" "ends_value (CHR ''}'' # r)"
  by (simp_all add: ends_value_def is_digit_def)

lemma nat_str_zero: "hd (nat_str n) = CHR ''0'' \<Longrightarrow> n = 0"
proof (induction n rule: nat_str.induct)
  case (1 n)
  show ?case
  proof (cases "n < 10")
    case True
    have "of_char (hd (nat_str n)) = (of_char CHR ''0'' :: nat)" using "1.prems" by simp
    with True show ?thesis by (simp add: nat_str.simps [of n] of_char_digit)
  next
    case False
    with 1 show ?thesis by (simp add: nat_str.simps [of n])
  qed
qed

lemma take_digits: "ends_value r \<Longrightarrow> takeWhile is_digit (nat_str n @ r) = nat_str n \<and> dropWhile is_digit (nat_str n @ r) = r"
proof -
  have *: "\<forall>c \<in> set ds. is_digit c \<Longrightarrow> ends_value r \<Longrightarrow> takeWhile is_digit (ds @ r) = ds \<and> dropWhile is_digit (ds @ r) = r" for ds
    by (cases r) (auto simp: ends_value_def)
  show "ends_value r \<Longrightarrow> ?thesis" using * [of "nat_str n"] nat_str_digits by blast
qed

lemma parse_number_digits:
  assumes "takeWhile is_digit t = nat_str n" "dropWhile is_digit t = r" "ends_value r"
  shows "parse_number t = Some (JNum (int n), r) \<and> parse_number (CHR ''-'' # t) = Some (JNum (- int n), r)"
proof -
  have h: "hd (nat_str n) = CHR ''0'' \<Longrightarrow> nat_str n = ''0''"
    using nat_str_zero [of n] by (simp add: nat_str.simps char_of_def)
  have hd: "t \<noteq> [] \<and> hd t = CHR ''-'' \<longleftrightarrow> False"
  proof -
    have "\<not> is_digit CHR ''-''" by (simp add: is_digit_def)
    then show ?thesis using assms(1) nat_str_not_Nil [of n] by (cases t) (auto split: if_splits dest: sym)
  qed
  have rest: "r \<noteq> [] \<Longrightarrow> hd r \<noteq> CHR ''.'' \<and> hd r \<noteq> CHR ''e'' \<and> hd r \<noteq> CHR ''E''"
    using assms(3) by (cases r) (auto simp: ends_value_def)
  show ?thesis
    unfolding parse_number_def Let_def by (simp only: hd if_False assms list.sel) (use h rest in \<open>auto simp: assms\<close>)
qed

lemma parse_number_int: "ends_value r \<Longrightarrow> parse_number (int_str i @ r) = Some (JNum i, r)"
  using parse_number_digits [of "nat_str (nat \<bar>i\<bar>) @ r" "nat \<bar>i\<bar>" r] take_digits [of r "nat \<bar>i\<bar>"]
  by (cases "i < 0") (auto simp: int_str_def)

definition value_start :: "char \<Rightarrow> bool" where
  "value_start c \<longleftrightarrow> \<not> json_space c \<and> c \<noteq> CHR '']'' \<and> c \<noteq> CHR ''}''"

lemma int_str_start: "\<exists>c t. int_str i = c # t \<and> (is_digit c \<or> c = CHR ''-'')"
proof (cases "i < 0")
  case True
  then show ?thesis by (simp add: int_str_def)
next
  case False
  obtain c t where "nat_str (nat i) = c # t" by (cases "nat_str (nat i)") auto
  with False nat_str_digits [of c "nat i"] show ?thesis by (simp add: int_str_def)
qed

lemma parse_value_number:
  assumes "ends_value r"
  shows "parse_value (Suc f) (int_str i @ r) = Some (JNum i, r)"
proof -
  obtain c t where c: "int_str i @ r = c # t" "is_digit c \<or> c = CHR ''-''"
    using int_str_start [of i] by auto
  have "parse_value (Suc f) (c # t) = parse_number (c # t)"
  proof -
    have sp: "skip_space (c # t) = c # t" using c(2) by (auto simp: skip_space_def json_space_def is_digit_def)
    have "c \<noteq> CHR 0x22" "c \<noteq> CHR ''[''" "c \<noteq> CHR ''{''" "c \<noteq> CHR ''n''" "c \<noteq> CHR ''t''" "c \<noteq> CHR ''f''"
      using c(2) by (auto simp: is_digit_def)
    then show ?thesis by (simp add: sp)
  qed
  with parse_number_int [OF assms, of i] show ?thesis by (simp only: c(1))
qed

lemma stringify_start: "\<exists>c t. stringify v = c # t \<and> value_start c"
proof (cases v)
  case (JNum i)
  with int_str_start [of i] show ?thesis by (auto simp: value_start_def json_space_def is_digit_def)
qed (simp_all add: value_start_def json_space_def quote_string_def)

lemma skip_stringify: "skip_space (stringify v @ r) = stringify v @ r"
  using stringify_start [of v] by (auto simp: skip_space_def value_start_def)

text \<open>The members of a document, as \<open>stringify\<close> writes them.\<close>

abbreviation member_text :: "string \<times> jval \<Rightarrow> string" where
  "member_text e \<equiv> quote_string (fst e) @ '':'' @ stringify (snd e)"

lemma stringify_doc_obj:
  assumes "json_doc (JObj es)"
  shows "stringify (JObj es) = ''{'' @ join '','' (map member_text es) @ ''}''"
proof -
  from assms have o: "own_entries es = es" and u: "\<forall>e \<in> set es. snd e \<noteq> Undef"
    unfolding json_doc_def clone_fix_JObj by auto
  from u have f: "filter (\<lambda>e. snd e \<noteq> Undef) es = es" by (simp add: filter_id_conv)
  show ?thesis by (simp add: f own_entries_map_snd o) (simp add: case_prod_unfold o_def)
qed

lemma json_doc_members: "json_doc (JObj es) \<Longrightarrow> e \<in> set es \<Longrightarrow> json_doc (snd e)"
  unfolding json_doc_def clone_fix_JObj by auto

lemma json_doc_elems: "json_doc (JArr xs) \<Longrightarrow> x \<in> set xs \<Longrightarrow> json_doc x"
  unfolding json_doc_def clone_fix_JArr by auto

lemma parse_elems_write:
  assumes "xs \<noteq> []"
    and "\<And>x f r. x \<in> set xs \<Longrightarrow> length (stringify x) < f \<Longrightarrow> ends_value r
      \<Longrightarrow> parse_value f (stringify x @ r) = Some (x, r)"
    and "Suc (length (join '','' (map stringify xs))) < f"
  shows "parse_elems f (join '','' (map stringify xs) @ CHR '']'' # r) = Some (xs, r)"
  using assms
proof (induction xs arbitrary: f)
  case Nil
  then show ?case by simp
next
  case (Cons x xs)
  from Cons.prems(3) obtain g where f: "f = Suc g" by (cases f) auto
  show ?case
  proof (cases "xs = []")
    case True
    with Cons.prems(2) [of x g "CHR '']'' # r"] Cons.prems(3) f show ?thesis
      by (simp add: skip_space_def json_space_def)
  next
    case False
    let ?rest = "join '','' (map stringify xs) @ CHR '']'' # r"
    have j: "join '','' (map stringify (x # xs)) = stringify x @ '','' @ join '','' (map stringify xs)"
      using False by (simp add: join_Cons_ne)
    have l: "length (stringify x) < g" "Suc (length (join '','' (map stringify xs))) < g"
      using Cons.prems(3) unfolding j f by auto
    have 1: "parse_value g (stringify x @ CHR '','' # ?rest) = Some (x, CHR '','' # ?rest)"
      by (rule Cons.prems(2)) (use l in auto)
    have 2: "parse_elems g ?rest = Some (xs, r)"
      by (rule Cons.IH) (use False l Cons.prems(2) in auto)
    show ?thesis unfolding j f
      using 1 2 by (simp add: skip_space_def json_space_def)
  qed
qed

lemma parse_members_write:
  assumes "es \<noteq> []"
    and "\<And>e f r. e \<in> set es \<Longrightarrow> length (stringify (snd e)) < f \<Longrightarrow> ends_value r
      \<Longrightarrow> parse_value f (stringify (snd e) @ r) = Some (snd e, r)"
    and "Suc (length (join '','' (map member_text es))) < f"
  shows "parse_members f (join '','' (map member_text es) @ CHR ''}'' # r) = Some (es, r)"
  using assms
proof (induction es arbitrary: f)
  case Nil
  then show ?case by simp
next
  case (Cons e es)
  from Cons.prems(3) obtain g where f: "f = Suc g" by (cases f) auto
  have start: "skip_space (CHR 0x22 # t) = CHR 0x22 # t" "skip_space (CHR '':'' # t) = CHR '':'' # t" for t
    by (simp_all add: skip_space_def json_space_def)
  show ?case
  proof (cases "es = []")
    case True
    with Cons.prems(2) [of e g "CHR ''}'' # r"] Cons.prems(3) f show ?thesis
      by (simp add: quote_string_def start parse_chars_escaped) (simp add: skip_space_def json_space_def)
  next
    case False
    let ?rest = "join '','' (map member_text es) @ CHR ''}'' # r"
    have j: "join '','' (map member_text (e # es)) = member_text e @ '','' @ join '','' (map member_text es)"
      using False by (simp add: join_Cons_ne)
    have l: "length (stringify (snd e)) < g" "Suc (length (join '','' (map member_text es))) < g"
      using Cons.prems(3) unfolding j f by auto
    have 1: "parse_value g (stringify (snd e) @ CHR '','' # ?rest) = Some (snd e, CHR '','' # ?rest)"
      by (rule Cons.prems(2)) (use l in auto)
    have 2: "parse_members g ?rest = Some (es, r)"
      by (rule Cons.IH) (use False l Cons.prems(2) in auto)
    show ?thesis unfolding j f
      using 1 2 by (simp add: quote_string_def start parse_chars_escaped) (simp add: skip_space_def json_space_def)
  qed
qed

lemma parse_value_write:
  "json_doc v \<Longrightarrow> length (stringify v) < f \<Longrightarrow> ends_value r \<Longrightarrow> parse_value f (stringify v @ r) = Some (v, r)"
proof (induction v arbitrary: f r rule: clone_json.induct [case_names Arr Obj Undefined Nul Bool Num Str])
  case (Arr xs)
  obtain g where f: "f = Suc g" using Arr by (cases f) auto
  show ?case
  proof (cases "xs = []")
    case True
    then show ?thesis by (simp add: f skip_space_def json_space_def)
  next
    case False
    let ?t = "join '','' (map stringify xs) @ CHR '']'' # r"
    obtain c t where c: "?t = c # t" "value_start c"
      using stringify_start [of "hd xs"] False by (cases xs; cases "tl xs") (auto simp: join_Cons_ne)
    have "parse_elems g ?t = Some (xs, r)"
      by (rule parse_elems_write [OF False Arr.IH]) (use Arr json_doc_elems [OF Arr.prems(1)] f in \<open>auto simp: json_doc_def\<close>)
    with c show ?thesis
      by (simp add: f) (simp add: skip_space_def json_space_def value_start_def)
  qed
next
  case (Obj es)
  obtain g where f: "f = Suc g" using Obj by (cases f) auto
  show ?case
  proof (cases "es = []")
    case True
    then show ?thesis by (simp add: f skip_space_def json_space_def)
  next
    case False
    let ?t = "join '','' (map member_text es) @ CHR ''}'' # r"
    have s: "stringify (JObj es) @ r = CHR ''{'' # ?t"
      unfolding stringify_doc_obj [OF Obj.prems(1)] by simp
    have c: "\<exists>t. ?t = CHR 0x22 # t"
      using False by (cases es; cases "tl es") (auto simp: join_Cons_ne quote_string_def)
    have l: "Suc (length (join '','' (map member_text es))) < g"
      using Obj.prems(2) unfolding stringify_doc_obj [OF Obj.prems(1)] f by simp
    have "parse_members g ?t = Some (es, r)"
      by (rule parse_members_write [OF False _ l]) (use Obj json_doc_members [OF Obj.prems(1)] in force)
    moreover have "own_entries (from_entries es) = es"
      using Obj.prems(1) unfolding json_doc_def clone_fix_JObj by simp
    ultimately show ?thesis unfolding s f using c
      by (auto simp: skip_space_def json_space_def)
  qed
next
  case Undefined
  then show ?case by (simp add: json_doc_def)
next
  case Nul
  then show ?case by (cases f) (simp_all add: skip_space_def json_space_def)
next
  case (Bool b)
  then show ?case by (cases f; cases b) (simp_all add: skip_space_def json_space_def)
next
  case (Num i)
  then show ?case by (cases f) (simp_all add: parse_value_number del: parse_value.simps)
next
  case (Str s)
  then show ?case
    by (cases f) (simp_all add: skip_space_def json_space_def quote_string_def parse_chars_escaped)
qed

theorem parse_stringify: "json_doc v \<Longrightarrow> parse_json (stringify v) = Some v"
  using parse_value_write [of v "Suc (length (stringify v))" "[]"]
  by (simp add: parse_json_def skip_space_def)

lemma stringify_clone [simp]: "stringify (clone_json v) = stringify v"
proof (induction v rule: clone_json.induct)
  case (1 xs)
  have "map stringify (map (\<lambda>x. if x = Undef then Null else clone_json x) xs) = map stringify xs"
    using 1 by auto
  then show ?case by (simp del: map_map map_eq_conv)
next
  case (2 es)
  let ?c = "\<lambda>(k, v). (k, clone_json v)" and ?s = "\<lambda>(k, v). (k, stringify v)"
  let ?f = "filter (\<lambda>e. snd e \<noteq> Undef)"
  have 1: "map ?s (?f (map ?c es)) = map ?s (?f es)"
  proof -
    have "\<forall>e \<in> set es. stringify (clone_json (snd e)) = stringify (snd e)" using 2 by force
    then show ?thesis by (induction es) (auto simp: case_prod_unfold)
  qed
  have 2: "?f (own_entries (?f (map ?c es))) = own_entries (?f (map ?c es))"
    by (simp add: filter_own_entries)
  have 3: "own_entries (map ?s (own_entries (?f (map ?c es)))) = own_entries (map ?s (?f es))"
    unfolding 1 [symmetric] own_entries_map_snd own_entries_idem ..
  show ?case unfolding clone_json.simps stringify.simps 2 3 ..
qed auto

lemma json_doc_clone: "wf_jval v \<Longrightarrow> v \<noteq> Undef \<Longrightarrow> json_doc (clone_json v)"
  by (simp add: json_doc_def wf_clone_json)

lemma parse_stringify_clone: "wf_jval v \<Longrightarrow> v \<noteq> Undef \<Longrightarrow> parse_json (stringify v) = Some (clone_json v)"
  using parse_stringify [OF json_doc_clone [of v]] by simp
end
