(* ===== verification/StorageSecurity.thy ===== *)
theory StorageSecurity
  imports Json
begin

text \<open>
  Which protection the stored data has (\<open>storage-security.ts\<close>): the record the server
  reports, its normalisation from an untyped document, the fallback derived from the
  configuration's security mode, and the predicates the message store asks.
\<close>

section \<open>Data\<close>

datatype storage_target = Cli | Desktop

datatype key_source = No_key | Os_key_store | Ephemeral_process | Env_key

datatype security_reason = Key_store_unavailable | Key_store_write_failed | Cli_mode

record storage_security =
  target :: "storage_target option"
  encrypted :: bool
  persistent :: bool
  key_source :: key_source
  key_store_available :: "bool option"
  encrypted_config_available :: "bool option"
  persistent_messages_available :: "bool option"
  config_encrypted :: bool
  messages_encrypted :: bool
  messages_persistent :: bool
  reason :: "security_reason option"
  message_key_hex :: "string option"
  kid :: "string option"

definition empty_storage_security :: storage_security where
  "empty_storage_security =
     \<lparr>target = Some Cli, encrypted = False, persistent = True, key_source = No_key,
      key_store_available = Some False, encrypted_config_available = Some False,
      persistent_messages_available = Some False, config_encrypted = False,
      messages_encrypted = False, messages_persistent = True, reason = None,
      message_key_hex = None, kid = None\<rparr>"

section \<open>Normalisation\<close>

definition key_source_of :: "jval \<Rightarrow> key_source" where
  "key_source_of v =
     (if v = JStr ''os-key-store'' then Os_key_store
      else if v = JStr ''ephemeral-process'' then Ephemeral_process
      else if v = JStr ''env'' then Env_key
      else No_key)"

definition reason_of :: "jval \<Rightarrow> security_reason option" where
  "reason_of v =
     (if v = JStr ''key-store-unavailable'' then Some Key_store_unavailable
      else if v = JStr ''key-store-write-failed'' then Some Key_store_write_failed
      else if v = JStr ''cli-mode'' then Some Cli_mode
      else None)"

fun text_of :: "jval \<Rightarrow> string option" where
  "text_of (JStr s) = Some s"
| "text_of v = None"

text \<open>A flag that may come in camel case or in snake case.\<close>

definition either_flag :: "jval \<Rightarrow> string \<Rightarrow> string \<Rightarrow> bool" where
  "either_flag raw camel snake \<longleftrightarrow> jget raw camel = JBool True \<or> jget raw snake = JBool True"

definition normalize_storage_security_info :: "jval \<Rightarrow> storage_security" where
  "normalize_storage_security_info raw =
     (if \<not> is_object raw then empty_storage_security
      else
        \<lparr>target = Some (if jget raw ''target'' = JStr ''desktop'' then Desktop else Cli),
         encrypted = (jget raw ''encrypted'' = JBool True),
         persistent = (jget raw ''persistent'' \<noteq> JBool False),
         key_source = key_source_of (coalesce (jget raw ''keySource'') (jget raw ''key_source'')),
         key_store_available = Some (either_flag raw ''keyStoreAvailable'' ''key_store_available''),
         encrypted_config_available =
           Some (either_flag raw ''encryptedConfigAvailable'' ''encrypted_config_available''),
         persistent_messages_available =
           Some (either_flag raw ''persistentMessagesAvailable'' ''persistent_messages_available''),
         config_encrypted = either_flag raw ''configEncrypted'' ''config_encrypted'',
         messages_encrypted = either_flag raw ''messagesEncrypted'' ''messages_encrypted'',
         messages_persistent = either_flag raw ''messagesPersistent'' ''messages_persistent'',
         reason = reason_of (jget raw ''reason''),
         message_key_hex =
           (case text_of (jget raw ''messageKeyHex'') of
              Some s \<Rightarrow> Some s
            | None \<Rightarrow> text_of (jget raw ''message_key_hex'')),
         kid = text_of (jget raw ''kid'')\<rparr>)"

section \<open>Modes\<close>

definition available_storage_mode_values :: "storage_security \<Rightarrow> string list" where
  "available_storage_mode_values info =
     (if target info = Some Desktop then
        (if key_store_available info \<noteq> Some True then [''unencrypted'', ''temporary_messages'']
         else [''unencrypted'', ''balanced'', ''sensitive'']
              @ (if persistent_messages_available info = Some True then [''durable''] else []))
      else [''unencrypted'', ''balanced'', ''env_temporary_messages''])"

definition fallback_storage_security :: "obj \<Rightarrow> storage_security" where
  "fallback_storage_security config =
     (let mode = str_or (jget (oget config ''config_security'') ''mode'') ''balanced'' in
      if mode = ''durable'' then
        empty_storage_security\<lparr>encrypted := True, persistent := True, key_source := Os_key_store,
          config_encrypted := True, messages_encrypted := True, messages_persistent := True\<rparr>
      else if mode = ''sensitive'' then
        empty_storage_security\<lparr>encrypted := True, persistent := False, key_source := Ephemeral_process,
          config_encrypted := True, messages_encrypted := True, messages_persistent := False\<rparr>
      else if mode = ''env_temporary_messages'' \<or> mode = ''temporary_messages'' then
        empty_storage_security\<lparr>encrypted := True, persistent := False, key_source := Ephemeral_process,
          config_encrypted := False, messages_encrypted := True, messages_persistent := False\<rparr>
      else empty_storage_security)"

definition resolve_storage_security :: "jval \<Rightarrow> obj \<Rightarrow> storage_security" where
  "resolve_storage_security runtime_info config =
     (if truthy runtime_info then normalize_storage_security_info runtime_info
      else fallback_storage_security config)"

definition has_temporary_encrypted_messages :: "storage_security \<Rightarrow> bool" where
  "has_temporary_encrypted_messages info \<longleftrightarrow>
     messages_encrypted info \<and> \<not> messages_persistent info \<and> key_source info = Ephemeral_process"

definition has_encrypted_messages :: "storage_security \<Rightarrow> bool" where
  "has_encrypted_messages info \<longleftrightarrow>
     messages_encrypted info
     \<and> (case message_key_hex info of Some key \<Rightarrow> length key > 0 | None \<Rightarrow> False)"

section \<open>The document of a record\<close>

text \<open>The object literal a \<open>StorageSecurityInfo\<close> is at run time.\<close>

fun target_text :: "storage_target \<Rightarrow> string" where
  "target_text Cli = ''cli''"
| "target_text Desktop = ''desktop''"

fun key_source_text :: "key_source \<Rightarrow> string" where
  "key_source_text No_key = ''none''"
| "key_source_text Os_key_store = ''os-key-store''"
| "key_source_text Ephemeral_process = ''ephemeral-process''"
| "key_source_text Env_key = ''env''"

fun reason_text :: "security_reason \<Rightarrow> string" where
  "reason_text Key_store_unavailable = ''key-store-unavailable''"
| "reason_text Key_store_write_failed = ''key-store-write-failed''"
| "reason_text Cli_mode = ''cli-mode''"

definition opt_member :: "string \<Rightarrow> ('a \<Rightarrow> jval) \<Rightarrow> 'a option \<Rightarrow> obj" where
  "opt_member k f v = (case v of None \<Rightarrow> [] | Some x \<Rightarrow> [(k, f x)])"

definition security_doc :: "storage_security \<Rightarrow> obj" where
  "security_doc info =
     opt_member ''target'' (JStr \<circ> target_text) (target info)
     @ [(''encrypted'', JBool (encrypted info)), (''persistent'', JBool (persistent info)),
        (''keySource'', JStr (key_source_text (key_source info)))]
     @ opt_member ''keyStoreAvailable'' JBool (key_store_available info)
     @ opt_member ''encryptedConfigAvailable'' JBool (encrypted_config_available info)
     @ opt_member ''persistentMessagesAvailable'' JBool (persistent_messages_available info)
     @ [(''configEncrypted'', JBool (config_encrypted info)),
        (''messagesEncrypted'', JBool (messages_encrypted info)),
        (''messagesPersistent'', JBool (messages_persistent info))]
     @ opt_member ''reason'' (JStr \<circ> reason_text) (reason info)
     @ opt_member ''messageKeyHex'' JStr (message_key_hex info)
     @ opt_member ''kid'' JStr (kid info)"

definition complete_security :: "storage_security \<Rightarrow> bool" where
  "complete_security info \<longleftrightarrow> target info \<noteq> None \<and> key_store_available info \<noteq> None
     \<and> encrypted_config_available info \<noteq> None \<and> persistent_messages_available info \<noteq> None"

section \<open>Lemmas\<close>

lemma key_source_of_text [simp]: "key_source_of (JStr (key_source_text k)) = k"
  by (cases k) (simp_all add: key_source_of_def)

lemma reason_of_text [simp]: "reason_of (JStr (reason_text k)) = Some k"
  by (cases k) (simp_all add: reason_of_def)

lemma reason_of_Undef [simp]: "reason_of Undef = None"
  by (simp add: reason_of_def)

lemma complete_normalized: "complete_security (normalize_storage_security_info raw)"
  by (auto simp: complete_security_def normalize_storage_security_info_def empty_storage_security_def)

lemma complete_fallback: "complete_security (fallback_storage_security config)"
  by (auto simp: complete_security_def fallback_storage_security_def empty_storage_security_def Let_def)

lemma normalize_doc:
  assumes "complete_security info"
  shows "normalize_storage_security_info (JObj (security_doc info)) = info"
proof -
  obtain t where t: "target info = Some t" using assms by (auto simp: complete_security_def)
  obtain a where a: "key_store_available info = Some a" using assms by (auto simp: complete_security_def)
  obtain b where b: "encrypted_config_available info = Some b" using assms by (auto simp: complete_security_def)
  obtain c where c: "persistent_messages_available info = Some c" using assms by (auto simp: complete_security_def)
  define r where "r = opt_member ''reason'' (JStr \<circ> reason_text) (reason info)
     @ opt_member ''messageKeyHex'' JStr (message_key_hex info) @ opt_member ''kid'' JStr (kid info)"
  have r: "k \<notin> {''reason'', ''messageKeyHex'', ''kid''} \<Longrightarrow> oget r k = Undef" for k
    by (rule oget_absent) (auto simp: r_def opt_member_def split: option.splits)
  have m: "oget r ''reason'' = (case reason info of None \<Rightarrow> Undef | Some x \<Rightarrow> JStr (reason_text x))"
    "oget r ''messageKeyHex'' = (case message_key_hex info of None \<Rightarrow> Undef | Some x \<Rightarrow> JStr x)"
    "oget r ''kid'' = (case kid info of None \<Rightarrow> Undef | Some x \<Rightarrow> JStr x)"
    by (auto simp: r_def opt_member_def split: option.splits)
  have doc: "security_doc info = [(''target'', JStr (target_text t)), (''encrypted'', JBool (encrypted info)),
     (''persistent'', JBool (persistent info)), (''keySource'', JStr (key_source_text (key_source info))),
     (''keyStoreAvailable'', JBool a), (''encryptedConfigAvailable'', JBool b), (''persistentMessagesAvailable'', JBool c),
     (''configEncrypted'', JBool (config_encrypted info)), (''messagesEncrypted'', JBool (messages_encrypted info)),
     (''messagesPersistent'', JBool (messages_persistent info))] @ r"
    by (simp add: security_doc_def t a b c r_def opt_member_def)
  show ?thesis
    unfolding normalize_storage_security_info_def doc
    by (rule storage_security.equality)
      (auto simp: m r t a b c either_flag_def coalesce_def split: option.splits; cases t; simp)+
qed

section \<open>Resolution\<close>

lemma fallback_unkeyed: "\<not> has_encrypted_messages (fallback_storage_security config)"
  by (auto simp: has_encrypted_messages_def fallback_storage_security_def empty_storage_security_def Let_def)

lemma resolve_doc:
  "resolve_storage_security (JObj (security_doc (resolve_storage_security r config))) config'
     = resolve_storage_security r config"
  unfolding resolve_storage_security_def
  by (simp add: normalize_doc complete_normalized complete_fallback)

text \<open>Resolving the storage security is stable: a resolved record that is fed back as the
  runtime information resolves to itself whatever the configuration then says; and without
  runtime information the result never claims a usable message key, so that no caller encrypts
  with a key that does not exist in this process.\<close>

theorem security_resolution_stable:
  "resolve_storage_security (JObj (security_doc (resolve_storage_security r config))) config'
     = resolve_storage_security r config
   \<and> (\<not> truthy r \<longrightarrow> \<not> has_encrypted_messages (resolve_storage_security r config))"
  using resolve_doc fallback_unkeyed by (simp add: resolve_storage_security_def)

theorem security_resolution_stable_witness:
  "\<not> has_encrypted_messages
     (resolve_storage_security Null [(''config_security'', JObj [(''mode'', JStr ''sensitive'')])])"
  using security_resolution_stable [of Null "[(''config_security'', JObj [(''mode'', JStr ''sensitive'')])]"]
  by simp

end
