(* ===== verification/Base64.thy ===== *)
theory Base64
  imports JsObject "HOL-Library.Word"
begin

text \<open>
  The text encodings the message store relies on: UTF-8 of the code units modelled,
  \<open>btoa\<close> and \<open>atob\<close>, and their composition with the byte conversions of
  \<open>encrypted-json-storage.ts\<close>.
\<close>

type_synonym bytes = "8 word list"

section \<open>UTF-8\<close>

definition utf8_char :: "char \<Rightarrow> bytes" where
  "utf8_char c = (let n = (of_char c :: nat) in
     if n < 128 then [of_nat n] else [of_nat (192 + n div 64), of_nat (128 + n mod 64)])"

definition utf8_encode :: "string \<Rightarrow> bytes" where
  "utf8_encode s = concat (map utf8_char s)"

text \<open>A text with code units above 255 is outside the strings modelled: \<open>None\<close>.\<close>

fun utf8_decode :: "bytes \<Rightarrow> string option" where
  "utf8_decode [] = Some []"
| "utf8_decode [b] = (if unat b < 128 then Some [char_of (unat b)] else None)"
| "utf8_decode (b # c # bs) =
     (if unat b < 128 then map_option (\<lambda>s. char_of (unat b) # s) (utf8_decode (c # bs))
      else if (unat b = 194 \<or> unat b = 195) \<and> 128 \<le> unat c \<and> unat c < 192
        then map_option (\<lambda>s. char_of ((unat b - 192) * 64 + (unat c - 128)) # s) (utf8_decode bs)
      else None)"

section \<open>\<open>btoa\<close> and \<open>atob\<close>\<close>

definition b64_char :: "nat \<Rightarrow> char" where
  "b64_char n = char_of
     (if n < 26 then 65 + n else if n < 52 then 71 + n else if n < 62 then n - 4
      else if n = 62 then 43 else 47 :: nat)"

definition b64_value :: "char \<Rightarrow> nat option" where
  "b64_value c = (let n = (of_char c :: nat) in
     if 65 \<le> n \<and> n \<le> 90 then Some (n - 65)
     else if 97 \<le> n \<and> n \<le> 122 then Some (n - 71)
     else if 48 \<le> n \<and> n \<le> 57 then Some (n + 4)
     else if n = 43 then Some 62
     else if n = 47 then Some 63
     else None)"

fun to_sextets :: "nat list \<Rightarrow> nat list" where
  "to_sextets [] = []"
| "to_sextets [a] = [a div 4, (a mod 4) * 16]"
| "to_sextets [a, b] = [a div 4, (a mod 4) * 16 + b div 16, (b mod 16) * 4]"
| "to_sextets (a # b # c # r) =
     a div 4 # ((a mod 4) * 16 + b div 16) # ((b mod 16) * 4 + c div 64) # c mod 64 # to_sextets r"

fun from_sextets :: "nat list \<Rightarrow> nat list" where
  "from_sextets (p # q # r # t # rest) =
     (p * 4 + q div 16) # ((q mod 16) * 16 + r div 4) # ((r mod 4) * 64 + t) # from_sextets rest"
| "from_sextets [p, q, r] = [p * 4 + q div 16, (q mod 16) * 16 + r div 4]"
| "from_sextets [p, q] = [p * 4 + q div 16]"
| "from_sextets ps = []"

definition btoa :: "string \<Rightarrow> string" where
  "btoa s = map b64_char (to_sextets (map of_char s))
     @ replicate ((3 - length s mod 3) mod 3) (CHR ''='')"

definition strip_padding :: "string \<Rightarrow> string" where
  "strip_padding s =
     (if length s mod 4 \<noteq> 0 then s
      else if ends_with ''=='' s then take (length s - 2) s
      else if ends_with ''='' s then take (length s - 1) s
      else s)"

definition ascii_space :: "char \<Rightarrow> bool" where
  "ascii_space c \<longleftrightarrow> (of_char c :: nat) \<in> {9, 10, 12, 13, 32}"

definition atob :: "string \<Rightarrow> string option" where
  "atob s =
     (let t = strip_padding (filter (\<lambda>c. \<not> ascii_space c) s); vs = map b64_value t in
      if length t mod 4 = 1 \<or> None \<in> set vs then None
      else Some (map char_of (from_sextets (map the vs))))"

definition bytes_to_base64 :: "bytes \<Rightarrow> string" where
  "bytes_to_base64 bs = btoa (map (\<lambda>b. char_of (unat b)) bs)"

definition base64_to_bytes :: "string \<Rightarrow> bytes option" where
  "base64_to_bytes s = map_option (map (\<lambda>c. of_nat (of_char c))) (atob s)"

section \<open>Round trips\<close>

lemma utf8_char_cases:
  "(of_char c :: nat) < 128 \<and> utf8_char c = [of_nat (of_char c)]
   \<or> \<not> (of_char c :: nat) < 128
     \<and> utf8_char c = [of_nat (192 + of_char c div 64), of_nat (128 + of_char c mod 64)]"
  by (simp add: utf8_char_def Let_def)

lemma utf8_decode_char: "utf8_decode (utf8_char c @ bs) = map_option (\<lambda>s. c # s) (utf8_decode bs)"
proof -
  define n where "n = (of_char c :: nat)"
  have n: "n < 256" and c: "c = char_of n" by (simp_all add: n_def)
  have small: "unat (of_nat m :: 8 word) = m" if "m < 256" for m
    using that by (simp add: unat_of_nat take_bit_nat_eq_self)
  show ?thesis
  proof (cases "n < 128")
    case True
    then have "utf8_char c = [of_nat n]" by (simp add: utf8_char_def n_def [symmetric])
    with True small [of n] show ?thesis by (cases bs) (simp_all add: c)
  next
    case False
    then have u: "utf8_char c = [of_nat (192 + n div 64), of_nat (128 + n mod 64)]"
      by (simp add: utf8_char_def n_def [symmetric])
    have d: "n div 64 = 2 \<or> n div 64 = 3" using False n by auto
    have s1: "unat (of_nat (192 + n div 64) :: 8 word) = 192 + n div 64" using d by (intro small) auto
    have m: "n mod 64 < 64" by simp
    have s2: "unat (of_nat (128 + n mod 64) :: 8 word) = 128 + n mod 64" using m by (intro small) linarith
    have r: "n div 64 * 64 + n mod 64 = n" by simp
    show ?thesis
      unfolding u append.simps utf8_decode.simps s1 s2 using d m r c by auto
  qed
qed

lemma utf8_roundtrip [simp]: "utf8_decode (utf8_encode s) = Some s"
  by (induction s) (simp_all add: utf8_encode_def utf8_decode_char)

lemma b64_value_char [simp]: "n < 64 \<Longrightarrow> b64_value (b64_char n) = Some n"
  by (auto simp: b64_value_def b64_char_def of_char_of Let_def)

lemma b64_char_plain: "n < 64 \<Longrightarrow> b64_char n \<noteq> CHR ''='' \<and> \<not> ascii_space (b64_char n)"
proof -
  assume n: "n < 64"
  then have "b64_value (b64_char n) \<noteq> None" by simp
  then show ?thesis by (auto simp: b64_value_def ascii_space_def Let_def)
qed

lemma sextet_bounds:
  fixes a b c :: nat
  assumes "a < 256" "b < 256" "c < 256"
  shows "a div 4 < 64 \<and> (a mod 4) * 16 + b div 16 < 64 \<and> (b mod 16) * 4 + c div 64 < 64 \<and> c mod 64 < 64"
proof -
  have "b div 16 < 16" "c div 64 < 4" using assms by auto
  moreover have "a mod 4 < 4" "b mod 16 < 16" by simp_all
  ultimately have "(a mod 4) * 16 + b div 16 < 64" "(b mod 16) * 4 + c div 64 < 64" by linarith+
  then show ?thesis using assms by auto
qed

lemma sextet_inverse:
  fixes a b c :: nat
  assumes "b < 256" "c < 256"
  shows "(a div 4) * 4 + ((a mod 4) * 16 + b div 16) div 16 = a
    \<and> ((a mod 4) * 16 + b div 16) mod 16 * 16 + ((b mod 16) * 4 + c div 64) div 4 = b
    \<and> ((b mod 16) * 4 + c div 64) mod 4 * 64 + c mod 64 = c"
proof -
  have b: "b div 16 < 16" and c: "c div 64 < 4" using assms by auto
  then have 1: "((a mod 4) * 16 + b div 16) div 16 = a mod 4" "((a mod 4) * 16 + b div 16) mod 16 = b div 16"
    and 2: "((b mod 16) * 4 + c div 64) div 4 = b mod 16" "((b mod 16) * 4 + c div 64) mod 4 = c div 64"
    by simp_all
  show ?thesis unfolding 1 2 by simp
qed

lemma to_sextets_small: "(\<forall>a \<in> set xs. a < 256) \<Longrightarrow> p \<in> set (to_sextets xs) \<Longrightarrow> p < 64"
proof (induction xs rule: to_sextets.induct)
  case (2 a)
  then show ?case using sextet_bounds [of a 0 0] by auto
next
  case (3 a b)
  then show ?case using sextet_bounds [of a b 0] by auto
next
  case (4 a b c r)
  then show ?case using sextet_bounds [of a b c] by auto
qed simp

lemma from_to_sextets: "(\<forall>a \<in> set xs. a < 256) \<Longrightarrow> from_sextets (to_sextets xs) = xs"
proof (induction xs rule: to_sextets.induct)
  case (2 a)
  then show ?case using sextet_inverse [of 0 0 a] by simp
next
  case (3 a b)
  then show ?case using sextet_inverse [of b 0 a] by simp
next
  case (4 a b c r)
  then show ?case using sextet_inverse [of b c a] by simp
qed simp

lemma length_to_sextets:
  "length (to_sextets xs) mod 4 = (if length xs mod 3 = 0 then 0 else Suc (length xs mod 3))"
  by (induction xs rule: to_sextets.induct) (auto simp: mod_Suc split: if_splits)

lemma strip_btoa:
  assumes "\<forall>a \<in> set xs. a < 256"
  shows "strip_padding (map b64_char (to_sextets xs) @ replicate ((3 - length xs mod 3) mod 3) (CHR ''=''))
    = map b64_char (to_sextets xs)"
proof -
  let ?m = "map b64_char (to_sextets xs)"
  have ne: "c \<noteq> CHR ''=''" if "c \<in> set ?m" for c
    using that b64_char_plain to_sextets_small [OF assms] by auto
  have len: "length ?m mod 4 = (if length xs mod 3 = 0 then 0 else Suc (length xs mod 3))"
    by (simp add: length_to_sextets)
  have tail: "\<not> starts_with (CHR ''='' # p) (rev ?m)" for p
  proof (cases "rev ?m")
    case (Cons c t)
    then have "c \<in> set ?m" by (metis list.set_intros(1) set_rev)
    then have "c \<noteq> CHR ''=''" by (rule ne)
    with Cons show ?thesis by simp
  qed simp
  consider "length xs mod 3 = 0" | "length xs mod 3 = 1" | "length xs mod 3 = 2" by linarith
  then show ?thesis
  proof cases
    case 1
    then show ?thesis using tail by (simp add: strip_padding_def ends_with_def del: rev_map)
  next
    case 2
    with len have "length (?m @ ''=='') mod 4 = 0" by (simp add: mod_Suc)
    with 2 show ?thesis by (simp add: strip_padding_def ends_with_def numeral_2_eq_2 del: rev_map)
  next
    case 3
    with len have "length (?m @ ''='') mod 4 = 0" by (simp add: mod_Suc)
    with 3 tail show ?thesis by (simp add: strip_padding_def ends_with_def del: rev_map)
  qed
qed

lemma atob_btoa [simp]: "atob (btoa s) = Some s"
proof -
  let ?xs = "map of_char s :: nat list"
  let ?m = "map b64_char (to_sextets ?xs)"
  have small: "\<forall>a \<in> set ?xs. a < 256" by auto
  have plain: "filter (\<lambda>c. \<not> ascii_space c) (btoa s) = btoa s"
    unfolding filter_id_conv btoa_def using b64_char_plain to_sextets_small [OF small]
    by (auto simp: ascii_space_def)
  have strip: "strip_padding (btoa s) = ?m"
    using strip_btoa [OF small] by (simp add: btoa_def)
  have vs: "map b64_value ?m = map Some (to_sextets ?xs)"
    using to_sextets_small [OF small] by simp
  have "length ?m mod 4 \<noteq> 1" by (simp add: length_to_sextets)
  then show ?thesis
    unfolding atob_def Let_def plain strip vs by (auto simp: o_def from_to_sextets [OF small])
qed

lemma base64_roundtrip [simp]: "base64_to_bytes (bytes_to_base64 bs) = Some bs"
proof -
  have "(of_nat (of_char (char_of (unat b) :: char)) :: 8 word) = b" for b :: "8 word"
  proof -
    have "unat b < 256" using unsigned_less [of b] by simp
    then show ?thesis by (simp add: of_char_of)
  qed
  then show ?thesis by (simp add: base64_to_bytes_def bytes_to_base64_def o_def)
qed

end
