(* ===== verification/Storage.thy ===== *)
theory Storage
  imports StorageSecurity Base64
begin

text \<open>
  The browser-side store: the backend interface with its \<open>localStorage\<close> implementation
  (\<open>storage.ts\<close>), values kept as plain or encrypted JSON
  (\<open>encrypted-json-storage.ts\<close>) and the three buckets (\<open>storage/app-storage.ts\<close>).
  AES-GCM is a parameter (\<open>aead\<close>): whether a key is accepted, sealing and opening.
\<close>

section \<open>Backends\<close>

text \<open>A \<open>StorageBackend\<close>: its three functions over the state it keeps.\<close>

record 's storage_backend =
  get_item :: "'s \<Rightarrow> string \<Rightarrow> string option"
  set_item :: "'s \<Rightarrow> string \<Rightarrow> string \<Rightarrow> bool \<times> 's"
  remove_item :: "'s \<Rightarrow> string \<Rightarrow> bool \<times> 's"

text \<open>\<open>localStorage\<close> may be missing, refuse access, or hold items up to a quota of code units.\<close>

record web_storage =
  quota :: nat
  items :: "(string \<times> string) list"

datatype browser = Without_storage | Access_denied | With_storage web_storage

definition get_browser_storage :: "browser \<Rightarrow> web_storage option" where
  "get_browser_storage b = (case b of With_storage w \<Rightarrow> Some w | _ \<Rightarrow> None)"

definition used_space :: "(string \<times> string) list \<Rightarrow> nat" where
  "used_space es = sum_list (map (\<lambda>(k, v). length k + length v) es)"

definition local_get_item :: "browser \<Rightarrow> string \<Rightarrow> string option" where
  "local_get_item b key = (case get_browser_storage b of Some w \<Rightarrow> map_of (items w) key | None \<Rightarrow> None)"

definition local_set_item :: "browser \<Rightarrow> string \<Rightarrow> string \<Rightarrow> bool \<times> browser" where
  "local_set_item b key text =
     (case get_browser_storage b of
        None \<Rightarrow> (False, b)
      | Some w \<Rightarrow>
          (let items' = oput key text (items w) in
           if used_space items' \<le> quota w then (True, With_storage (w\<lparr>items := items'\<rparr>))
           else (False, b)))"

definition local_remove_item :: "browser \<Rightarrow> string \<Rightarrow> bool \<times> browser" where
  "local_remove_item b key =
     (case get_browser_storage b of
        None \<Rightarrow> (False, b)
      | Some w \<Rightarrow> (True, With_storage (w\<lparr>items := odel key (items w)\<rparr>)))"

definition local_storage_backend :: "browser storage_backend" where
  "local_storage_backend =
     \<lparr>get_item = local_get_item, set_item = local_set_item, remove_item = local_remove_item\<rparr>"

text \<open>The module's active backend, with the state behind it.\<close>

record 's storage_module =
  active_backend :: "'s storage_backend"
  contents :: 's

definition set_storage_backend :: "'s storage_backend \<Rightarrow> 's storage_module \<Rightarrow> 's storage_module" where
  "set_storage_backend backend m = m\<lparr>active_backend := backend\<rparr>"

definition get_storage_backend :: "'s storage_module \<Rightarrow> 's storage_backend" where
  "get_storage_backend m = active_backend m"

definition read_json :: "'s storage_module \<Rightarrow> string \<Rightarrow> jval \<Rightarrow> jval" where
  "read_json m key fallback =
     (case get_item (active_backend m) (contents m) key of
        None \<Rightarrow> fallback
      | Some raw \<Rightarrow> (case parse_json raw of Some v \<Rightarrow> v | None \<Rightarrow> fallback))"

text \<open>\<open>setItem\<close> converts the absent result of \<open>JSON.stringify(undefined)\<close> to a text.\<close>

definition item_text :: "jval \<Rightarrow> string" where
  "item_text v = (if v = Undef then ''undefined'' else stringify v)"

definition write_json :: "'s storage_module \<Rightarrow> string \<Rightarrow> jval \<Rightarrow> 's storage_module" where
  "write_json m key v =
     m\<lparr>contents := snd (set_item (active_backend m) (contents m) key (item_text v))\<rparr>"

definition remove_key :: "'s storage_module \<Rightarrow> string \<Rightarrow> 's storage_module" where
  "remove_key m key = m\<lparr>contents := snd (remove_item (active_backend m) (contents m) key)\<rparr>"

section \<open>Encrypted values\<close>

datatype storage_error =
    Missing_message_key
  | Invalid_hex_key_length
  | Invalid_message_key_hex
  | Key_rejected
  | Not_json
  | Bad_base64
  | Not_authentic
  | Bad_text

text \<open>Key acceptance, and sealing and opening with key, nonce and associated data.\<close>

record aead =
  key_accepted :: "bytes \<Rightarrow> bool"
  seal :: "bytes \<Rightarrow> bytes \<Rightarrow> bytes \<Rightarrow> bytes \<Rightarrow> bytes"
  unseal :: "bytes \<Rightarrow> bytes \<Rightarrow> bytes \<Rightarrow> bytes \<Rightarrow> bytes option"

fun hex_pair_bytes :: "nat list \<Rightarrow> bytes" where
  "hex_pair_bytes (a # b # ns) = of_nat (16 * a + b) # hex_pair_bytes ns"
| "hex_pair_bytes ns = []"

definition hex_to_bytes :: "string \<Rightarrow> storage_error + bytes" where
  "hex_to_bytes v =
     (let normalized = js_trim v in
      if length normalized = 0 \<or> length normalized mod 2 \<noteq> 0 then Inl Invalid_hex_key_length
      else if list_ex (\<lambda>c. hex_of c = None) normalized then Inl Invalid_message_key_hex
      else Inr (hex_pair_bytes (map (the \<circ> hex_of) normalized)))"

definition import_message_key :: "aead \<Rightarrow> storage_security \<Rightarrow> storage_error + bytes" where
  "import_message_key A security =
     (case message_key_hex security of
        None \<Rightarrow> Inl Missing_message_key
      | Some key \<Rightarrow>
          (if key = [] then Inl Missing_message_key
           else case hex_to_bytes key of
             Inl e \<Rightarrow> Inl e
           | Inr k \<Rightarrow> if key_accepted A k then Inr k else Inl Key_rejected))"

definition is_envelope :: "jval \<Rightarrow> bool" where
  "is_envelope v \<longleftrightarrow>
     is_object v
     \<and> jget v ''v'' = JNum 1
     \<and> jget v ''alg'' = JStr ''AES-256-GCM''
     \<and> is_string (jget v ''kid'')
     \<and> is_string (jget v ''nonce'')
     \<and> is_string (jget v ''ciphertext'')"

definition envelope_doc :: "string \<Rightarrow> bytes \<Rightarrow> bytes \<Rightarrow> jval" where
  "envelope_doc key_id nonce ciphertext =
     JObj [(''v'', JNum 1), (''alg'', JStr ''AES-256-GCM''), (''kid'', JStr key_id),
           (''nonce'', JStr (bytes_to_base64 nonce)), (''ciphertext'', JStr (bytes_to_base64 ciphertext))]"

text \<open>\<open>nonce\<close> is what \<open>crypto.getRandomValues\<close> fills in.\<close>

definition encrypt_json ::
    "aead \<Rightarrow> bytes \<Rightarrow> string \<Rightarrow> jval \<Rightarrow> storage_security \<Rightarrow> storage_error + string" where
  "encrypt_json A nonce slot v security =
     (case import_message_key A security of
        Inl e \<Rightarrow> Inl e
      | Inr key \<Rightarrow>
          (let ciphertext = seal A key nonce (utf8_encode slot)
             (utf8_encode (if v = Undef then [] else stringify v))
           in Inr (stringify (envelope_doc
                (case kid security of
                   Some k \<Rightarrow> if k = [] then ''ephemeral-process'' else k
                 | None \<Rightarrow> ''ephemeral-process'')
                nonce ciphertext))))"

definition decrypt_json :: "aead \<Rightarrow> string \<Rightarrow> string \<Rightarrow> storage_security \<Rightarrow> storage_error + jval" where
  "decrypt_json A slot raw security =
     (case parse_json raw of
        None \<Rightarrow> Inl Not_json
      | Some parsed \<Rightarrow>
          (if \<not> is_envelope parsed then Inr parsed
           else case import_message_key A security of
             Inl e \<Rightarrow> Inl e
           | Inr key \<Rightarrow>
               (case (base64_to_bytes (to_str (jget parsed ''nonce'')),
                      base64_to_bytes (to_str (jget parsed ''ciphertext''))) of
                  (Some nonce, Some ciphertext) \<Rightarrow>
                    (case unseal A key nonce (utf8_encode slot) ciphertext of
                       None \<Rightarrow> Inl Not_authentic
                     | Some plaintext \<Rightarrow>
                         (case utf8_decode plaintext of
                            None \<Rightarrow> Inl Bad_text
                          | Some text \<Rightarrow>
                              (case parse_json text of None \<Rightarrow> Inl Not_json | Some v \<Rightarrow> Inr v)))
                | _ \<Rightarrow> Inl Bad_base64)))"

definition storage_slot :: "string \<Rightarrow> string" where
  "storage_slot key = ''mq-bridge-app:localStorage:'' @ key"

definition drop_item :: "'s storage_backend \<Rightarrow> bool \<Rightarrow> string \<Rightarrow> 's \<Rightarrow> 's" where
  "drop_item B should key s = (if should then snd (remove_item B s key) else s)"

text \<open>\<open>clear\<close> is the option \<open>clearOnFailure\<close>, absent by default.\<close>

definition get_stored_json ::
    "'s storage_backend \<Rightarrow> aead \<Rightarrow> 's \<Rightarrow> string \<Rightarrow> jval \<Rightarrow> storage_security \<Rightarrow> bool option \<Rightarrow> jval \<times> 's" where
  "get_stored_json B A s key fallback security clear =
     (let should_clear = (case clear of Some b \<Rightarrow> b | None \<Rightarrow> has_temporary_encrypted_messages security) in
      case get_item B s key of
        None \<Rightarrow> (fallback, s)
      | Some raw \<Rightarrow>
          (if raw = [] then (fallback, s)
           else if \<not> has_encrypted_messages security then
             (case parse_json raw of
                None \<Rightarrow> (fallback, s)
              | Some parsed \<Rightarrow>
                  (if is_envelope parsed then (fallback, drop_item B should_clear key s)
                   else (parsed, s)))
           else
             (case decrypt_json A (storage_slot key) raw security of
                Inr v \<Rightarrow> (v, s)
              | Inl _ \<Rightarrow> (fallback, drop_item B should_clear key s))))"

definition set_stored_json ::
    "'s storage_backend \<Rightarrow> aead \<Rightarrow> bytes \<Rightarrow> 's \<Rightarrow> string \<Rightarrow> jval \<Rightarrow> storage_security
       \<Rightarrow> storage_error option \<times> 's" where
  "set_stored_json B A nonce s key v security =
     (if \<not> has_encrypted_messages security then (None, snd (set_item B s key (item_text v)))
      else case encrypt_json A nonce (storage_slot key) v security of
        Inl e \<Rightarrow> (Some e, s)
      | Inr text \<Rightarrow> (None, snd (set_item B s key text)))"

definition remove_stored_json :: "'s storage_backend \<Rightarrow> 's \<Rightarrow> string \<Rightarrow> 's" where
  "remove_stored_json B s key = snd (remove_item B s key)"

section \<open>Buckets\<close>

definition config_key :: string where "config_key = ''mqb_config_bucket''"
definition runtime_cache_key :: string where "runtime_cache_key = ''mqb_runtime_cache_bucket''"
definition ui_prefs_key :: string where "ui_prefs_key = ''mqb_ui_prefs_bucket''"

definition load_config_bucket ::
    "'s storage_backend \<Rightarrow> aead \<Rightarrow> 's \<Rightarrow> jval \<Rightarrow> storage_security \<Rightarrow> jval \<times> 's" where
  "load_config_bucket B A s fallback security =
     get_stored_json B A s config_key fallback security (Some False)"

definition save_config_bucket ::
    "'s storage_backend \<Rightarrow> aead \<Rightarrow> bytes \<Rightarrow> 's \<Rightarrow> jval \<Rightarrow> storage_security \<Rightarrow> storage_error option \<times> 's" where
  "save_config_bucket B A nonce s v security = set_stored_json B A nonce s config_key v security"

definition load_runtime_cache_bucket ::
    "'s storage_backend \<Rightarrow> aead \<Rightarrow> 's \<Rightarrow> jval \<Rightarrow> storage_security \<Rightarrow> jval \<times> 's" where
  "load_runtime_cache_bucket B A s fallback security =
     get_stored_json B A s runtime_cache_key fallback security None"

definition save_runtime_cache_bucket ::
    "'s storage_backend \<Rightarrow> aead \<Rightarrow> bytes \<Rightarrow> 's \<Rightarrow> jval \<Rightarrow> storage_security \<Rightarrow> storage_error option \<times> 's" where
  "save_runtime_cache_bucket B A nonce s v security =
     set_stored_json B A nonce s runtime_cache_key v security"

definition load_ui_prefs_bucket ::
    "'s storage_backend \<Rightarrow> aead \<Rightarrow> 's \<Rightarrow> jval \<Rightarrow> storage_security \<Rightarrow> jval \<times> 's" where
  "load_ui_prefs_bucket B A s fallback security =
     get_stored_json B A s ui_prefs_key fallback security (Some False)"

definition save_ui_prefs_bucket ::
    "'s storage_backend \<Rightarrow> aead \<Rightarrow> bytes \<Rightarrow> 's \<Rightarrow> jval \<Rightarrow> storage_security \<Rightarrow> storage_error option \<times> 's" where
  "save_ui_prefs_bucket B A nonce s v security = set_stored_json B A nonce s ui_prefs_key v security"

section \<open>The contract of a backend\<close>

locale storage_laws =
  fixes B :: "'s storage_backend"
  assumes get_put: "set_item B s k v = (True, s') \<Longrightarrow> get_item B s' k = Some v"
    and get_put_other: "j \<noteq> k \<Longrightarrow> get_item B (snd (set_item B s k v)) j = get_item B s j"
    and put_failed: "set_item B s k v = (False, s') \<Longrightarrow> s' = s"
    and get_removed: "remove_item B s k = (True, s') \<Longrightarrow> get_item B s' k = None"
    and get_removed_other: "j \<noteq> k \<Longrightarrow> get_item B (snd (remove_item B s k)) j = get_item B s j"
    and remove_failed: "remove_item B s k = (False, s') \<Longrightarrow> s' = s"
begin

lemma put_changed: "snd (set_item B s k v) \<noteq> s \<Longrightarrow> get_item B (snd (set_item B s k v)) k = Some v"
  by (cases "set_item B s k v") (metis (full_types) get_put put_failed snd_conv)

lemma get_dropped_other: "j \<noteq> k \<Longrightarrow> get_item B (drop_item B b k s) j = get_item B s j"
  by (simp add: drop_item_def get_removed_other)

lemma get_dropped: "get_item B (drop_item B b k s) k = None \<or> drop_item B b k s = s"
  by (cases "remove_item B s k") (metis (full_types) drop_item_def get_removed remove_failed snd_conv)

lemma set_stored_other:
  "set_stored_json B A nonce s k v security = (e, s') \<Longrightarrow> j \<noteq> k \<Longrightarrow> get_item B s' j = get_item B s j"
  by (auto simp: set_stored_json_def get_put_other split: if_splits sum.splits)

lemma get_stored_other:
  "j \<noteq> k \<Longrightarrow> get_item B (snd (get_stored_json B A s k f security c)) j = get_item B s j"
  by (auto simp: get_stored_json_def Let_def get_dropped_other split: option.split sum.split)

lemma get_stored_value_cong:
  "get_item B s' k = get_item B s k
   \<Longrightarrow> fst (get_stored_json B A s' k f security c) = fst (get_stored_json B A s k f security c)"
  by (auto simp: get_stored_json_def Let_def split: option.split sum.split)

text \<open>A value that was written reads back as its JSON form.\<close>

lemma stringify_nonempty [simp]: "stringify v \<noteq> []"
  using stringify_start [of v] by auto

lemma get_set_plain:
  assumes "\<not> has_encrypted_messages security" "wf_jval v" "v \<noteq> Undef" "\<not> is_envelope (clone_json v)"
    and "set_stored_json B A nonce s k v security = (None, s')" "s' \<noteq> s"
  shows "get_stored_json B A s' k f security c = (clone_json v, s')"
proof -
  have "get_item B s' k = Some (stringify v)"
    using assms put_changed [of s k "stringify v"] by (auto simp: set_stored_json_def item_text_def)
  with assms show ?thesis by (simp add: get_stored_json_def parse_stringify_clone)
qed

end

lemma json_doc_envelope: "json_doc (envelope_doc i n c)"
proof -
  have "own_entries [(''v'', a), (''alg'', b), (''kid'', d), (''nonce'', e), (''ciphertext'', f)]
    = [(''v'', a), (''alg'', b), (''kid'', d), (''nonce'', e), (''ciphertext'', f)]" for a b d e f :: jval
    by (rule own_entries_no_index) (auto simp: is_index_def is_digit_def)
  then show ?thesis unfolding json_doc_def envelope_doc_def clone_fix_JObj by simp
qed

lemma is_envelope_doc [simp]: "is_envelope (envelope_doc i n c)"
  by (simp add: is_envelope_def envelope_doc_def)

lemma envelope_members [simp]:
  "jget (envelope_doc i n c) ''nonce'' = JStr (bytes_to_base64 n)"
  "jget (envelope_doc i n c) ''ciphertext'' = JStr (bytes_to_base64 c)"
  by (simp_all add: envelope_doc_def)

definition opens_sealed :: "aead \<Rightarrow> bool" where
  "opens_sealed A \<longleftrightarrow> (\<forall>k n a p. unseal A k n a (seal A k n a p) = Some p)"

lemma decrypt_encrypt:
  assumes "opens_sealed A" "wf_jval v" "v \<noteq> Undef"
    and "encrypt_json A nonce slot v security = Inr text"
  shows "decrypt_json A slot text security = Inr (clone_json v)"
proof -
  from assms(4) obtain key i where
    k: "import_message_key A security = Inr key" and
    t: "text = stringify (envelope_doc i nonce (seal A key nonce (utf8_encode slot) (utf8_encode (stringify v))))"
    using assms(3) by (auto simp: encrypt_json_def Let_def split: sum.splits)
  have p: "parse_json text = Some (envelope_doc i nonce (seal A key nonce (utf8_encode slot) (utf8_encode (stringify v))))"
    unfolding t by (rule parse_stringify [OF json_doc_envelope])
  show ?thesis
    using assms(1-3) unfolding decrypt_json_def p
    by (simp add: k opens_sealed_def parse_stringify_clone)
qed

context storage_laws
begin

lemma get_set_encrypted:
  assumes "has_encrypted_messages security" "opens_sealed A" "wf_jval v" "v \<noteq> Undef"
    and "set_stored_json B A nonce s k v security = (None, s')" "s' \<noteq> s"
  shows "get_stored_json B A s' k f security c = (clone_json v, s')"
proof -
  from assms obtain raw where t: "encrypt_json A nonce (storage_slot k) v security = Inr raw"
    and s': "s' = snd (set_item B s k raw)"
    by (auto simp: set_stored_json_def split: sum.splits)
  have "raw \<noteq> []" using t by (auto simp: encrypt_json_def Let_def split: sum.splits)
  moreover have "get_item B s' k = Some raw" using put_changed assms(6) unfolding s' by blast
  ultimately show ?thesis
    using assms decrypt_encrypt [OF assms(2-4) t] by (simp add: get_stored_json_def)
qed

lemma get_set_stored:
  assumes "opens_sealed A" "wf_jval v" "v \<noteq> Undef" "\<not> is_envelope (clone_json v)"
    and "set_stored_json B A nonce s k v security = (None, s')" "s' \<noteq> s"
  shows "get_stored_json B A s' k f security c = (clone_json v, s')"
  using assms get_set_plain get_set_encrypted by (cases "has_encrypted_messages security") blast+

end

lemma map_of_local: "map_of (oput k v es) j = (if j = k then Some v else map_of es j)"
  by (simp add: update_conv')

interpretation local: storage_laws local_storage_backend
proof unfold_locales
  show "set_item local_storage_backend s k v = (True, s') \<Longrightarrow> get_item local_storage_backend s' k = Some v" for s k v s'
    by (auto simp: local_storage_backend_def local_set_item_def local_get_item_def get_browser_storage_def
        map_of_local Let_def split: option.splits if_splits browser.splits)
  show "j \<noteq> k \<Longrightarrow> get_item local_storage_backend (snd (set_item local_storage_backend s k v)) j
      = get_item local_storage_backend s j" for j k s v
    by (auto simp: local_storage_backend_def local_set_item_def local_get_item_def get_browser_storage_def
        map_of_local Let_def split: option.splits if_splits browser.splits)
  show "set_item local_storage_backend s k v = (False, s') \<Longrightarrow> s' = s" for s k v s'
    by (auto simp: local_storage_backend_def local_set_item_def Let_def split: option.splits if_splits)
  show "remove_item local_storage_backend s k = (True, s') \<Longrightarrow> get_item local_storage_backend s' k = None" for s k s'
    by (auto simp: local_storage_backend_def local_remove_item_def local_get_item_def get_browser_storage_def
        split: option.splits browser.splits)
  show "j \<noteq> k \<Longrightarrow> get_item local_storage_backend (snd (remove_item local_storage_backend s k)) j
      = get_item local_storage_backend s j" for j k s
    by (auto simp: local_storage_backend_def local_remove_item_def local_get_item_def get_browser_storage_def
        split: option.splits browser.splits)
  show "remove_item local_storage_backend s k = (False, s') \<Longrightarrow> s' = s" for s k s'
    by (auto simp: local_storage_backend_def local_remove_item_def split: option.splits)
qed

section \<open>Properties\<close>

definition binds_slot :: "aead \<Rightarrow> bool" where
  "binds_slot A \<longleftrightarrow> (\<forall>k n a b p. a \<noteq> b \<longrightarrow> unseal A k n b (seal A k n a p) = None)"

lemma utf8_inject: "utf8_encode s = utf8_encode t \<longleftrightarrow> s = t"
  by (metis option.inject utf8_roundtrip)

lemma decrypt_other_slot:
  assumes "binds_slot A" "slot \<noteq> slot'" and "encrypt_json A nonce slot v security = Inr raw"
  shows "decrypt_json A slot' raw security = Inl Not_authentic"
proof -
  from assms(3) obtain key i p where
    k: "import_message_key A security = Inr key" and
    t: "raw = stringify (envelope_doc i nonce (seal A key nonce (utf8_encode slot) p))"
    by (auto simp: encrypt_json_def Let_def split: sum.splits)
  have "unseal A key nonce (utf8_encode slot') (seal A key nonce (utf8_encode slot) p) = None"
    using assms(1,2) by (auto simp: binds_slot_def utf8_inject)
  then show ?thesis
    unfolding decrypt_json_def t parse_stringify [OF json_doc_envelope] by (simp add: k)
qed

lemma storage_slot_inject [simp]: "storage_slot a = storage_slot b \<longleftrightarrow> a = b"
  by (simp add: storage_slot_def)

lemma local_remove_present:
  "get_item local_storage_backend s k = Some raw
   \<Longrightarrow> get_item local_storage_backend (snd (remove_item local_storage_backend s k)) k = None"
  by (auto simp: local_storage_backend_def local_remove_item_def local_get_item_def get_browser_storage_def
      split: option.splits browser.splits)

text \<open>A cipher for the concrete runs below: it frames the associated data before the text.\<close>

fun unframe :: "bytes \<Rightarrow> (bytes \<times> bytes) option" where
  "unframe [] = None"
| "unframe (m # bs) =
     (if m = 0 then Some ([], bs)
      else case bs of
        [] \<Rightarrow> None
      | b # r \<Rightarrow> map_option (\<lambda>(a, p). (b # a, p)) (unframe r))"

definition framing_aead :: aead where
  "framing_aead = \<lparr>key_accepted = (\<lambda>k. length k \<in> {16, 24, 32}),
     seal = (\<lambda>k n a p. concat (map (\<lambda>b. [1, b]) a) @ 0 # p),
     unseal = (\<lambda>k n a c. case unframe c of Some (a', p) \<Rightarrow> if a' = a then Some p else None | None \<Rightarrow> None)\<rparr>"

lemma unframe_seal: "unframe (concat (map (\<lambda>b. [1, b]) a) @ 0 # p) = Some (a, p)"
  by (induction a) auto

definition sample_security :: storage_security where
  "sample_security = empty_storage_security\<lparr>messages_encrypted := True, key_source := Env_key,
     message_key_hex := Some ''00112233445566778899aabbccddeeff''\<rparr>"

definition sample_store :: browser where
  "sample_store = With_storage \<lparr>quota = 5000, items = []\<rparr>"

lemma empty_storage_security_unkeyed: "\<not> has_encrypted_messages empty_storage_security"
  by (simp add: has_encrypted_messages_def empty_storage_security_def)

lemma framing_opens: "opens_sealed framing_aead"
  by (simp add: opens_sealed_def framing_aead_def unframe_seal)

lemma framing_binds: "binds_slot framing_aead"
  by (simp add: binds_slot_def framing_aead_def unframe_seal)

lemma sample_encrypted: "has_encrypted_messages sample_security"
  by code_simp

definition sample_text :: string where
  "sample_text = (case encrypt_json framing_aead [] (storage_slot ''k'') (JArr [JNum 7]) sample_security of
     Inr raw \<Rightarrow> raw | Inl _ \<Rightarrow> [])"

lemma sample_encrypts:
  "encrypt_json framing_aead [] (storage_slot ''k'') (JArr [JNum 7]) sample_security = Inr sample_text"
proof -
  have "case encrypt_json framing_aead [] (storage_slot ''k'') (JArr [JNum 7]) sample_security of Inr _ \<Rightarrow> True | Inl _ \<Rightarrow> False"
    by code_simp
  then show ?thesis unfolding sample_text_def by (auto split: sum.splits)
qed

text \<open>C7: What \<open>setStoredJson\<close> wrote, plain or encrypted, \<open>getStoredJson\<close> reads back as the
  JSON form of the value under the same security settings, whatever the fallback and the
  clearing option, and the read leaves the store as it is; no other key changes. The cipher only
  has to open what it sealed, and the value must not itself look like an encrypted envelope.\<close>

theorem stored_json_roundtrip:
  assumes "opens_sealed A" and "wf_jval v" and "v \<noteq> Undef" and "\<not> is_envelope (clone_json v)"
    and "set_stored_json local_storage_backend A nonce s key v security = (None, s')" and "s' \<noteq> s"
  shows "get_stored_json local_storage_backend A s' key fallback security clear = (clone_json v, s')
    \<and> (j = key \<or> get_item local_storage_backend s' j = get_item local_storage_backend s j)"
  using local.get_set_stored [OF assms] local.set_stored_other [OF assms(5)] by blast

theorem stored_json_roundtrip_witness:
  "fst (get_stored_json local_storage_backend framing_aead
      (snd (set_stored_json local_storage_backend framing_aead [] sample_store ''k'' (JArr [JNum 7]) sample_security))
      ''k'' Null sample_security None) = JArr [JNum 7]"
proof -
  let ?r = "set_stored_json local_storage_backend framing_aead [] sample_store ''k'' (JArr [JNum 7]) sample_security"
  have set: "?r = (None, snd (set_item local_storage_backend sample_store ''k'' sample_text))"
    by (simp add: set_stored_json_def sample_encrypted sample_encrypts)
  have "\<not> is_envelope (clone_json (JArr [JNum 7]))" by (simp add: is_envelope_def is_index_def is_digit_def)
  moreover have "snd ?r \<noteq> sample_store"
  proof -
    have "get_item local_storage_backend (snd ?r) ''k'' \<noteq> None" by code_simp
    moreover have "get_item local_storage_backend sample_store ''k'' = None" by code_simp
    ultimately show ?thesis by metis
  qed
  ultimately show ?thesis
    using stored_json_roundtrip [OF framing_opens, of "JArr [JNum 7]" "[]" sample_store "''k''" sample_security "snd ?r" Null None]
    by (simp add: set)
qed

text \<open>A stored envelope that cannot be opened (no key in this process, or opening fails) is
  never returned: the caller gets the fallback, and the item is deleted exactly when the caller
  asked for it or, by default, when the messages were only temporary.\<close>

theorem unreadable_envelope_falls_back:
  assumes "get_item local_storage_backend s key = Some raw"
    and "parse_json raw = Some doc" and "is_envelope doc"
    and "has_encrypted_messages security \<Longrightarrow> \<exists>e. decrypt_json A (storage_slot key) raw security = Inl e"
    and "get_stored_json local_storage_backend A s key fallback security clear = (v, s')"
  shows "v = fallback \<and> get_item local_storage_backend s' key
    = (if case clear of Some b \<Rightarrow> b | None \<Rightarrow> has_temporary_encrypted_messages security then None else Some raw)"
proof -
  have "raw \<noteq> []" using assms(2) by (auto simp: parse_json_def skip_space_def)
  then show ?thesis
    using assms(5) assms(1-3) assms(4) local_remove_present [OF assms(1)]
    by (cases "has_encrypted_messages security")
      (auto simp: get_stored_json_def Let_def drop_item_def split: option.splits if_splits)
qed

theorem unreadable_envelope_falls_back_witness:
  "get_item local_storage_backend (snd (get_stored_json local_storage_backend framing_aead
      (With_storage \<lparr>quota = 5000, items = [(''k'', stringify (envelope_doc ''x'' [] []))]\<rparr>) ''k'' Null
      empty_storage_security (Some True))) ''k'' = None"
proof -
  let ?s = "With_storage \<lparr>quota = 5000, items = [(''k'', stringify (envelope_doc ''x'' [] []))]\<rparr>"
  have "get_item local_storage_backend ?s ''k'' = Some (stringify (envelope_doc ''x'' [] []))"
    by (simp add: local_storage_backend_def local_get_item_def get_browser_storage_def)
  from unreadable_envelope_falls_back [OF this parse_stringify [OF json_doc_envelope] is_envelope_doc, of empty_storage_security framing_aead Null "Some True"]
  show ?thesis by (metis has_encrypted_messages_def fallback_unkeyed empty_storage_security_unkeyed option.case(2) prod.collapse)
qed

text \<open>C10: An encrypted item is bound to its storage key: copied to another key it does not
  decrypt there, so the reader gets the fallback. The cipher has to reject foreign associated
  data, as an authenticated cipher does.\<close>

theorem encrypted_item_bound_to_key:
  assumes "binds_slot A" and "has_encrypted_messages security" and "key \<noteq> other"
    and "encrypt_json A nonce (storage_slot key) v security = Inr raw"
    and "get_item local_storage_backend s other = Some raw"
  shows "fst (get_stored_json local_storage_backend A s other fallback security clear) = fallback"
  using decrypt_other_slot [OF assms(1) _ assms(4), of "storage_slot other"] assms(2,3,5)
  by (simp add: get_stored_json_def Let_def)

theorem encrypted_item_bound_to_key_witness:
  "fst (get_stored_json local_storage_backend framing_aead
      (With_storage \<lparr>quota = 5000, items = [(''other'', sample_text)]\<rparr>) ''other'' (JStr ''fallback'') sample_security None)
     = JStr ''fallback''"
  by (rule encrypted_item_bound_to_key [OF framing_binds sample_encrypted _ sample_encrypts])
    (simp_all add: local_storage_backend_def local_get_item_def get_browser_storage_def)

text \<open>The three buckets are independent: saving one of them never changes what loading
  another one returns.\<close>

theorem buckets_independent:
  "fst (load_config_bucket local_storage_backend A
      (snd (save_runtime_cache_bucket local_storage_backend A n s v sec)) f sec')
     = fst (load_config_bucket local_storage_backend A s f sec')
   \<and> fst (load_config_bucket local_storage_backend A
      (snd (save_ui_prefs_bucket local_storage_backend A n s v sec)) f sec')
     = fst (load_config_bucket local_storage_backend A s f sec')
   \<and> fst (load_runtime_cache_bucket local_storage_backend A
      (snd (save_config_bucket local_storage_backend A n s v sec)) f sec')
     = fst (load_runtime_cache_bucket local_storage_backend A s f sec')
   \<and> fst (load_runtime_cache_bucket local_storage_backend A
      (snd (save_ui_prefs_bucket local_storage_backend A n s v sec)) f sec')
     = fst (load_runtime_cache_bucket local_storage_backend A s f sec')
   \<and> fst (load_ui_prefs_bucket local_storage_backend A
      (snd (save_config_bucket local_storage_backend A n s v sec)) f sec')
     = fst (load_ui_prefs_bucket local_storage_backend A s f sec')
   \<and> fst (load_ui_prefs_bucket local_storage_backend A
      (snd (save_runtime_cache_bucket local_storage_backend A n s v sec)) f sec')
     = fst (load_ui_prefs_bucket local_storage_backend A s f sec')"
proof -
  have "get_item local_storage_backend (snd (set_stored_json local_storage_backend A n s k v sec)) j
      = get_item local_storage_backend s j" if "j \<noteq> k" for j k
    using local.set_stored_other that by (metis prod.collapse)
  then show ?thesis
    unfolding load_config_bucket_def load_runtime_cache_bucket_def load_ui_prefs_bucket_def
      save_config_bucket_def save_runtime_cache_bucket_def save_ui_prefs_bucket_def
    by (intro conjI local.get_stored_value_cong) (simp_all add: config_key_def runtime_cache_key_def ui_prefs_key_def)
qed

section \<open>Plain values\<close>

context storage_laws
begin

lemma read_write_json:
  assumes "active_backend m = B" "wf_jval v" "v \<noteq> Undef" "contents (write_json m k v) \<noteq> contents m"
  shows "read_json (write_json m k v) k f = clone_json v"
proof -
  have "get_item B (contents (write_json m k v)) k = Some (stringify v)"
    using assms put_changed [of "contents m" k "stringify v"] by (simp add: write_json_def item_text_def)
  with assms show ?thesis by (simp add: read_json_def write_json_def parse_stringify_clone)
qed

lemma read_other_key:
  "active_backend m = B \<Longrightarrow> j \<noteq> k \<Longrightarrow> read_json (write_json m k v) j f = read_json m j f"
  by (simp add: read_json_def write_json_def get_put_other)

lemma read_removed_other:
  "active_backend m = B \<Longrightarrow> j \<noteq> k \<Longrightarrow> read_json (remove_key m k) j f = read_json m j f"
  by (simp add: read_json_def remove_key_def get_removed_other)

end

end
