(* ===== verification/SaveError.thy ===== *)
theory SaveError
  imports Json Base64
begin

text \<open>
  Explaining a rejected configuration (\<open>save-error.ts\<close>): the scanner that maps a byte offset
  of the posted JSON back to the path of the value there, the search for the objects that lack
  a field, and the message built from both. \<open>Number(s)\<close> of a text that is no decimal numeral
  is \<open>NaN\<close> here; the quotation marks and the arrow of the message lie outside the code units
  modelled and are parameters (\<open>marks\<close>).
\<close>

section \<open>The path at an offset\<close>

record frame =
  fr_array :: bool
  fr_key :: "string option"
  fr_index :: nat

definition frame_segments :: "frame \<Rightarrow> string list" where
  "frame_segments f =
     (if fr_array f then [''['' @ nat_str (fr_index f) @ '']'']
      else case fr_key f of Some k \<Rightarrow> [k] | None \<Rightarrow> [])"

text \<open>The stack is kept with its top first.\<close>

definition current_segments :: "frame list \<Rightarrow> string list" where
  "current_segments stack = concat (map frame_segments (rev stack))"

text \<open>How many characters precede the closing quote (two for an escape, even at the end).\<close>

fun string_end :: "string \<Rightarrow> nat" where
  "string_end [] = 0"
| "string_end [c] = (if c = CHR 0x22 then 0 else if c = CHR 0x5C then 2 else 1)"
| "string_end (c # d # s) =
     (if c = CHR 0x22 then 0
      else if c = CHR 0x5C then 2 + string_end s
      else 1 + string_end (d # s))"

definition key_literal :: "string \<Rightarrow> string option" where
  "key_literal literal = (case parse_json literal of Some v \<Rightarrow> Some (to_str v) | None \<Rightarrow> None)"

definition name_member :: "string \<Rightarrow> string \<Rightarrow> frame list \<Rightarrow> frame list" where
  "name_member literal rest stack =
     (let ahead = dropWhile is_space rest in
      case stack of
        f # fs \<Rightarrow>
          (if ahead \<noteq> [] \<and> hd ahead = CHR '':'' \<and> \<not> fr_array f
           then f\<lparr>fr_key := key_literal literal\<rparr> # fs else stack)
      | [] \<Rightarrow> [])"

definition next_element :: "frame list \<Rightarrow> frame list" where
  "next_element stack =
     (case stack of
        f # fs \<Rightarrow> (if fr_array f then f\<lparr>fr_index := fr_index f + 1\<rparr> else f\<lparr>fr_key := None\<rparr>) # fs
      | [] \<Rightarrow> [])"

text \<open>\<open>s\<close> is the text from position \<open>index\<close> on.\<close>

function scan_path :: "nat \<Rightarrow> string \<Rightarrow> nat \<Rightarrow> frame list \<Rightarrow> string list" where
  "scan_path offset [] index stack = current_segments stack"
| "scan_path offset (c # s) index stack =
     (if offset < index then current_segments stack
      else if c = CHR 0x22 then
        (let n = string_end s + 1
         in scan_path offset (drop n s) (index + 1 + n) (name_member (c # take n s) (drop n s) stack))
      else if c = CHR ''{'' \<or> c = CHR ''['' then
        scan_path offset s (index + 1) (\<lparr>fr_array = (c = CHR ''[''), fr_key = None, fr_index = 0\<rparr> # stack)
      else if c = CHR ''}'' \<or> c = CHR '']'' then
        (if offset \<le> index then current_segments (tl stack)
         else scan_path offset s (index + 1) (tl stack))
      else if c = CHR '','' then scan_path offset s (index + 1) (next_element stack)
      else scan_path offset s (index + 1) stack)"
  by pat_completeness auto
termination by (relation "measure (\<lambda>(offset, s, index, stack). length s)") auto

definition json_path_at_offset :: "string \<Rightarrow> nat \<Rightarrow> string list" where
  "json_path_at_offset json offset = scan_path offset json 0 []"

section \<open>Values and schema\<close>

definition number_name :: "string \<Rightarrow> string" where
  "number_name s = (let t = js_trim s in
     if t = [] then ''0'' else if list_all is_digit t then nat_str (str_nat t) else ''NaN'')"

definition inner_text :: "string \<Rightarrow> string" where
  "inner_text segment = butlast (tl segment)"

definition value_step :: "jval \<Rightarrow> string \<Rightarrow> jval" where
  "value_step current segment =
     (if \<not> is_object current then Undef
      else if starts_with ''['' segment then jget current (number_name (inner_text segment))
      else jget current segment)"

definition value_at_path :: "jval \<Rightarrow> string list \<Rightarrow> jval" where
  "value_at_path root segments = foldl value_step root segments"

type_synonym owners = "(string \<times> string list list) list"

definition owners_of :: "owners \<Rightarrow> string \<Rightarrow> string list list option" where
  "owners_of ow field = map_of ow field"

definition register_definition :: "jval \<Rightarrow> owners \<Rightarrow> owners" where
  "register_definition d ow =
     (case (jget d ''required'', jget d ''properties'') of
        (JArr required, properties) \<Rightarrow>
          (if \<not> truthy properties then ow
           else let names = map fst (obj_entries properties)
                in fold (\<lambda>field o1. oput (to_str field)
                     ((case owners_of o1 (to_str field) of Some es \<Rightarrow> es | None \<Rightarrow> []) @ [names]) o1) required ow)
      | _ \<Rightarrow> ow)"

definition register_config_schema :: "jval \<Rightarrow> owners" where
  "register_config_schema schema =
     fold register_definition (map snd (obj_entries (js_or (jget schema ''$defs'') (JObj [])))) []"

definition could_require_field :: "owners \<Rightarrow> obj \<Rightarrow> string \<Rightarrow> bool" where
  "could_require_field ow r field =
     (case owners_of ow field of
        None \<Rightarrow> ow = []
      | Some sets \<Rightarrow>
          (let keys = own_keys r in
           keys \<noteq> [] \<and> list_ex (\<lambda>names. list_all (\<lambda>k. List.member names k) keys) sets))"

record search =
  sr_found :: "string list list"
  sr_deepest :: int

definition note_record :: "owners \<Rightarrow> string \<Rightarrow> obj \<Rightarrow> string list \<Rightarrow> search \<Rightarrow> search" where
  "note_record ow field r path st =
     (if \<not> ohas r field \<and> could_require_field ow r field then
        (let st1 = (if int (length path) > sr_deepest st
                    then \<lparr>sr_found = [], sr_deepest = int (length path)\<rparr> else st)
         in if int (length path) = sr_deepest st1 then st1\<lparr>sr_found := sr_found st1 @ [path]\<rparr> else st1)
      else st)"

function visit :: "owners \<Rightarrow> string \<Rightarrow> jval \<Rightarrow> string list \<Rightarrow> search \<Rightarrow> search" where
  "visit ow field (JArr xs) path st =
     fold (\<lambda>(i, x) s. visit ow field x (path @ [''['' @ nat_str i @ '']'']) s) (zip [0..<length xs] xs) st"
| "visit ow field (JObj es) path st =
     fold (\<lambda>(k, v) s. visit ow field v (path @ [k]) s) (own_entries es) (note_record ow field es path st)"
| "visit ow field Undef path st = st"
| "visit ow field Null path st = st"
| "visit ow field (JBool b) path st = st"
| "visit ow field (JNum n) path st = st"
| "visit ow field (JStr s) path st = st"
  by pat_completeness auto
termination
  by (relation "measure (\<lambda>(ow, field, v, path, st). size v)")
    (auto simp: less_Suc_eq_le dest!: set_zip_rightD intro: size_list_estimation')

definition deepest_paths_missing_field :: "owners \<Rightarrow> jval \<Rightarrow> string \<Rightarrow> string list list" where
  "deepest_paths_missing_field ow root field =
     take 2 (sr_found (visit ow field root [] \<lparr>sr_found = [], sr_deepest = -1\<rparr>))"

section \<open>The message\<close>

record marks =
  mk_open :: string
  mk_close :: string
  mk_arrow :: string

definition append_segment :: "marks \<Rightarrow> string \<Rightarrow> string \<Rightarrow> string" where
  "append_segment m joined segment =
     (if starts_with ''['' segment then joined @ segment
      else if joined \<noteq> [] then joined @ '' '' @ mk_arrow m @ '' '' @ segment
      else segment)"

definition format_segments :: "marks \<Rightarrow> string list \<Rightarrow> string" where
  "format_segments m segments = foldl (append_segment m) [] segments"

definition is_position :: "string \<Rightarrow> bool" where
  "is_position s \<longleftrightarrow> starts_with ''['' s \<and> ends_with '']'' s \<and> length s \<ge> 3
     \<and> list_all is_digit (inner_text s)"

definition named_location :: "marks \<Rightarrow> string \<Rightarrow> string \<Rightarrow> string \<Rightarrow> string list \<Rightarrow> string" where
  "named_location m singular name fallback rest =
     format_segments m ((if name \<noteq> [] then singular @ '' '' @ mk_open m @ name @ mk_close m else fallback) # rest)"

definition describe_location :: "marks \<Rightarrow> string list \<Rightarrow> jval \<Rightarrow> string" where
  "describe_location m segments config =
     (case segments of
        [] \<Rightarrow> ''the configuration''
      | [section] \<Rightarrow> format_segments m segments
      | section # selector # rest \<Rightarrow>
          (if (section = ''consumers'' \<or> section = ''publishers'') \<and> is_position selector then
             (let position = str_nat (inner_text selector);
                  entry = value_at_path config [section, selector];
                  singular = (if section = ''consumers'' then ''consumer'' else ''publisher'')
              in named_location m singular
                   (js_trim (to_str (js_or (js_or (jget entry ''name'') (jget entry ''id'')) (JStr []))))
                   (singular @ '' '' @ nat_str (position + 1)) rest)
           else if section = ''routes'' \<and> selector \<noteq> [] then named_location m ''route'' selector ''route'' rest
           else format_segments m segments))"

text \<open>Code units below 256 take one byte below 128 and two above.\<close>

fun utf16_index :: "string \<Rightarrow> int \<Rightarrow> nat" where
  "utf16_index [] bytes = 0"
| "utf16_index (c # s) bytes =
     (if bytes \<le> 0 then 0
      else 1 + utf16_index s (bytes - (if (of_char c :: nat) < 128 then 1 else 2)))"

definition utf16_index_for_byte_offset :: "string \<Rightarrow> int \<Rightarrow> nat" where
  "utf16_index_for_byte_offset json byte_offset = utf16_index json byte_offset"

text \<open>The first occurrence of \<open>pat\<close>: what precedes it and what follows it.\<close>

fun find_text :: "string \<Rightarrow> string \<Rightarrow> (string \<times> string) option" where
  "find_text pat [] = (if pat = [] then Some ([], []) else None)"
| "find_text pat (c # s) =
     (if starts_with pat (c # s) then Some ([], drop (length pat) (c # s))
      else map_option (\<lambda>(a, b). (c # a, b)) (find_text pat s))"

definition cut_excerpt :: "string \<Rightarrow> string" where
  "cut_excerpt s = (case find_text ''At: ...'' s of Some (a, b) \<Rightarrow> drop_trailing is_space a | None \<Rightarrow> s)"

text \<open>\<open>at line (\d+) column (\d+)\<close> at the start of a text, with what follows.\<close>

definition location_here :: "string \<Rightarrow> (string \<times> string \<times> string) option" where
  "location_here s =
     (if \<not> starts_with ''at line '' s then None
      else let t = drop 8 s; d1 = takeWhile is_digit t; r = dropWhile is_digit t in
        if d1 = [] \<or> \<not> starts_with '' column '' r then None
        else let u = drop 8 r; d2 = takeWhile is_digit u in
          if d2 = [] then None else Some (d1, d2, dropWhile is_digit u))"

fun find_location :: "string \<Rightarrow> (string \<times> string \<times> string \<times> string) option" where
  "find_location [] = None"
| "find_location (c # s) =
     (case location_here (c # s) of
        Some (d1, d2, rest) \<Rightarrow> Some ([], d1, d2, rest)
      | None \<Rightarrow> map_option (\<lambda>(a, q). (c # a, q)) (find_location s))"

definition drop_deserialize_prefix :: "string \<Rightarrow> string" where
  "drop_deserialize_prefix s =
     (if to_lower (take 23 s) = ''json deserialize error:'' then trim_start (drop 23 s) else s)"

fun missing_field :: "string \<Rightarrow> string option" where
  "missing_field [] = None"
| "missing_field (c # s) =
     (let t = drop 15 (c # s); name = takeWhile (\<lambda>d. d \<noteq> CHR 0x60) t in
      if starts_with ''missing field `'' (c # s) \<and> name \<noteq> [] \<and> length name < length t
      then Some name else missing_field s)"

definition explain_config_save_error :: "marks \<Rightarrow> owners \<Rightarrow> string \<Rightarrow> string \<Rightarrow> string" where
  "explain_config_save_error m ow raw_message body =
     (let message = js_trim (cut_excerpt raw_message) in
      case find_location message of
        None \<Rightarrow> message
      | Some (ahead, line, column, rest) \<Rightarrow>
          (if str_nat line \<noteq> 1 then message
           else case parse_json body of
             None \<Rightarrow> message
           | Some config \<Rightarrow>
               (let detail = js_trim (drop_deserialize_prefix (drop_trailing is_space ahead @ rest));
                    segments = json_path_at_offset body (utf16_index_for_byte_offset body (int (str_nat column) - 1));
                    paths = (case missing_field detail of
                        Some field \<Rightarrow> map (\<lambda>suffix. segments @ suffix)
                          (deepest_paths_missing_field ow (value_at_path config segments) field)
                      | None \<Rightarrow> [segments]);
                    described = join '' or '' (map (\<lambda>path. describe_location m path config)
                      (if 0 < length paths then paths else [segments]))
                in described @ '': '' @ detail)))"

section \<open>The scanner finds the value\<close>

datatype path_step = Elem nat | Member string

fun step_text :: "path_step \<Rightarrow> string" where
  "step_text (Elem i) = ''['' @ nat_str i @ '']''"
| "step_text (Member k) = k"

definition elem_texts :: "jval list \<Rightarrow> string" where
  "elem_texts xs = concat (map (\<lambda>x. stringify x @ '','') xs)"

definition member_texts :: "obj \<Rightarrow> string" where
  "member_texts es = concat (map (\<lambda>e. member_text e @ '','') es)"

text \<open>Where the text of the value at a path ends (its last character), in \<open>stringify v\<close>.\<close>

fun end_offset :: "jval \<Rightarrow> path_step list \<Rightarrow> nat option" where
  "end_offset v [] = Some (length (stringify v) - 1)"
| "end_offset (JArr xs) (Elem k # p) =
     (if k < length xs
      then map_option (\<lambda>q. 1 + length (elem_texts (take k xs)) + q) (end_offset (xs ! k) p) else None)"
| "end_offset (JObj es) (Member k # p) =
     (case map_of es k of
        Some v \<Rightarrow> map_option (\<lambda>q. 1 + length (member_texts (takeWhile (\<lambda>e. fst e \<noteq> k) es))
           + (length (quote_string k) + 1) + q) (end_offset v p)
      | None \<Rightarrow> None)"
| "end_offset v p = None"

definition follows :: "string \<Rightarrow> bool" where
  "follows r \<longleftrightarrow> (case r of [] \<Rightarrow> True | c # t \<Rightarrow> c \<in> {CHR '','', CHR '']'', CHR ''}''})"

lemma follows_simps [simp]: "follows []" "follows (CHR '','' # r)" "follows (CHR '']'' # r)" "follows (CHR ''}'' # r)"
  by (simp_all add: follows_def)

lemma scan_past: "offset < i \<Longrightarrow> scan_path offset r i st = current_segments st"
  by (cases r) simp_all

definition plain_char :: "char \<Rightarrow> bool" where
  "plain_char c \<longleftrightarrow> c \<notin> {CHR 0x22, CHR ''{'', CHR ''['', CHR ''}'', CHR '']'', CHR '',''}"

lemma scan_plain:
  "\<forall>c \<in> set t. plain_char c \<Longrightarrow> i + length t \<le> Suc offset
   \<Longrightarrow> scan_path offset (t @ r) i st = scan_path offset r (i + length t) st"
  by (induction t arbitrary: i) (auto simp: plain_char_def)

lemma string_end_plain: "c \<noteq> CHR 0x22 \<Longrightarrow> c \<noteq> CHR 0x5C \<Longrightarrow> string_end (c # s) = 1 + string_end s"
  by (cases s) auto

lemma hex_lower_plain: "n < 16 \<Longrightarrow> hex_lower n \<noteq> CHR 0x22 \<and> hex_lower n \<noteq> CHR 0x5C"
  using hex_lower_inverse [of n] by (auto simp: hex_of_def)

lemma string_end_escape: "string_end (escape_char c @ s) = length (escape_char c) + string_end s"
proof -
  define n where "n = (of_char c :: nat)"
  have n: "n < 256" by (simp add: n_def)
  have "n \<noteq> 34 \<Longrightarrow> n \<noteq> 92 \<Longrightarrow> c \<noteq> CHR 0x22 \<and> c \<noteq> CHR 0x5C" by (auto simp: n_def)
  moreover have "n < 32 \<Longrightarrow> hex_lower (n div 16) \<noteq> CHR 0x22 \<and> hex_lower (n div 16) \<noteq> CHR 0x5C"
    by (rule hex_lower_plain) simp
  moreover have "hex_lower (n mod 16) \<noteq> CHR 0x22 \<and> hex_lower (n mod 16) \<noteq> CHR 0x5C"
    by (rule hex_lower_plain) simp
  ultimately show ?thesis
    unfolding escape_char_def n_def [symmetric] Let_def by (auto simp: string_end_plain)
qed

lemma string_end_quoted: "string_end (concat (map escape_char s) @ CHR 0x22 # r) = length (concat (map escape_char s))"
proof (induction s)
  case Nil
  show ?case by (cases r) auto
next
  case (Cons c s)
  then show ?case by (simp add: string_end_escape)
qed

lemma scan_string:
  assumes "i \<le> offset"
  shows "scan_path offset (quote_string s @ r) i st
    = scan_path offset r (i + length (quote_string s)) (name_member (quote_string s) r st)"
proof -
  let ?e = "concat (map escape_char s)"
  have "drop (length ?e + 1) (?e @ CHR 0x22 # r) = r" by simp
  moreover have "take (length ?e + 1) (?e @ CHR 0x22 # r) = ?e @ [CHR 0x22]" by simp
  ultimately show ?thesis
    using assms string_end_quoted [of s r] by (simp add: quote_string_def Let_def)
qed

lemma name_member_value: "follows r \<Longrightarrow> name_member l r st = st"
  by (cases r; cases st) (auto simp: follows_def name_member_def is_space_def Let_def)

lemma key_literal_quote: "key_literal (quote_string k) = Some k"
  using parse_stringify [of "JStr k"] by (simp add: key_literal_def json_doc_def)

lemma name_member_key:
  "\<not> fr_array f \<Longrightarrow> name_member (quote_string k) (CHR '':'' # r) (f # st) = f\<lparr>fr_key := Some k\<rparr> # st"
  by (simp add: name_member_def is_space_def key_literal_quote)

abbreviation arr_frame :: "nat \<Rightarrow> frame" where
  "arr_frame n \<equiv> \<lparr>fr_array = True, fr_key = None, fr_index = n\<rparr>"

abbreviation obj_frame :: "string option \<Rightarrow> frame" where
  "obj_frame k \<equiv> \<lparr>fr_array = False, fr_key = k, fr_index = 0\<rparr>"

definition scans :: "nat \<Rightarrow> jval \<Rightarrow> bool" where
  "scans offset v \<longleftrightarrow> (\<forall>i r st. i + length (stringify v) \<le> Suc offset \<longrightarrow> follows r \<longrightarrow>
     scan_path offset (stringify v @ r) i st = scan_path offset r (i + length (stringify v)) st
     \<or> (i + length (stringify v) = Suc offset \<and> scan_path offset (stringify v @ r) i st = current_segments st))"

lemma scansD: "scans offset v \<Longrightarrow> i + length (stringify v) \<le> offset \<Longrightarrow> follows r
  \<Longrightarrow> scan_path offset (stringify v @ r) i st = scan_path offset r (i + length (stringify v)) st"
  by (force simp: scans_def)

lemma scan_elems:
  "(\<And>x. x \<in> set xs \<Longrightarrow> scans offset x) \<Longrightarrow> i + length (elem_texts xs) \<le> offset
   \<Longrightarrow> scan_path offset (elem_texts xs @ r) i (arr_frame n # st)
     = scan_path offset r (i + length (elem_texts xs)) (arr_frame (n + length xs) # st)"
proof (induction xs arbitrary: i n)
  case Nil
  then show ?case by (simp add: elem_texts_def)
next
  case (Cons x xs)
  have e: "elem_texts (x # xs) = stringify x @ CHR '','' # elem_texts xs" by (simp add: elem_texts_def)
  have "scan_path offset (stringify x @ CHR '','' # elem_texts xs @ r) i (arr_frame n # st)
    = scan_path offset (CHR '','' # elem_texts xs @ r) (i + length (stringify x)) (arr_frame n # st)"
    by (rule scansD) (use Cons.prems e in auto)
  also have "\<dots> = scan_path offset (elem_texts xs @ r) (i + length (stringify x) + 1) (arr_frame (n + 1) # st)"
    using Cons.prems(2) e by (simp add: next_element_def)
  also have "\<dots> = scan_path offset r (i + length (stringify x) + 1 + length (elem_texts xs)) (arr_frame (n + 1 + length xs) # st)"
    by (rule Cons.IH) (use Cons.prems e in auto)
  finally show ?case by (simp add: e algebra_simps)
qed

lemma scan_key:
  "i + length (quote_string k) \<le> offset
   \<Longrightarrow> scan_path offset (quote_string k @ CHR '':'' # r) i (obj_frame None # st)
     = scan_path offset r (i + (length (quote_string k) + 1)) (obj_frame (Some k) # st)"
  by (subst scan_string) (auto simp: name_member_key)

lemma scan_members:
  "(\<And>e. e \<in> set es \<Longrightarrow> scans offset (snd e)) \<Longrightarrow> i + length (member_texts es) \<le> offset
   \<Longrightarrow> scan_path offset (member_texts es @ r) i (obj_frame None # st)
     = scan_path offset r (i + length (member_texts es)) (obj_frame None # st)"
proof (induction es arbitrary: i)
  case Nil
  then show ?case by (simp add: member_texts_def)
next
  case (Cons e es)
  have t: "member_texts (e # es) = quote_string (fst e) @ CHR '':'' # stringify (snd e) @ CHR '','' # member_texts es"
    by (simp add: member_texts_def)
  let ?k = "length (quote_string (fst e)) + 1" and ?v = "length (stringify (snd e))"
  have "scan_path offset (member_texts (e # es) @ r) i (obj_frame None # st)
    = scan_path offset (stringify (snd e) @ CHR '','' # member_texts es @ r) (i + ?k) (obj_frame (Some (fst e)) # st)"
    unfolding t using Cons.prems(2) t by (simp add: scan_key)
  also have "\<dots> = scan_path offset (CHR '','' # member_texts es @ r) (i + ?k + ?v) (obj_frame (Some (fst e)) # st)"
    by (rule scansD) (use Cons.prems t in auto)
  also have "\<dots> = scan_path offset (member_texts es @ r) (i + ?k + ?v + 1) (obj_frame None # st)"
    using Cons.prems(2) t by (simp add: next_element_def)
  also have "\<dots> = scan_path offset r (i + ?k + ?v + 1 + length (member_texts es)) (obj_frame None # st)"
    by (rule Cons.IH) (use Cons.prems t in auto)
  finally show ?case by (simp add: t algebra_simps)
qed


lemma join_snoc: "join '','' (map f (ys @ [x])) = concat (map (\<lambda>y. f y @ '','') ys) @ f x"
proof (induction ys)
  case Nil
  show ?case by simp
next
  case (Cons y ys)
  then show ?case by (simp add: join_Cons_ne)
qed

lemma stringify_elems: "stringify (JArr (ys @ [x])) = CHR ''['' # elem_texts ys @ stringify x @ '']''"
  using join_snoc [of stringify ys x] by (simp add: elem_texts_def)

lemma stringify_members:
  "json_doc (JObj (es @ [e])) \<Longrightarrow> stringify (JObj (es @ [e])) = CHR ''{'' # member_texts es @ member_text e @ ''}''"
  unfolding stringify_doc_obj member_texts_def join_snoc by simp

lemma scan_close:
  assumes "c = CHR '']'' \<or> c = CHR ''}''" "j \<le> offset"
  shows "scan_path offset (c # r) j (f # st) = scan_path offset r (Suc j) st
    \<or> (j = offset \<and> scan_path offset (c # r) j (f # st) = current_segments st)"
  using assms by auto

lemma int_str_plain: "c \<in> set (int_str n) \<Longrightarrow> plain_char c"
  using nat_str_digits [of c] by (auto simp: int_str_def plain_char_def is_digit_def split: if_splits)

lemma scans_plain: "(\<And>c. c \<in> set (stringify v) \<Longrightarrow> plain_char c) \<Longrightarrow> scans offset v"
  unfolding scans_def using scan_plain by blast

lemma scans_doc: "json_doc v \<Longrightarrow> scans offset v"
proof (induction v rule: clone_json.induct [case_names Arr Obj Undefined Nul Bool Num Str])
  case (Arr xs)
  show ?case
  proof (cases xs rule: rev_cases)
    case Nil
    then show ?thesis unfolding scans_def by auto
  next
    case (snoc ys x)
    have IH: "scans offset y" if "y \<in> set xs" for y
      using Arr json_doc_elems [OF Arr.prems that] that by (auto simp: json_doc_def)
    show ?thesis
      unfolding scans_def
    proof (intro allI impI)
      fix i r st assume len: "i + length (stringify (JArr xs)) \<le> Suc offset" and r: "follows r"
      note t = stringify_elems [of ys x, folded snoc]
      let ?a = "length (elem_texts ys)" and ?x = "length (stringify x)"
      have l: "length (stringify (JArr xs)) = ?a + ?x + 2" unfolding t by simp
      have "scan_path offset (stringify (JArr xs) @ r) i st
        = scan_path offset (elem_texts ys @ stringify x @ CHR '']'' # r) (Suc i) (arr_frame 0 # st)"
        unfolding t using len l by simp
      also have "\<dots> = scan_path offset (stringify x @ CHR '']'' # r) (Suc i + ?a) (arr_frame (0 + length ys) # st)"
        by (rule scan_elems) (use IH snoc len l in auto)
      also have "\<dots> = scan_path offset (CHR '']'' # r) (Suc i + ?a + ?x) (arr_frame (0 + length ys) # st)"
        by (rule scansD) (use IH snoc len l in auto)
      finally have "scan_path offset (stringify (JArr xs) @ r) i st
        = scan_path offset (CHR '']'' # r) (Suc i + ?a + ?x) (arr_frame (0 + length ys) # st)" .
      moreover have idx: "i + length (stringify (JArr xs)) = Suc (Suc i + ?a + ?x)" using l by simp
      ultimately show "scan_path offset (stringify (JArr xs) @ r) i st = scan_path offset r (i + length (stringify (JArr xs))) st
        \<or> (i + length (stringify (JArr xs)) = Suc offset \<and> scan_path offset (stringify (JArr xs) @ r) i st = current_segments st)"
        unfolding idx nat.inject by (simp only:) (rule scan_close; use len idx in simp)
    qed
  qed
next
  case (Obj es)
  show ?case
  proof (cases es rule: rev_cases)
    case Nil
    then show ?thesis unfolding scans_def by auto
  next
    case (snoc fs e)
    have IH: "scans offset (snd d)" if "d \<in> set es" for d
      by (rule Obj.IH [OF that, of "fst d" "snd d"]) (simp_all add: json_doc_members [OF Obj.prems that])
    show ?thesis
      unfolding scans_def
    proof (intro allI impI)
      fix i r st assume len: "i + length (stringify (JObj es)) \<le> Suc offset" and r: "follows r"
      note t = stringify_members [of fs e, folded snoc, OF Obj.prems]
      let ?a = "length (member_texts fs)" and ?k = "length (quote_string (fst e)) + 1" and ?x = "length (stringify (snd e))"
      have l: "length (stringify (JObj es)) = ?a + ?k + ?x + 2" unfolding t by simp
      from len l have b: "Suc i + ?a + ?k + ?x \<le> offset" by linarith
      from IH snoc have ih: "\<And>d. d \<in> set fs \<Longrightarrow> scans offset (snd d)" "scans offset (snd e)" by auto
      have "scan_path offset (stringify (JObj es) @ r) i st
        = scan_path offset (member_texts fs @ quote_string (fst e) @ CHR '':'' # stringify (snd e) @ CHR ''}'' # r) (Suc i) (obj_frame None # st)"
        unfolding t using b by simp
      also have "\<dots> = scan_path offset (quote_string (fst e) @ CHR '':'' # stringify (snd e) @ CHR ''}'' # r) (Suc i + ?a) (obj_frame None # st)"
        by (rule scan_members) (use ih b in simp_all)
      also have "\<dots> = scan_path offset (stringify (snd e) @ CHR ''}'' # r) (Suc i + ?a + ?k) (obj_frame (Some (fst e)) # st)"
        by (rule scan_key) (use b in simp)
      also have "\<dots> = scan_path offset (CHR ''}'' # r) (Suc i + ?a + ?k + ?x) (obj_frame (Some (fst e)) # st)"
        by (rule scansD) (use ih b in simp_all)
      finally have "scan_path offset (stringify (JObj es) @ r) i st
        = scan_path offset (CHR ''}'' # r) (Suc i + ?a + ?k + ?x) (obj_frame (Some (fst e)) # st)" .
      moreover have idx: "i + length (stringify (JObj es)) = Suc (Suc i + ?a + ?k + ?x)" using l by simp
      ultimately show "scan_path offset (stringify (JObj es) @ r) i st = scan_path offset r (i + length (stringify (JObj es))) st
        \<or> (i + length (stringify (JObj es)) = Suc offset \<and> scan_path offset (stringify (JObj es) @ r) i st = current_segments st)"
        unfolding idx nat.inject by (simp only:) (rule scan_close; use b in simp)
    qed
  qed
next
  case (Str s)
  have "scan_path offset (quote_string s @ r) i st = scan_path offset r (i + length (quote_string s)) st"
    if "i + length (quote_string s) \<le> Suc offset" "follows r" for i r st
  proof -
    have "i \<le> offset" using that by (simp add: quote_string_def)
    then show ?thesis using that by (simp only: scan_string name_member_value)
  qed
  then show ?case unfolding scans_def stringify.simps by blast
next
  case (Num n)
  show ?case by (rule scans_plain) (simp add: int_str_plain)
qed (rule scans_plain; auto simp: plain_char_def split: if_splits)+

lemma elem_split:
  assumes k: "k < length xs"
  shows "\<exists>r'. follows r' \<and> stringify (JArr xs) @ r = CHR ''['' # elem_texts (take k xs) @ stringify (xs ! k) @ r'"
proof -
  obtain ys x where xs: "xs = ys @ [x]" using k by (cases xs rule: rev_cases) auto
  show ?thesis
  proof (cases "k = length ys")
    case True
    then show ?thesis unfolding xs stringify_elems by (auto intro!: exI [of _ "CHR '']'' # r"])
  next
    case False
    with k xs have kl: "k < length ys" by simp
    have "elem_texts ys = elem_texts (take k ys) @ stringify (ys ! k) @ CHR '','' # elem_texts (drop (Suc k) ys)"
      using id_take_nth_drop [OF kl] unfolding elem_texts_def by (metis (no_types, lifting) append.assoc append_Cons append_Nil concat.simps(2) concat_append list.simps(9) map_append)
    with kl show ?thesis unfolding xs stringify_elems
      by (auto simp: nth_append intro!: exI [of _ "CHR '','' # elem_texts (drop (Suc k) ys) @ stringify x @ CHR '']'' # r"])
  qed
qed

lemma member_split:
  assumes d: "json_doc (JObj es)" and v: "map_of es k = Some v"
  shows "json_doc v" and "\<exists>r'. follows r' \<and> stringify (JObj es) @ r
     = CHR ''{'' # member_texts (takeWhile (\<lambda>e. fst e \<noteq> k) es) @ quote_string k @ CHR '':'' # stringify v @ r'"
proof -
  define as where "as = takeWhile (\<lambda>e. fst e \<noteq> k) es"
  obtain bs where es: "es = as @ (k, v) # bs"
  proof -
    have "dropWhile (\<lambda>e. fst e \<noteq> k) es \<noteq> []" using map_of_SomeD [OF v] by (force simp: dropWhile_eq_Nil_conv)
    then obtain e bs where d: "dropWhile (\<lambda>e. fst e \<noteq> k) es = e # bs" by (cases "dropWhile (\<lambda>e. fst e \<noteq> k) es") auto
    then have "fst e = k" using hd_dropWhile [of "\<lambda>e. fst e \<noteq> k" es] by simp
    moreover have e: "es = as @ e # bs" unfolding as_def using d takeWhile_dropWhile_id [of "\<lambda>e. fst e \<noteq> k" es] by simp
    moreover have "k \<notin> fst ` set as" unfolding as_def by (auto dest: set_takeWhileD)
    ultimately have "snd e = v" using v by (cases e) (auto simp: map_add_def dest!: map_of_SomeD split: option.splits, force)
    with e \<open>fst e = k\<close> show thesis using that by (cases e) auto
  qed
  show "json_doc v" using json_doc_members [OF d, of "(k, v)"] es by simp
  have "\<exists>r'. follows r' \<and> stringify (JObj es) @ r
     = CHR ''{'' # member_texts as @ quote_string k @ CHR '':'' # stringify v @ r'"
  proof (cases bs rule: rev_cases)
    case Nil
    then show ?thesis using d unfolding es Nil by (subst stringify_members) (auto intro!: exI [of _ "CHR ''}'' # r"])
  next
    case (snoc cs e)
    have "member_texts (as @ (k, v) # cs) = member_texts as @ quote_string k @ CHR '':'' # stringify v @ CHR '','' # member_texts cs"
      by (simp add: member_texts_def)
    with d show ?thesis unfolding es snoc
      using stringify_members [of "as @ (k, v) # cs" e] by (auto simp del: stringify.simps intro!: exI [of _ "CHR '','' # member_texts cs @ member_text e @ CHR ''}'' # r"])
  qed
  then show "\<exists>r'. follows r' \<and> stringify (JObj es) @ r
     = CHR ''{'' # member_texts (takeWhile (\<lambda>e. fst e \<noteq> k) es) @ quote_string k @ CHR '':'' # stringify v @ r'"
    unfolding as_def .
qed

lemma scan_inside:
  "json_doc v \<Longrightarrow> end_offset v p = Some q \<Longrightarrow> follows r
   \<Longrightarrow> scan_path (i + q) (stringify v @ r) i st = current_segments st @ map step_text p"
proof (induction v p arbitrary: q r i st rule: end_offset.induct)
  case (1 v)
  obtain c t where c: "stringify v = c # t" using stringify_start [of v] by blast
  then have len: "i + length (stringify v) = Suc (i + q)" using "1.prems"(2) by simp
  with scans_doc [OF "1.prems"(1), of "i + q"] "1.prems"(3)
  have "scan_path (i + q) (stringify v @ r) i st = scan_path (i + q) r (Suc (i + q)) st
      \<or> scan_path (i + q) (stringify v @ r) i st = current_segments st"
    unfolding scans_def by (metis order_refl)
  then show ?case by (auto simp: scan_past)
next
  case (2 xs k p)
  from "2.prems"(2) obtain u where k: "k < length xs" and u: "end_offset (xs ! k) p = Some u"
    and q: "q = 1 + length (elem_texts (take k xs)) + u"
    by (auto split: if_splits)
  have doc: "json_doc (xs ! k)" by (rule json_doc_elems [OF "2.prems"(1)]) (simp add: k)
  obtain r' where r': "follows r'"
    and t: "stringify (JArr xs) @ r = CHR ''['' # elem_texts (take k xs) @ stringify (xs ! k) @ r'" using elem_split [OF k] by blast
  let ?a = "length (elem_texts (take k xs))"
  have "scan_path (i + q) (stringify (JArr xs) @ r) i st
    = scan_path (i + q) (elem_texts (take k xs) @ stringify (xs ! k) @ r') (Suc i) (arr_frame 0 # st)"
    unfolding t using q by simp
  also have "\<dots> = scan_path (i + q) (stringify (xs ! k) @ r') (Suc i + ?a) (arr_frame (0 + length (take k xs)) # st)"
    by (rule scan_elems) (use q in \<open>auto intro!: scans_doc json_doc_elems [OF "2.prems"(1)] dest: in_set_takeD\<close>)
  also have "\<dots> = scan_path (Suc i + ?a + u) (stringify (xs ! k) @ r') (Suc i + ?a) (arr_frame k # st)"
    using k q by (simp add: add.assoc)
  also have "\<dots> = current_segments (arr_frame k # st) @ map step_text p"
    by (rule "2.IH" [OF k doc u r'])
  finally show ?case by (simp add: current_segments_def frame_segments_def)
next
  case (3 es k p)
  from "3.prems"(2) obtain v u where v: "map_of es k = Some v" and u: "end_offset v p = Some u"
    and q: "q = 1 + length (member_texts (takeWhile (\<lambda>e. fst e \<noteq> k) es)) + (length (quote_string k) + 1) + u"
    by (auto split: option.splits)
  define as where "as = takeWhile (\<lambda>e. fst e \<noteq> k) es"
  have as: "set as \<subseteq> set es" unfolding as_def by (auto dest: set_takeWhileD)
  have doc: "json_doc v" by (rule member_split [OF "3.prems"(1) v])
  obtain r' where r': "follows r'"
    and t: "stringify (JObj es) @ r = CHR ''{'' # member_texts as @ quote_string k @ CHR '':'' # stringify v @ r'" using member_split(2) [OF "3.prems"(1) v] unfolding as_def by blast
  let ?a = "length (member_texts as)" and ?k = "length (quote_string k) + 1"
  have q': "q = 1 + ?a + ?k + u" using q by (simp add: as_def)
  have "scan_path (i + q) (stringify (JObj es) @ r) i st
    = scan_path (i + q) (member_texts as @ quote_string k @ CHR '':'' # stringify v @ r') (Suc i) (obj_frame None # st)"
    unfolding t using q' by simp
  also have "\<dots> = scan_path (i + q) (quote_string k @ CHR '':'' # stringify v @ r') (Suc i + ?a) (obj_frame None # st)"
    by (rule scan_members) (use q' as in \<open>auto intro!: scans_doc json_doc_members [OF "3.prems"(1)]\<close>)
  also have "\<dots> = scan_path (i + q) (stringify v @ r') (Suc i + ?a + ?k) (obj_frame (Some k) # st)"
    by (rule scan_key) (use q' in simp)
  also have "\<dots> = scan_path (Suc i + ?a + ?k + u) (stringify v @ r') (Suc i + ?a + ?k) (obj_frame (Some k) # st)"
    using q' by (simp add: add.assoc)
  also have "\<dots> = current_segments (obj_frame (Some k) # st) @ map step_text p"
    by (rule "3.IH" [OF v doc u r'])
  finally show ?case by (simp add: current_segments_def frame_segments_def)
qed auto

lemma end_offset_less: "json_doc v \<Longrightarrow> end_offset v p = Some q \<Longrightarrow> q < length (stringify v)"
proof (induction v p arbitrary: q rule: end_offset.induct)
  case (1 v)
  then show ?case using stringify_start [of v] by auto
next
  case (2 xs k p)
  from "2.prems"(2) obtain u where k: "k < length xs" and u: "end_offset (xs ! k) p = Some u"
    and q: "q = 1 + length (elem_texts (take k xs)) + u"
    by (auto split: if_splits)
  have "u < length (stringify (xs ! k))"
    by (rule "2.IH" [OF k _ u]) (simp add: json_doc_elems [OF "2.prems"(1)] k)
  with elem_split [OF k, of "[]"] q show ?case by (auto simp del: stringify.simps)
next
  case (3 es k p)
  from "3.prems"(2) obtain v u where v: "map_of es k = Some v" and u: "end_offset v p = Some u"
    and q: "q = 1 + length (member_texts (takeWhile (\<lambda>e. fst e \<noteq> k) es)) + (length (quote_string k) + 1) + u"
    by (auto split: option.splits)
  have "u < length (stringify v)" by (rule "3.IH" [OF v member_split(1) [OF "3.prems"(1) v] u])
  with member_split(2) [OF "3.prems"(1) v, of "[]"] q show ?case by (auto simp del: stringify.simps)
qed auto

text \<open>C38: For every JSON document and every path into it, the offset of the last character of the
  value at that path (the closing bracket of an object or array) is mapped back by
  \<open>jsonPathAtOffset\<close> to exactly that path, whatever strings, escapes and nesting surround it.\<close>

theorem json_path_at_offset_exact:
  assumes "json_doc v" and "end_offset v p = Some q"
  shows "json_path_at_offset (stringify v) q = map step_text p"
  using scan_inside [OF assms, of "[]" 0 "[]"] by (simp add: json_path_at_offset_def current_segments_def)

theorem json_path_at_offset_exact_witness:
  "json_path_at_offset ''{\"a\":[1,{\"b\":\"}\"}]}'' 16 = [''a'', ''[1]'']"
proof -
  let ?v = "JObj [(''a'', JArr [JNum 1, JObj [(''b'', JStr ''}'')]])]"
  have d: "json_doc ?v" unfolding json_doc_def by (simp add: own_entries_def is_index_def is_digit_def)
  have "end_offset ?v [Member ''a'', Elem 1] = Some 16" by code_simp
  from json_path_at_offset_exact [OF d this]
  have "json_path_at_offset (stringify ?v) 16 = map step_text [Member ''a'', Elem 1]" .
  moreover have "stringify ?v = ''{\"a\":[1,{\"b\":\"}\"}]}''" by code_simp
  moreover have "map step_text [Member ''a'', Elem 1] = [''a'', ''[1]'']" by code_simp
  ultimately show ?thesis by simp
qed

section \<open>The objects that lack a field\<close>

text \<open>Their paths, in the order a walk over the value meets them.\<close>

function lacking_paths :: "owners \<Rightarrow> string \<Rightarrow> jval \<Rightarrow> string list \<Rightarrow> string list list" where
  "lacking_paths ow field (JArr xs) path =
     concat (map (\<lambda>(i, x). lacking_paths ow field x (path @ [''['' @ nat_str i @ '']''])) (zip [0..<length xs] xs))"
| "lacking_paths ow field (JObj es) path =
     (if \<not> ohas es field \<and> could_require_field ow es field then [path] else [])
     @ concat (map (\<lambda>(k, v). lacking_paths ow field v (path @ [k])) (own_entries es))"
| "lacking_paths ow field Undef path = []"
| "lacking_paths ow field Null path = []"
| "lacking_paths ow field (JBool b) path = []"
| "lacking_paths ow field (JNum n) path = []"
| "lacking_paths ow field (JStr s) path = []"
  by pat_completeness auto
termination
  by (relation "measure (\<lambda>(ow, field, v, path). size v)")
    (auto simp: less_Suc_eq_le dest!: set_zip_rightD intro: size_list_estimation')

definition note_path :: "string list \<Rightarrow> search \<Rightarrow> search" where
  "note_path path st =
     (let st1 = (if int (length path) > sr_deepest st
                 then \<lparr>sr_found = [], sr_deepest = int (length path)\<rparr> else st)
      in if int (length path) = sr_deepest st1 then st1\<lparr>sr_found := sr_found st1 @ [path]\<rparr> else st1)"

lemma fold_concat_map:
  "(\<And>x s. x \<in> set xs \<Longrightarrow> f x s = fold g (h x) s) \<Longrightarrow> fold f xs s = fold g (concat (map h xs)) s"
  by (induction xs arbitrary: s) auto

lemma visit_lacking: "visit ow field v path st = fold note_path (lacking_paths ow field v path) st"
proof (induction ow field v path st rule: visit.induct)
  case (1 ow field xs path st)
  show ?case
    unfolding visit.simps lacking_paths.simps
    by (rule fold_concat_map) (use 1 in auto)
next
  case (2 ow field es path st)
  have n: "note_record ow field es path st
    = fold note_path (if \<not> ohas es field \<and> could_require_field ow es field then [path] else []) st"
    by (simp add: note_record_def note_path_def)
  show ?case
    unfolding visit.simps lacking_paths.simps fold_append comp_apply n
    by (rule fold_concat_map) (use 2 in auto)
qed simp_all

definition noted :: "string list list \<Rightarrow> search" where
  "noted ps = (if ps = [] then \<lparr>sr_found = [], sr_deepest = -1\<rparr>
     else \<lparr>sr_found = filter (\<lambda>p. length p = Max (length ` set ps)) ps,
           sr_deepest = int (Max (length ` set ps))\<rparr>)"

lemma fold_note_path: "fold note_path ps \<lparr>sr_found = [], sr_deepest = -1\<rparr> = noted ps"
proof (induction ps rule: rev_induct)
  case Nil
  show ?case by (simp add: noted_def)
next
  case (snoc p ps)
  show ?case
  proof (cases "ps = []")
    case True
    then show ?thesis by (simp add: noted_def note_path_def)
  next
    case False
    define m where "m = Max (length ` set ps)"
    have le: "length q \<le> m" if "q \<in> set ps" for q using that by (simp add: m_def)
    have M: "Max (length ` set (ps @ [p])) = max (length p) m" using False by (simp add: m_def)
    have n: "noted ps = \<lparr>sr_found = filter (\<lambda>p. length p = m) ps, sr_deepest = int m\<rparr>"
      using False by (simp add: noted_def m_def)
    show ?thesis
    proof (cases "length p > m")
      case True
      have "filter (\<lambda>q. length q = length p) ps = []"
        unfolding filter_empty_conv by (intro ballI) (use le True in \<open>metis linorder_not_less\<close>)
      with True False show ?thesis unfolding fold_append comp_apply snoc n noted_def [of "ps @ [p]"] M
        by (simp add: note_path_def max_def)
    next
      case ge: False
      with False show ?thesis unfolding fold_append comp_apply snoc n noted_def [of "ps @ [p]"] M
        by (simp add: note_path_def max_def)
    qed
  qed
qed

text \<open>The in-place search returns the first two, in walking order, of exactly those objects
  that could require the field, lack it, and lie deepest among all such objects.\<close>

theorem deepest_paths_missing_field_spec:
  "deepest_paths_missing_field ow root field =
     (let ps = lacking_paths ow field root []
      in take 2 (filter (\<lambda>p. length p = Max (length ` set ps)) ps))"
  unfolding deepest_paths_missing_field_def visit_lacking fold_note_path
  by (simp add: noted_def Let_def)

section \<open>A located error of the server\<close>

lemma length_utf8_char: "length (utf8_char c) = (if (of_char c :: nat) < 128 then 1 else 2)"
  by (simp add: utf8_char_def Let_def)

lemma utf16_index_bytes: "q \<le> length s \<Longrightarrow> utf16_index s (int (length (utf8_encode (take q s)))) = q"
proof (induction s arbitrary: q)
  case Nil
  then show ?case by simp
next
  case (Cons c s)
  show ?case
  proof (cases q)
    case 0
    then show ?thesis by (simp add: utf8_encode_def)
  next
    case (Suc k)
    with Cons.IH [of k] Cons.prems show ?thesis
      by (simp add: utf8_encode_def length_utf8_char)
  qed
qed

text \<open>The message for a missing field: its column counts the bytes of the body.\<close>

definition missing_field_report :: "string \<Rightarrow> nat \<Rightarrow> string" where
  "missing_field_report field column =
     ''Json deserialize error: missing field `'' @ field @ ''` at line 1 column '' @ nat_str column"

definition field_name :: "string \<Rightarrow> bool" where
  "field_name f \<longleftrightarrow> f \<noteq> [] \<and> list_all (\<lambda>c. c \<noteq> CHR 0x60 \<and> c \<noteq> CHR '':'' \<and> \<not> is_space c) f"

lemma find_text_colon: "CHR '':'' \<notin> set s \<Longrightarrow> find_text ''At: ...'' s = None"
  by (induction s) (auto simp: starts_with_iff)

lemma nat_str_no_colon: "CHR '':'' \<notin> set (nat_str n)"
  using nat_str_digits [of "CHR '':''" n] by (auto simp: is_digit_def)

lemma cut_report: "field_name f \<Longrightarrow> cut_excerpt (missing_field_report f n) = missing_field_report f n"
proof -
  assume f: "field_name f"
  have "CHR '':'' \<notin> set ('' missing field `'' @ f @ ''` at line 1 column '' @ nat_str n)"
    using f nat_str_no_colon by (auto simp: field_name_def list_all_iff)
  from find_text_colon [OF this]
  have "find_text ''At: ...'' (missing_field_report f n) = None"
    unfolding missing_field_report_def by simp
  then show ?thesis by (simp add: cut_excerpt_def)
qed

lemma js_trim_fix: "s \<noteq> [] \<Longrightarrow> \<not> is_space (hd s) \<Longrightarrow> \<not> is_space (last s) \<Longrightarrow> js_trim s = s"
  by (metis hd_rev js_trim_def rev_is_Nil_conv rev_rev_ident trim_start_fix)

lemma digit_not_space: "is_digit c \<Longrightarrow> \<not> is_space c"
  by (auto simp: is_digit_def is_space_def Let_def)

lemma last_nat_str: "\<not> is_space (last (nat_str n))"
  using nat_str_digits [of "last (nat_str n)" n] digit_not_space by simp

lemma trim_report: "js_trim (missing_field_report f n) = missing_field_report f n"
  by (rule js_trim_fix) (use last_nat_str [of n] in \<open>simp_all add: missing_field_report_def is_space_def\<close>)

lemma location_in_name:
  "list_all (\<lambda>c. \<not> is_space c) f \<Longrightarrow>
   find_location (f @ CHR 0x60 # s) = map_option (\<lambda>(a, q). (f @ a, q)) (find_location (CHR 0x60 # s))"
proof (induction f)
  case Nil
  show ?case by (cases "find_location (CHR 0x60 # s)") auto
next
  case (Cons c f)
  have "\<not> starts_with ''at line '' (c # f @ CHR 0x60 # s)"
    using Cons.prems by (cases f; cases "tl f") (auto simp: is_space_def)
  then have "location_here (c # f @ CHR 0x60 # s) = None" by (simp add: location_here_def)
  with Cons show ?case by (simp add: option.map_comp o_def case_prod_unfold)
qed

lemma location_report:
  assumes "field_name f"
  shows "find_location (missing_field_report f n)
    = Some (''Json deserialize error: missing field `'' @ f @ ''` '', ''1'', nat_str n, [])"
proof -
  have d: "takeWhile is_digit (nat_str n) = nat_str n" "dropWhile is_digit (nat_str n) = []"
    using nat_str_digits [of _ n] by (auto simp: takeWhile_eq_all_conv dropWhile_eq_Nil_conv)
  have here: "location_here (''at line 1 column '' @ nat_str n) = Some (''1'', nat_str n, [])"
    by (simp add: location_here_def d is_digit_def)
  have tail: "find_location (CHR 0x60 # '' at line 1 column '' @ nat_str n) = Some (''` '', ''1'', nat_str n, [])"
    using here by (simp add: location_here_def [of "CHR 0x60 # x" for x] location_here_def [of "CHR '' '' # x" for x])
  have name: "find_location (f @ CHR 0x60 # '' at line 1 column '' @ nat_str n) = Some (f @ ''` '', ''1'', nat_str n, [])"
    using location_in_name [of f "'' at line 1 column '' @ nat_str n"] assms tail
    by (simp add: field_name_def list_all_iff)
  have none: "location_here (c # s) = None" if "c \<noteq> CHR ''a''" for c s
    using that by (simp add: location_here_def)
  have "find_location (''Json deserialize error: missing field `'' @ s)
     = map_option (\<lambda>(a, q). (''Json deserialize error: missing field `'' @ a, q)) (find_location s)" for s
    by (simp add: none location_here_def [of "CHR ''a'' # x" for x] option.map_comp o_def case_prod_unfold)
  with name show ?thesis unfolding missing_field_report_def by simp
qed

lemma detail_report:
  assumes "field_name f"
  shows "js_trim (drop_deserialize_prefix (drop_trailing is_space (''Json deserialize error: missing field `'' @ f @ ''` '') @ []))
    = ''missing field `'' @ f @ ''`''"
proof -
  have "drop_trailing is_space (''Json deserialize error: missing field `'' @ f @ ''` '') = ''Json deserialize error: missing field `'' @ f @ ''`''"
    by (simp add: drop_trailing_def is_space_def)
  moreover have "drop_deserialize_prefix (''Json deserialize error: missing field `'' @ f @ ''`'') = ''missing field `'' @ f @ ''`''"
    by (simp add: drop_deserialize_prefix_def to_lower_def lower_char_def trim_start_def is_space_def char_of_def bit_0)
  moreover have "js_trim (''missing field `'' @ f @ ''`'') = ''missing field `'' @ f @ ''`''"
    by (rule js_trim_fix) (simp_all add: is_space_def)
  ultimately show ?thesis by simp
qed

lemma missing_field_detail:
  assumes "field_name f"
  shows "missing_field (''missing field `'' @ f @ ''`'') = Some f"
proof -
  have "takeWhile (\<lambda>d. d \<noteq> CHR 0x60) (f @ ''`'') = f"
    using assms by (subst takeWhile_append2) (auto simp: field_name_def list_all_iff)
  with assms show ?thesis by (simp add: field_name_def Let_def)
qed


definition sample_config :: jval where
  "sample_config = JObj [(''consumers'', JArr [JObj [(''name'', JStr ''in''),
     (''endpoint'', JObj [(''kafka'', JObj [(''url'', JStr ''x'')])])]])]"
lemma sample_zero: "nat_str 0 = ''0''" by code_simp
lemma sample_value: "value_at_path sample_config [''consumers'', ''[0]''] = JObj [(''name'', JStr ''in''),
     (''endpoint'', JObj [(''kafka'', JObj [(''url'', JStr ''x'')])])]"
  by (simp add: sample_config_def value_at_path_def value_step_def number_name_def inner_text_def js_trim_def trim_start_def
     is_space_def is_digit_def sample_zero str_nat_def digit_val_def is_index_def)
lemma sample_deepest: "deepest_paths_missing_field [] (JObj [(''name'', JStr ''in''),
     (''endpoint'', JObj [(''kafka'', JObj [(''url'', JStr ''x'')])])]) ''topic'' = [[''endpoint'', ''kafka'']]" by code_simp
lemma sample_described: "describe_location \<lparr>mk_open = ''<'', mk_close = ''>'', mk_arrow = ''/''\<rparr>  [''consumers'', ''[0]'', ''endpoint'', ''kafka''] sample_config = ''consumer <in> / endpoint / kafka''" 
proof -
  have "is_position ''[0]''" by code_simp
  moreover have "js_trim (to_str (js_or (js_or (JStr ''in'') Undef) (JStr []))) = ''in''" by code_simp
  moreover have "named_location \<lparr>mk_open = ''<'', mk_close = ''>'', mk_arrow = ''/''\<rparr> ''consumer'' ''in'' x [''endpoint'', ''kafka'']
    = ''consumer <in> / endpoint / kafka''" for x
    by (simp add: named_location_def format_segments_def append_segment_def)
  ultimately show ?thesis unfolding describe_location_def by (simp add: sample_value)
qed

end
