(* ===== verification/DirtyState.thy ===== *)
theory DirtyState
  imports Json
begin

text \<open>
  Which sections have unsaved changes (\<open>dirty-state.ts\<close> and its callers in
  \<open>bootstrap.ts\<close>): the canonical text of a section, the tracker that compares it with a
  baseline, and the registry of trackers. A \<open>getValue\<close> callback is a function of the
  environment \<open>'e\<close> it reads (the live configuration, a form's data).
\<close>

section \<open>The order of \<open>Array.prototype.sort\<close>\<close>

definition code_unit_cmp :: "string \<Rightarrow> string \<Rightarrow> int" where
  "code_unit_cmp a b = (if a = b then 0 else if a < b then -1 else 1)"

lemma code_unit_cmp_le: "code_unit_cmp a b \<le> 0 \<longleftrightarrow> a \<le> b"
  by (auto simp: code_unit_cmp_def)

interpretation code_units: js_comparator code_unit_cmp
  by unfold_locales (auto simp: code_unit_cmp_le)

lemma sorted_sort_keys: "sorted (js_sort code_unit_cmp ks)"
  using code_units.sorted_js_sort [of ks] by (simp add: code_unit_cmp_le)

section \<open>The canonical text\<close>

lemma size_oget: "k \<in> fst ` set es \<Longrightarrow> size (oget es k) < Suc (size_list (size_prod (\<lambda>_. 0) size) es)"
proof (induction es)
  case Nil
  then show ?case by simp
next
  case (Cons e es)
  obtain a b where e: "e = (a, b)" by force
  show ?case
  proof (cases "a = k")
    case False
    with Cons.prems e have "k \<in> fst ` set es" by auto
    from Cons.IH [OF this] e False show ?thesis by simp
  qed (simp add: e)
qed

function normalize_section_state :: "jval \<Rightarrow> jval" where
  "normalize_section_state (JArr xs) = JArr (map normalize_section_state xs)"
| "normalize_section_state (JObj es) =
     JObj (fold (\<lambda>k acc. let normalized = normalize_section_state (oget es k)
                         in if normalized \<noteq> Undef then oput k normalized acc else acc)
       (js_sort code_unit_cmp (own_keys es)) [])"
| "normalize_section_state Undef = Undef"
| "normalize_section_state Null = Null"
| "normalize_section_state (JBool b) = JBool b"
| "normalize_section_state (JNum n) = JNum n"
| "normalize_section_state (JStr s) = JStr s"
  by pat_completeness auto
termination
proof (relation "measure size", goal_cases)
  case (3 es k acc)
  then have "k \<in> fst ` set es" by (auto simp: own_keys_def)
  from size_oget [OF this] show ?case by simp
qed (auto simp: less_Suc_eq_le intro: size_list_estimation')

text \<open>\<open>JSON.stringify(undefined)\<close> is no text.\<close>

definition serialize_section_state :: "jval \<Rightarrow> string option" where
  "serialize_section_state v =
     (let n = normalize_section_state v in if n = Undef then None else Some (stringify n))"

text \<open>\<open>None\<close>: \<open>JSON.parse\<close> throws.\<close>

definition clone_section_state :: "jval \<Rightarrow> jval option" where
  "clone_section_state v = parse_json (case serialize_section_state v of Some s \<Rightarrow> s | None \<Rightarrow> ''undefined'')"

section \<open>Trackers\<close>

record 'e dirty_tracker =
  button_id :: string
  get_value :: "'e \<Rightarrow> jval"
  baseline :: "string option"

definition create_dirty_tracker ::
    "'e \<Rightarrow> string \<Rightarrow> string \<Rightarrow> ('e \<Rightarrow> jval) \<Rightarrow> 'e dirty_tracker option \<Rightarrow> obj \<Rightarrow> string \<times> 'e dirty_tracker" where
  "create_dirty_tracker env section_name button getter previous saved_sections =
     (let current_serialized = serialize_section_state (getter env);
          saved_snapshot = (if ohas saved_sections section_name
            then serialize_section_state (oget saved_sections section_name) else current_serialized)
      in (section_name,
          \<lparr>button_id = button, get_value = getter,
           baseline = (case previous of
               Some p \<Rightarrow> (case baseline p of Some b \<Rightarrow> Some b | None \<Rightarrow> saved_snapshot)
             | None \<Rightarrow> saved_snapshot)\<rparr>))"

definition is_dirty :: "'e \<Rightarrow> 'e dirty_tracker \<Rightarrow> bool" where
  "is_dirty env tracker \<longleftrightarrow> serialize_section_state (get_value tracker env) \<noteq> baseline tracker"

section \<open>The registry\<close>

text \<open>\<open>buttons\<close> are the elements of the page with the flag \<open>data-dirty\<close> they carry.\<close>

record 'e dirty_state =
  dirty_sections :: "(string \<times> 'e dirty_tracker) list"
  saved_sections :: obj
  workspace_dirty :: bool
  buttons :: "(string \<times> bool) list"

definition compute_workspace_dirty :: "'e \<Rightarrow> 'e dirty_state \<Rightarrow> bool" where
  "compute_workspace_dirty env st \<longleftrightarrow> list_ex (\<lambda>e. is_dirty env (snd e)) (own_entries (dirty_sections st))"

definition mark_button :: "string \<Rightarrow> bool \<Rightarrow> 'e dirty_state \<Rightarrow> 'e dirty_state" where
  "mark_button name dirty st =
     (if ohas (buttons st) name then st\<lparr>buttons := oput name dirty (buttons st)\<rparr> else st)"

definition render_workspace_dirty :: "'e \<Rightarrow> 'e dirty_state \<Rightarrow> bool \<times> 'e dirty_state" where
  "render_workspace_dirty env st =
     (let dirty = compute_workspace_dirty env st
      in (dirty, mark_button ''workspace-save-button'' dirty (st\<lparr>workspace_dirty := dirty\<rparr>)))"

definition refresh_dirty_section :: "'e \<Rightarrow> string \<Rightarrow> 'e dirty_state \<Rightarrow> bool \<times> 'e dirty_state" where
  "refresh_dirty_section env section_name st =
     (case map_of (dirty_sections st) section_name of
        None \<Rightarrow> (False, st)
      | Some tracker \<Rightarrow>
          (let dirty = is_dirty env tracker;
               st1 = mark_button (button_id tracker) dirty st
           in (dirty, snd (render_workspace_dirty env st1))))"

definition register_dirty_section ::
    "'e \<Rightarrow> string \<Rightarrow> string \<Rightarrow> ('e \<Rightarrow> jval) \<Rightarrow> 'e dirty_state \<Rightarrow> 'e dirty_state" where
  "register_dirty_section env section_name button getter st =
     (if section_name = [] \<or> button = [] then st
      else let (key, tracker) = create_dirty_tracker env section_name button getter
                 (map_of (dirty_sections st) section_name) (saved_sections st)
           in snd (refresh_dirty_section env section_name
                (st\<lparr>dirty_sections := oput key tracker (dirty_sections st)\<rparr>)))"

text \<open>\<open>None\<close>: the value to remember is \<open>undefined\<close>, which cannot be cloned.\<close>

definition mark_section_saved :: "'e \<Rightarrow> string \<Rightarrow> jval \<Rightarrow> 'e dirty_state \<Rightarrow> 'e dirty_state option" where
  "mark_section_saved env section_name saved_value st =
     (let tracker = map_of (dirty_sections st) section_name;
          next_saved = (if saved_value \<noteq> Undef then saved_value
            else case tracker of Some t \<Rightarrow> get_value t env | None \<Rightarrow> Undef)
      in case clone_section_state next_saved of
        None \<Rightarrow> None
      | Some snapshot \<Rightarrow>
          (let st1 = st\<lparr>saved_sections := oput section_name snapshot (saved_sections st)\<rparr>
           in case tracker of
             None \<Rightarrow> Some st1
           | Some t \<Rightarrow>
               Some (snd (refresh_dirty_section env section_name
                 (st1\<lparr>dirty_sections := oput section_name (t\<lparr>baseline := serialize_section_state snapshot\<rparr>)
                   (dirty_sections st1)\<rparr>)))))"

section \<open>The content of a section\<close>

text \<open>
  What a section says, without the order of its members and without absent members:
  the abstract view the dirty flag is about.
\<close>

datatype content = Atom jval | Seq "content list" | Rec "string \<Rightarrow> content option"

function content_of :: "jval \<Rightarrow> content" where
  "content_of (JArr xs) = Seq (map (\<lambda>x. if x = Undef then Atom Null else content_of x) xs)"
| "content_of (JObj es) =
     Rec (\<lambda>k. if k \<in> fst ` set es \<and> oget es k \<noteq> Undef then Some (content_of (oget es k)) else None)"
| "content_of Undef = Atom Undef"
| "content_of Null = Atom Null"
| "content_of (JBool b) = Atom (JBool b)"
| "content_of (JNum n) = Atom (JNum n)"
| "content_of (JStr s) = Atom (JStr s)"
  by pat_completeness auto
termination
proof (relation "measure size", goal_cases)
  case (3 es k)
  then have "k \<in> fst ` set es" by blast
  from size_oget [OF this] show ?case by simp
qed (auto simp: less_Suc_eq_le intro: size_list_estimation')

primrec document_of :: "content \<Rightarrow> jval" where
  "document_of (Atom v) = v"
| "document_of (Seq cs) = JArr (map document_of cs)"
| "document_of (Rec m) =
     (let f = map_option document_of \<circ> m
      in JObj (own_entries (map (\<lambda>k. (k, the (f k))) (sorted_list_of_set (dom f)))))"

lemma normalize_Undef [simp]: "normalize_section_state v = Undef \<longleftrightarrow> v = Undef"
  by (cases v) simp_all

lemma fold_members:
  assumes "distinct (map fst acc @ ks)"
  shows "fold (\<lambda>k acc. let n = f k in if n \<noteq> Undef then oput k n acc else acc) ks acc
    = acc @ map (\<lambda>k. (k, f k)) (filter (\<lambda>k. f k \<noteq> Undef) ks)"
  using assms
proof (induction ks arbitrary: acc)
  case Nil
  then show ?case by simp
next
  case (Cons k ks)
  then have "k \<notin> fst ` set acc" by auto
  then have "oput k (f k) acc = acc @ [(k, f k)]" by (rule update_new)
  with Cons.IH [of acc] Cons.IH [of "acc @ [(k, f k)]"] Cons.prems show ?case
    by (auto simp: Let_def)
qed

lemma normalize_members:
  assumes "distinct (map fst es)"
  shows "normalize_section_state (JObj es) =
    JObj (map (\<lambda>k. (k, normalize_section_state (oget es k)))
      (filter (\<lambda>k. oget es k \<noteq> Undef) (js_sort code_unit_cmp (own_keys es))))"
proof -
  have "distinct (js_sort code_unit_cmp (own_keys es))" using assms by (simp add: own_keys_def)
  then show ?thesis
    unfolding normalize_section_state.simps
    using fold_members [of "[]" "js_sort code_unit_cmp (own_keys es)" "\<lambda>k. normalize_section_state (oget es k)"]
    by simp
qed

lemma sorted_present_keys:
  assumes "distinct (map fst es)"
  shows "filter P (js_sort code_unit_cmp (own_keys es)) = sorted_list_of_set {k \<in> fst ` set es. P k}"
proof -
  let ?ks = "filter P (js_sort code_unit_cmp (own_keys es))"
  have "sorted ?ks" by (rule sorted_wrt_filter [OF sorted_sort_keys])
  moreover have "distinct ?ks" using assms by (simp add: own_keys_def)
  moreover have "set ?ks = {k \<in> fst ` set es. P k}" by (auto simp: own_keys_def)
  ultimately show ?thesis
    by (metis (no_types, lifting) List.finite_set sorted_list_of_set.idem_if_sorted_distinct)
qed

lemma wf_oget: "wf_jval (JObj es) \<Longrightarrow> wf_jval (oget es k)"
  by (auto simp: oget_def split: option.split dest!: map_of_SomeD)

text \<open>The canonical document depends on the content only.\<close>

lemma canonical_document:
  "wf_jval v \<Longrightarrow> clone_json (normalize_section_state v) = document_of (content_of v)"
proof (induction v rule: normalize_section_state.induct)
  case (1 xs)
  then show ?case by (auto simp: o_def)
next
  case (2 es)
  let ?ks = "filter (\<lambda>k. oget es k \<noteq> Undef) (js_sort code_unit_cmp (own_keys es))"
  let ?S = "{k \<in> fst ` set es. oget es k \<noteq> Undef}"
  let ?m = "\<lambda>k. if k \<in> fst ` set es \<and> oget es k \<noteq> Undef then Some (content_of (oget es k)) else None"
  have d: "distinct (map fst es)" using "2.prems" by simp
  have IH: "clone_json (normalize_section_state (oget es k)) = document_of (content_of (oget es k))" if "k \<in> fst ` set es" for k
    by (rule "2.IH") (use that wf_oget [OF "2.prems"] in \<open>simp_all add: own_keys_def\<close>)
  have dom: "dom (map_option document_of \<circ> ?m) = ?S" by (auto simp: dom_def)
  have ks: "?ks = sorted_list_of_set ?S" by (rule sorted_present_keys [OF d])
  have fin: "finite ?S" by simp
  have "filter (\<lambda>e. snd e \<noteq> Undef) (map (\<lambda>(k, v). (k, clone_json v)) (map (\<lambda>k. (k, normalize_section_state (oget es k))) ?ks))
    = map (\<lambda>k. (k, clone_json (normalize_section_state (oget es k)))) ?ks"
    by (subst filter_True) auto
  also have "\<dots> = map (\<lambda>k. (k, the ((map_option document_of \<circ> ?m) k))) (sorted_list_of_set ?S)"
    unfolding ks by (rule map_cong [OF refl]) (use IH fin in auto)
  finally show ?case
    unfolding normalize_members [OF d] clone_json.simps content_of.simps document_of.simps Let_def dom
    by (rule arg_cong [where f = "\<lambda>x. JObj (own_entries x)"])
qed simp_all

lemma wf_normalize: "wf_jval v \<Longrightarrow> wf_jval (normalize_section_state v)"
proof (induction v rule: normalize_section_state.induct)
  case (2 es)
  have d: "distinct (map fst es)" using "2.prems" by simp
  have "wf_jval (normalize_section_state (oget es k))" if "k \<in> fst ` set es" for k
    by (rule "2.IH") (use that wf_oget [OF "2.prems"] in \<open>simp_all add: own_keys_def\<close>)
  then show ?case unfolding normalize_members [OF d] using d
    by (auto simp: o_def own_keys_def)
qed auto

lemma content_record_cong:
  assumes "\<And>k. (k \<in> fst ` set fs \<and> oget fs k \<noteq> Undef) = (k \<in> fst ` set es \<and> oget es k \<noteq> Undef)"
    and "\<And>k. k \<in> fst ` set es \<Longrightarrow> oget es k \<noteq> Undef \<Longrightarrow> content_of (oget fs k) = content_of (oget es k)"
  shows "content_of (JObj fs) = content_of (JObj es)"
  unfolding content_of.simps content.inject by (rule ext) (simp add: assms(1) assms(2))

lemma oget_present: "oget es k \<noteq> Undef \<Longrightarrow> (k, oget es k) \<in> set es"
  by (cases "map_of es k") (auto simp: oget_def dest: map_of_SomeD)

lemma content_clone: "wf_jval v \<Longrightarrow> v \<noteq> Undef \<Longrightarrow> content_of (clone_json v) = content_of v"
proof (induction v rule: clone_json.induct)
  case (1 xs)
  then show ?case by auto
next
  case (2 es)
  have d: "distinct (map fst es)" using "2.prems" by simp
  obtain fs where fs: "clone_json (JObj es) = JObj fs" by simp
  have g: "oget fs k = clone_json (oget es k)" for k by (rule oget_clone [OF d fs])
  show ?case unfolding fs
  proof (rule content_record_cong)
    fix k
    show "(k \<in> fst ` set fs \<and> oget fs k \<noteq> Undef) = (k \<in> fst ` set es \<and> oget es k \<noteq> Undef)"
      using oget_present [of fs k] oget_present [of es k] by (force simp: g)
  next
    fix k assume "oget es k \<noteq> Undef"
    then show "content_of (oget fs k) = content_of (oget es k)"
      unfolding g using "2.IH" [OF oget_present, of k k "oget es k"] wf_oget [OF "2.prems"(1)] by simp
  qed
qed auto

lemma content_normalize: "wf_jval v \<Longrightarrow> content_of (normalize_section_state v) = content_of v"
proof (induction v rule: normalize_section_state.induct)
  case (1 xs)
  then show ?case by auto
next
  case (2 es)
  have d: "distinct (map fst es)" using "2.prems" by simp
  let ?ks = "filter (\<lambda>k. oget es k \<noteq> Undef) (js_sort code_unit_cmp (own_keys es))"
  let ?fs = "map (\<lambda>k. (k, normalize_section_state (oget es k))) ?ks"
  have g: "oget ?fs k = normalize_section_state (oget es k)" for k
  proof (cases "oget es k = Undef")
    case True
    then have "k \<notin> fst ` set ?fs" by auto
    then show ?thesis using True by (simp add: oget_absent)
  next
    case False
    then have "k \<in> set ?ks" using oget_present [OF False] by (force simp: own_keys_def)
    then have "map_of ?fs k = Some (normalize_section_state (oget es k))"
      by (simp add: map_of_map_restrict)
    then show ?thesis by (simp add: oget_def)
  qed
  show ?case unfolding normalize_members [OF d]
  proof (rule content_record_cong)
    fix k
    show "(k \<in> fst ` set ?fs \<and> oget ?fs k \<noteq> Undef) = (k \<in> fst ` set es \<and> oget es k \<noteq> Undef)"
      using oget_present [of ?fs k] oget_present [of es k] unfolding g by (force simp: own_keys_def)
  next
    fix k assume "k \<in> fst ` set es"
    then show "content_of (oget ?fs k) = content_of (oget es k)"
      unfolding g by (intro "2.IH") (use wf_oget [OF "2.prems"] in \<open>simp_all add: own_keys_def\<close>)
  qed
qed simp_all

lemma serialize_content:
  assumes "wf_jval v" "wf_jval w"
  shows "serialize_section_state v = serialize_section_state w \<longleftrightarrow> content_of v = content_of w"
proof (cases "v = Undef \<or> w = Undef")
  case True
  then show ?thesis
    by (cases v; cases w) (simp_all add: serialize_section_state_def Let_def)
next
  case False
  then have s: "serialize_section_state x = Some (stringify (clone_json (normalize_section_state x)))" if "x \<in> {v, w}" for x
    using that by (auto simp: serialize_section_state_def Let_def)
  have doc: "json_doc (clone_json (normalize_section_state x))" if "x \<in> {v, w}" for x
    using that assms False by (auto intro!: json_doc_clone wf_normalize)
  show ?thesis
  proof
    assume "serialize_section_state v = serialize_section_state w"
    then have "stringify (clone_json (normalize_section_state v)) = stringify (clone_json (normalize_section_state w))"
      by (simp add: s)
    then have "clone_json (normalize_section_state v) = clone_json (normalize_section_state w)"
      using parse_stringify [OF doc [of v]] parse_stringify [OF doc [of w]] by simp
    then show "content_of v = content_of w"
      using content_clone [OF wf_normalize] content_normalize assms False by (metis normalize_Undef)
  next
    assume "content_of v = content_of w"
    then show "serialize_section_state v = serialize_section_state w"
      by (simp add: s canonical_document assms)
  qed
qed

section \<open>Properties\<close>

lemma mark_button_frame [simp]:
  "dirty_sections (mark_button n d st) = dirty_sections st"
  "saved_sections (mark_button n d st) = saved_sections st"
  "workspace_dirty (mark_button n d st) = workspace_dirty st"
  by (simp_all add: mark_button_def)

lemma render_frame [simp]:
  "dirty_sections (snd (render_workspace_dirty env st)) = dirty_sections st"
  "saved_sections (snd (render_workspace_dirty env st)) = saved_sections st"
  by (simp_all add: render_workspace_dirty_def Let_def)

lemma refresh_frame [simp]:
  "dirty_sections (snd (refresh_dirty_section env n st)) = dirty_sections st"
  "saved_sections (snd (refresh_dirty_section env n st)) = saved_sections st"
  by (simp_all add: refresh_dirty_section_def Let_def split: option.split)

text \<open>The page and the registry agree: the store and the save button show whether some section is dirty.\<close>

definition flags_agree :: "'e \<Rightarrow> 'e dirty_state \<Rightarrow> bool" where
  "flags_agree env st \<longleftrightarrow> workspace_dirty st = compute_workspace_dirty env st
     \<and> map_of (buttons st) ''workspace-save-button'' \<in> {None, Some (compute_workspace_dirty env st)}"

lemma compute_cong: "dirty_sections st = dirty_sections st' \<Longrightarrow> compute_workspace_dirty env st = compute_workspace_dirty env st'"
  by (simp add: compute_workspace_dirty_def)

lemma render_agrees: "flags_agree env (snd (render_workspace_dirty env st))"
proof -
  let ?st = "snd (render_workspace_dirty env st)"
  have c: "compute_workspace_dirty env ?st = compute_workspace_dirty env st" by (rule compute_cong) simp
  have "workspace_dirty ?st = compute_workspace_dirty env st"
    by (simp add: render_workspace_dirty_def Let_def)
  moreover have "map_of (buttons ?st) ''workspace-save-button'' \<in> {None, Some (compute_workspace_dirty env st)}"
    by (auto simp: render_workspace_dirty_def Let_def mark_button_def update_conv' ohas_map_of)
  ultimately show ?thesis by (simp add: flags_agree_def c)
qed

lemma refresh_agrees:
  "map_of (dirty_sections st) n = Some t \<Longrightarrow> flags_agree env (snd (refresh_dirty_section env n st))"
  by (simp add: refresh_dirty_section_def Let_def render_agrees)

lemma clone_section_serialize:
  assumes "wf_jval v" "v \<noteq> Undef"
  shows "\<exists>w. clone_section_state v = Some w \<and> wf_jval w \<and> content_of w = content_of v"
proof -
  have "serialize_section_state v = Some (stringify (normalize_section_state v))"
    using assms by (simp add: serialize_section_state_def Let_def)
  then have "clone_section_state v = Some (clone_json (normalize_section_state v))"
    using assms by (simp add: clone_section_state_def parse_stringify_clone wf_normalize)
  then show ?thesis
    using assms by (auto simp: wf_clone_json wf_normalize content_clone content_normalize)
qed

text \<open>C11: After a section was marked saved with a value, it is dirty exactly when the content it
  then has differs from the content that was saved: reordering members or adding absent ones
  never makes it dirty, and any real difference always does.\<close>

theorem saved_section_dirty_iff:
  assumes "map_of (dirty_sections st) name = Some t"
    and "wf_jval v" and "v \<noteq> Undef" and "wf_jval (get_value t env')"
    and "mark_section_saved env name v st = Some st'"
  shows "is_dirty env' (the (map_of (dirty_sections st') name))
    \<longleftrightarrow> content_of (get_value t env') \<noteq> content_of v"
proof -
  obtain w where w: "clone_section_state v = Some w" "wf_jval w" "content_of w = content_of v"
    using clone_section_serialize [OF assms(2,3)] by blast
  have "map_of (dirty_sections st') name = Some (t\<lparr>baseline := serialize_section_state w\<rparr>)"
    using assms(1,3,5) w(1) by (auto simp: mark_section_saved_def Let_def update_conv')
  then show ?thesis
    using serialize_content [OF assms(4) w(2)] w(3) by (simp add: is_dirty_def)
qed

theorem saved_section_dirty_iff_witness:
  "\<not> is_dirty (JObj [(''b'', JNum 2), (''x'', Undef), (''a'', JNum 1)])
     (the (map_of (dirty_sections (the (mark_section_saved Null ''config'' (JObj [(''a'', JNum 1), (''b'', JNum 2)])
        \<lparr>dirty_sections = [(''config'', \<lparr>button_id = ''save'', get_value = id, baseline = None\<rparr>)],
         saved_sections = [], workspace_dirty = False, buttons = []\<rparr>))) ''config''))"
proof -
  let ?st = "\<lparr>dirty_sections = [(''config'', \<lparr>button_id = ''save'', get_value = id, baseline = None\<rparr>)],
         saved_sections = [], workspace_dirty = False, buttons = []\<rparr>"
  let ?v = "JObj [(''a'', JNum 1), (''b'', JNum 2)]" and ?w = "JObj [(''b'', JNum 2), (''x'', Undef), (''a'', JNum 1)]"
  obtain st' where m: "mark_section_saved Null ''config'' ?v ?st = Some st'"
    using clone_section_serialize [of ?v] by (auto simp: mark_section_saved_def Let_def)
  have "content_of ?w = content_of ?v" by (simp add: fun_eq_iff)
  then show ?thesis
    using saved_section_dirty_iff [of ?st "''config''" _ ?v ?w Null st'] m by simp
qed

text \<open>Registering a section again (a view that is opened a second time) keeps the baseline it
  had, so unsaved changes stay visible; and after every registration the workspace store and
  the save button show whether some section is dirty.\<close>

theorem register_keeps_unsaved:
  assumes "map_of (dirty_sections st) name = Some t" and "baseline t = Some b"
    and "name \<noteq> []" and "button \<noteq> []"
  shows "map_of (dirty_sections (register_dirty_section env name button getter st)) name
      = Some \<lparr>button_id = button, get_value = getter, baseline = Some b\<rparr>
    \<and> flags_agree env (register_dirty_section env name button getter st)"
  using assms refresh_agrees [of "st\<lparr>dirty_sections := oput name \<lparr>button_id = button, get_value = getter, baseline = Some b\<rparr> (dirty_sections st)\<rparr>" name]
  by (simp add: register_dirty_section_def create_dirty_tracker_def Let_def update_conv')

theorem register_keeps_unsaved_witness:
  "workspace_dirty (register_dirty_section (JNum 5) ''config'' ''save'' id
     \<lparr>dirty_sections = [(''config'', \<lparr>button_id = ''save'', get_value = (\<lambda>_. Null), baseline = Some ''4''\<rparr>)],
      saved_sections = [], workspace_dirty = False, buttons = [(''workspace-save-button'', False)]\<rparr>)"
proof -
  let ?st = "\<lparr>dirty_sections = [(''config'', \<lparr>button_id = ''save'', get_value = (\<lambda>_. Null), baseline = Some ''4''\<rparr>)],
      saved_sections = [], workspace_dirty = False, buttons = [(''workspace-save-button'', False)]\<rparr>"
  let ?st' = "register_dirty_section (JNum 5) ''config'' ''save'' id ?st"
  have a: "map_of (dirty_sections ?st') ''config'' = Some \<lparr>button_id = ''save'', get_value = id, baseline = Some ''4''\<rparr>"
    and f: "flags_agree (JNum 5) ?st'"
    using register_keeps_unsaved [of ?st "''config''" _ "''4''" "''save''" "JNum 5" id] by simp_all
  have "serialize_section_state (JNum 5) \<noteq> Some ''4''" by code_simp
  with map_of_SomeD [OF a] have "compute_workspace_dirty (JNum 5) ?st'"
    by (force simp: compute_workspace_dirty_def list_ex_iff is_dirty_def)
  with f show ?thesis by (simp add: flags_agree_def)
qed

end
