(* ===== verification/ImportParse.thy ===== *)
theory ImportParse
  imports Workspace
begin

text \<open>
  Reading requests out of foreign documents (the parsers of \<open>import-export.ts\<close>): Postman
  collections, OpenAPI and AsyncAPI descriptions. A request is the preset object the sources
  build; the environment variables are a string map.
\<close>

section \<open>Helpers\<close>

fun as_object :: "jval \<Rightarrow> obj" where
  "as_object (JObj es) = es"
| "as_object v = []"

text \<open>\<open>v && typeof v === "object" ? v : {}\<close>\<close>

definition object_or_empty :: "jval \<Rightarrow> jval" where
  "object_or_empty v = (if is_object v then v else JObj [])"

definition drop_slashes :: "string \<Rightarrow> string" where
  "drop_slashes s = dropWhile (\<lambda>c. c = CHR ''/'') s"

definition base_url :: "string \<Rightarrow> string" where
  "base_url path = ''${baseUrl}'' @ path"

definition http_preset :: "string \<Rightarrow> string \<Rightarrow> string \<Rightarrow> string \<Rightarrow> jval" where
  "http_preset name payload http_method url =
     JObj [(''name'', JStr name), (''payload'', JStr payload), (''headers'', JArr []),
           (''endpoint_type'', JStr ''http''), (''method'', JStr http_method), (''url'', JStr url),
           (''request_fields'', JObj [(''url'', JStr url)])]"

text \<open>\<open>String(a || b || c)\<close>\<close>

definition first_text :: "jval list \<Rightarrow> string \<Rightarrow> string" where
  "first_text vs s = to_str (foldr js_or vs (JStr s))"

section \<open>Postman collections\<close>

definition folder_below :: "obj \<Rightarrow> string list \<Rightarrow> string list" where
  "folder_below row path = (if truthy (oget row ''name'') then path @ [to_str (oget row ''name'')] else path)"

lemma size_member: "(k, v) \<in> set es \<Longrightarrow> size v < Suc (size_list (size_prod (\<lambda>_. 0) size) es)"
  by (induction es) auto

lemma size_oget_le: "size (oget es k) < Suc (size_list (size_prod (\<lambda>_. 0) size) es)"
  by (cases "map_of es k") (auto simp: oget_def dest!: map_of_SomeD intro: size_member)

function flatten_postman_items :: "jval list \<Rightarrow> string list \<Rightarrow> jval list" where
  "flatten_postman_items [] path = []"
| "flatten_postman_items (item # items) path =
     (case item of
        JObj row \<Rightarrow>
          (if is_object (oget row ''request'')
           then [JObj (oput ''__folderPath'' (JArr (map JStr path)) (ospread [] row))] else [])
          @ (case oget row ''item'' of
               JArr sub \<Rightarrow> flatten_postman_items sub (folder_below row path)
             | _ \<Rightarrow> [])
      | _ \<Rightarrow> [])
     @ flatten_postman_items items path"
  by pat_completeness auto
termination
proof (relation "measure (\<lambda>(items, path). size_list size items)", goal_cases)
  case (2 item items path row sub)
  have "size (oget row ''item'') < Suc (size_list (size_prod (\<lambda>_. 0) size) row)" by (rule size_oget_le)
  with 2 show ?case by simp
qed auto

definition postman_url :: "jval \<Rightarrow> string" where
  "postman_url raw_url =
     (case raw_url of JStr s \<Rightarrow> s | _ \<Rightarrow> if is_object raw_url then member_str raw_url ''raw'' else [])"

definition postman_header :: "jval \<Rightarrow> jval" where
  "postman_header header_row =
     (let header = object_or_empty header_row
      in JObj [(''key'', JStr (member_str header ''key'')), (''value'', JStr (member_str header ''value'')),
               (''enabled'', JBool (jget header ''disabled'' \<noteq> JBool True))])"

definition postman_preset :: "nat \<Rightarrow> jval \<Rightarrow> jval" where
  "postman_preset index entry =
     (let request = js_or (jget entry ''request'') (JObj []);
          url = postman_url (jget request ''url'');
          http_method = to_upper (str_or (jget request ''method'') ''GET'');
          headers = map postman_header (array_or_empty (jget request ''header''));
          payload = member_str (object_or_empty (jget request ''body'')) ''raw'';
          folders = array_or_empty (jget entry ''__folderPath'');
          group = (if 0 < length folders then join '' / '' (map to_str folders) else [])
      in JObj [(''name'', JStr (str_or (jget entry ''name'') (''Postman request '' @ nat_str (index + 1)))),
               (''payload'', JStr payload), (''headers'', JArr headers), (''group'', JStr group),
               (''endpoint_type'', JStr ''http''), (''method'', JStr http_method), (''url'', JStr url),
               (''request_fields'', JObj [(''url'', JStr url)])])"

definition parse_postman_collection :: "jval \<Rightarrow> jval list" where
  "parse_postman_collection raw =
     (if \<not> is_object raw then []
      else if \<not> js_includes ''postman.com'' (str_nullish (jget (jget raw ''info'') ''schema'') []) then []
      else let entries = flatten_postman_items (array_or_empty (jget raw ''item'')) []
           in map2 postman_preset [0..<length entries] entries)"

section \<open>OpenAPI documents\<close>

record parsed_document =
  pd_presets :: "jval list"
  pd_env_vars :: obj

definition no_document :: parsed_document where
  "no_document = \<lparr>pd_presets = [], pd_env_vars = []\<rparr>"

definition openapi_methods :: "string list" where
  "openapi_methods = [''get'', ''post'', ''put'', ''delete'', ''patch'', ''head'', ''options'']"

definition openapi_payload :: "jval \<Rightarrow> string" where
  "openapi_payload operation =
     (let request_body = object_or_empty (jget operation ''requestBody'');
          content = object_or_empty (jget request_body ''content'');
          json_content = jget content ''application/json''
      in if is_object json_content \<and> jget json_content ''example'' \<noteq> Undef
         then pretty 0 (jget json_content ''example'') else [])"

definition openapi_operation :: "string \<Rightarrow> jval \<Rightarrow> string \<Rightarrow> jval list" where
  "openapi_operation path operations http_method =
     (let operation = jget operations http_method in
      if \<not> is_object operation then []
      else [http_preset (first_text [jget operation ''summary'', jget operation ''operationId'']
               (to_upper http_method @ '' '' @ path))
             (openapi_payload operation) (to_upper http_method) (base_url path)])"

definition base_url_vars :: "string \<Rightarrow> obj" where
  "base_url_vars url = (if url \<noteq> [] then [(''baseUrl'', JStr url)] else [])"

definition openapi_presets :: "jval \<Rightarrow> jval list" where
  "openapi_presets paths =
     concat (map (\<lambda>(path, operations).
       if \<not> is_object operations then []
       else concat (map (openapi_operation path operations) openapi_methods)) (obj_entries paths))"

definition parse_openapi_document :: "jval \<Rightarrow> parsed_document" where
  "parse_openapi_document raw =
     (if \<not> is_object raw \<or> \<not> truthy (jget raw ''openapi'') then no_document
      else let servers = array_or_empty (jget raw ''servers'');
               first = (case servers of [] \<Rightarrow> Undef | s # ss \<Rightarrow> s);
               first_server = (if is_object first then member_str first ''url'' else [])
           in \<lparr>pd_presets = openapi_presets (object_or_empty (jget raw ''paths'')),
               pd_env_vars = base_url_vars first_server\<rparr>)"

section \<open>AsyncAPI documents\<close>

text \<open>\<open>#/a/b\<close> followed from the root; \<open>Undef\<close> and \<open>Null\<close> both mean that nothing is there.\<close>

fun walk_ref :: "jval \<Rightarrow> string list \<Rightarrow> jval" where
  "walk_ref current [] = coalesce current Null"
| "walk_ref current (part # parts) =
     (if \<not> is_object current then Null else walk_ref (jget current part) parts)"

definition resolve_document_ref :: "jval \<Rightarrow> string \<Rightarrow> jval" where
  "resolve_document_ref root ref_value =
     (if \<not> starts_with ''#/'' ref_value then Null
      else walk_ref root (split_on (CHR ''/'') (drop 2 ref_value)))"

definition pick_payload_example :: "jval \<Rightarrow> string" where
  "pick_payload_example message_node_raw =
     (let message_node = object_or_empty message_node_raw;
          message_payload = object_or_empty (jget message_node ''payload'');
          first_example = (case jget message_payload ''examples'' of JArr (x # xs) \<Rightarrow> x | _ \<Rightarrow> Undef)
      in if jget message_node ''example'' \<noteq> Undef then pretty 0 (jget message_node ''example'')
         else if jget message_payload ''example'' \<noteq> Undef then pretty 0 (jget message_payload ''example'')
         else if first_example \<noteq> Undef then pretty 0 first_example
         else [])"

definition ref_of :: "jval \<Rightarrow> string" where
  "ref_of v = (if is_object v then member_str v ''$ref'' else [])"

text \<open>The example of the first message that has one.\<close>

fun first_message_payload :: "jval \<Rightarrow> jval list \<Rightarrow> string" where
  "first_message_payload root [] = []"
| "first_message_payload root (message_ref # rest) =
     (let payload = pick_payload_example (resolve_document_ref root (ref_of message_ref))
      in if payload \<noteq> [] then payload else first_message_payload root rest)"

definition asyncapi_operation :: "jval \<Rightarrow> string \<times> jval \<Rightarrow> jval list" where
  "asyncapi_operation root entry =
     (let (operation_name, operation) = entry in
      if \<not> is_object operation then []
      else let channel_node = resolve_document_ref root (ref_of (jget operation ''channel''));
               channel_address = (if is_object channel_node then member_str channel_node ''address'' else []);
               payload = first_message_payload root (array_or_empty (jget operation ''messages''));
               label = first_text [jget operation ''summary'', jget operation ''title'', JStr operation_name,
                         JStr channel_address] ''AsyncAPI operation'';
               address = drop_slashes channel_address
           in if address = [] then []
              else [http_preset label payload ''POST'' (base_url (''/'' @ address))])"

definition asyncapi_channel_operation :: "string \<Rightarrow> jval \<Rightarrow> string \<times> string \<Rightarrow> jval list" where
  "asyncapi_channel_operation channel_name channel kind =
     (let (member, direction) = kind; operation = jget channel member in
      if \<not> is_object operation then []
      else [http_preset (first_text [jget operation ''summary'', jget operation ''operationId'']
               (direction @ '' '' @ channel_name))
             (pick_payload_example (jget operation ''message'')) ''POST''
             (base_url (''/'' @ drop_slashes channel_name))])"

definition asyncapi_channel :: "string \<times> jval \<Rightarrow> jval list" where
  "asyncapi_channel entry =
     (let (channel_name, channel) = entry in
      if \<not> is_object channel then []
      else asyncapi_channel_operation channel_name channel (''publish'', ''PUBLISH'')
           @ asyncapi_channel_operation channel_name channel (''subscribe'', ''SUBSCRIBE''))"

definition parse_asyncapi_document :: "jval \<Rightarrow> parsed_document" where
  "parse_asyncapi_document raw =
     (if \<not> is_object raw \<or> \<not> truthy (jget raw ''asyncapi'') then no_document
      else let presets = (if starts_with ''3'' (to_str (jget raw ''asyncapi''))
                 then concat (map (asyncapi_operation raw) (obj_entries (object_or_empty (jget raw ''operations''))))
                 else concat (map asyncapi_channel (obj_entries (object_or_empty (jget raw ''channels'')))));
               first = (case obj_entries (object_or_empty (jget raw ''servers'')) of
                   [] \<Rightarrow> Undef | (k, v) # es \<Rightarrow> v);
               first_server_url = (if is_object first then member_str first ''url'' else [])
           in \<lparr>pd_presets = presets, pd_env_vars = base_url_vars first_server_url\<rparr>)"

section \<open>Which kind a document is\<close>

datatype import_kind = Postman | Openapi | Asyncapi | Unknown_kind

record request_import =
  ri_kind :: import_kind
  ri_requests :: "jval list"
  ri_env_vars :: obj

definition parse_request_import :: "jval \<Rightarrow> request_import" where
  "parse_request_import raw =
     (let postman = parse_postman_collection raw;
          openapi = parse_openapi_document raw;
          asyncapi = parse_asyncapi_document raw
      in if 0 < length postman then \<lparr>ri_kind = Postman, ri_requests = postman, ri_env_vars = []\<rparr>
         else if 0 < length (pd_presets openapi)
         then \<lparr>ri_kind = Openapi, ri_requests = pd_presets openapi, ri_env_vars = pd_env_vars openapi\<rparr>
         else if 0 < length (pd_presets asyncapi)
         then \<lparr>ri_kind = Asyncapi, ri_requests = pd_presets asyncapi, ri_env_vars = pd_env_vars asyncapi\<rparr>
         else \<lparr>ri_kind = Unknown_kind, ri_requests = [], ri_env_vars = []\<rparr>)"

end
