(* ===== verification/ConfigApi.thy ===== *)
theory ConfigApi
  imports SaveError Storage
begin

text \<open>
  The configuration endpoints (\<open>config-api.ts\<close>). The network is a parameter: a function that
  answers a request and changes the state behind it. A promise that may be rejected is a
  \<open>js_error + 'a\<close> with that state.
\<close>

datatype js_error =
    Js_error string
  | Syntax_failure
  | Type_failure
  | Network_failure
  | Storage_failure storage_error

record request =
  rq_path :: string
  rq_method :: string
  rq_body :: "string option"

text \<open>\<open>rs_body\<close> is \<open>None\<close> when reading the body fails.\<close>

record response =
  rs_ok :: bool
  rs_status :: nat
  rs_status_text :: string
  rs_body :: "string option"

type_synonym 'n fetch = "request \<Rightarrow> 'n \<Rightarrow> (js_error + response) \<times> 'n"
type_synonym ('n, 'a) promise = "'n \<Rightarrow> (js_error + 'a) \<times> 'n"

definition await :: "('n, 'a) promise \<Rightarrow> ('a \<Rightarrow> ('n, 'b) promise) \<Rightarrow> ('n, 'b) promise" where
  "await p f n = (case p n of (Inl e, n') \<Rightarrow> (Inl e, n') | (Inr x, n') \<Rightarrow> f x n')"

definition resolved :: "js_error + 'a \<Rightarrow> ('n, 'a) promise" where
  "resolved r n = (r, n)"

definition get_request :: "string \<Rightarrow> request" where
  "get_request path = \<lparr>rq_path = path, rq_method = ''GET'', rq_body = None\<rparr>"

definition post_request :: "string \<Rightarrow> string \<Rightarrow> request" where
  "post_request path body = \<lparr>rq_path = path, rq_method = ''POST'', rq_body = Some body\<rparr>"

text \<open>\<open>response.json()\<close>\<close>

definition response_json :: "response \<Rightarrow> js_error + jval" where
  "response_json r =
     (case rs_body r of
        None \<Rightarrow> Inl Network_failure
      | Some b \<Rightarrow> (case parse_json b of None \<Rightarrow> Inl Syntax_failure | Some v \<Rightarrow> Inr v))"

definition read_response_error :: "response \<Rightarrow> string \<Rightarrow> string" where
  "read_response_error r fallback_label =
     (let body = (case rs_body r of Some b \<Rightarrow> b | None \<Rightarrow> [])
      in if body \<noteq> [] then body
         else if rs_status_text r \<noteq> [] then rs_status_text r
         else fallback_label @ '' failed with status '' @ nat_str (rs_status r))"

definition fetch_config_from_server :: "'n fetch \<Rightarrow> ('n, jval) promise" where
  "fetch_config_from_server fetch =
     await (fetch (get_request ''/config'')) (\<lambda>r. resolved (response_json r))"

definition checked_json :: "string \<Rightarrow> response \<Rightarrow> js_error + jval" where
  "checked_json label r = (if \<not> rs_ok r then Inl (Js_error (read_response_error r label)) else response_json r)"

definition fetch_storage_security_from_server :: "'n fetch \<Rightarrow> ('n, jval) promise" where
  "fetch_storage_security_from_server fetch =
     await (fetch (get_request ''/storage-security''))
       (\<lambda>r. resolved (checked_json ''Fetching storage security'' r))"

definition fetch_config_recovery_from_server :: "'n fetch \<Rightarrow> ('n, jval) promise" where
  "fetch_config_recovery_from_server fetch =
     await (fetch (get_request ''/config-recovery''))
       (\<lambda>r. resolved (checked_json ''Fetching config recovery'' r))"

definition post_config :: "marks \<Rightarrow> owners \<Rightarrow> 'n fetch \<Rightarrow> obj \<Rightarrow> ('n, unit) promise" where
  "post_config m ow fetch config =
     (let body = stringify (JObj config)
      in await (fetch (post_request ''/config'' body))
           (\<lambda>r. resolved (if \<not> rs_ok r
              then Inl (Js_error (explain_config_save_error m ow (read_response_error r ''Posting config'') body))
              else Inr ())))"

definition post_reset_config_recovery :: "'n fetch \<Rightarrow> ('n, jval) promise" where
  "post_reset_config_recovery fetch =
     await (fetch (post_request ''/config-recovery/reset'' ''{}''))
       (\<lambda>r. resolved (checked_json ''Resetting config recovery'' r))"

definition save_whole_config :: "marks \<Rightarrow> owners \<Rightarrow> 'n fetch \<Rightarrow> obj \<Rightarrow> ('n, jval) promise" where
  "save_whole_config m ow fetch current_config =
     await (post_config m ow fetch current_config) (\<lambda>_. fetch_config_from_server fetch)"

definition save_config_section ::
    "marks \<Rightarrow> owners \<Rightarrow> 'n fetch \<Rightarrow> obj \<Rightarrow> string \<Rightarrow> jval \<Rightarrow> ('n, jval) promise" where
  "save_config_section m ow fetch current_config section_name section_value =
     (let next_config = oput section_name section_value (ospread [] current_config)
      in await (post_config m ow fetch next_config) (\<lambda>_. fetch_config_from_server fetch))"

section \<open>What saving promises\<close>

text \<open>
  The documented behaviour of the server: it returns the configuration it holds, and a post
  replaces it exactly when the post is accepted. \<open>held\<close> reads the configuration off the
  network's state.
\<close>

definition honest_server :: "'n fetch \<Rightarrow> ('n \<Rightarrow> jval) \<Rightarrow> bool" where
  "honest_server fetch held \<longleftrightarrow>
     (\<forall>n. case fetch (get_request ''/config'') n of
         (Inr r, n') \<Rightarrow> n' = n \<and> response_json r = Inr (held n)
       | (Inl e, n') \<Rightarrow> False)
     \<and> (\<forall>body n. case fetch (post_request ''/config'' body) n of
         (Inr r, n') \<Rightarrow> (if rs_ok r then parse_json body = Some (held n') else held n' = held n)
       | (Inl e, n') \<Rightarrow> held n' = held n)"

lemma honest_get:
  assumes "honest_server fetch held"
  shows "fetch_config_from_server fetch n = (Inr (held n), n)"
proof -
  from assms have "case fetch (get_request ''/config'') n of
      (Inr r, n') \<Rightarrow> n' = n \<and> response_json r = Inr (held n) | (Inl e, n') \<Rightarrow> False"
    unfolding honest_server_def by (rule conjunct1 [THEN spec])
  then show ?thesis
    by (auto simp: fetch_config_from_server_def await_def resolved_def split: prod.splits sum.splits)
qed

lemma honest_post:
  assumes "honest_server fetch held"
  shows "case post_config m ow fetch config n of
      (Inr u, n') \<Rightarrow> parse_json (stringify (JObj config)) = Some (held n')
    | (Inl e, n') \<Rightarrow> held n' = held n"
proof -
  have "case fetch (post_request ''/config'' (stringify (JObj config))) n of
      (Inr r, n') \<Rightarrow> (if rs_ok r then parse_json (stringify (JObj config)) = Some (held n') else held n' = held n)
    | (Inl e, n') \<Rightarrow> held n' = held n"
    using assms [unfolded honest_server_def, THEN conjunct2, THEN spec, THEN spec] .
  then show ?thesis
    unfolding post_config_def Let_def await_def
    by (auto simp: resolved_def simp del: stringify.simps split: prod.splits sum.splits if_splits)
qed

lemma honest_save_whole:
  assumes "honest_server fetch held" "wf_jval (JObj config)"
  shows "case save_whole_config m ow fetch config n of
      (Inr v, n') \<Rightarrow> held n' = clone_json (JObj config) \<and> v = clone_json (JObj config)
    | (Inl e, n') \<Rightarrow> held n' = held n"
proof -
  have p: "parse_json (stringify (JObj config)) = Some (clone_json (JObj config))"
    by (rule parse_stringify_clone) (use assms in simp_all)
  obtain res n' where pc: "post_config m ow fetch config n = (res, n')" by force
  with honest_post [OF assms(1), where m = m and ow = ow and config = config and n = n] p show ?thesis
    by (cases res)
      (simp_all add: save_whole_config_def await_def honest_get [OF assms(1)] del: stringify.simps clone_json.simps)
qed

lemma save_section_whole:
  "save_config_section m ow fetch config s v = save_whole_config m ow fetch (oput s v (ospread [] config))"
  by (simp add: save_config_section_def save_whole_config_def Let_def)

lemma wf_oput: "wf_jval (JObj es) \<Longrightarrow> wf_jval v \<Longrightarrow> wf_jval (JObj (oput k v es))"
  using set_oput [of k v es] by (auto simp: distinct_update)

lemma wf_own: "wf_jval (JObj (own_entries es)) = wf_jval (JObj es)"
  by simp

lemma spread_own: "distinct (map fst es) \<Longrightarrow> ospread [] es = own_entries es"
  using fold_update_new [of "[]" "own_entries es"] by (simp add: ospread_def)


text \<open>A server of this kind, which keeps the text it was sent, for a concrete run.\<close>

definition keeping_server :: "string fetch" where
  "keeping_server rq stored =
     (let reply = (\<lambda>ok body. Inr \<lparr>rs_ok = ok, rs_status = (if ok then 200 else 400), rs_status_text = [], rs_body = Some body\<rparr>)
      in case rq_body rq of
        None \<Rightarrow> (reply True (if parse_json stored = None then ''null'' else stored), stored)
      | Some b \<Rightarrow> (case parse_json b of
            Some (JObj es) \<Rightarrow> (reply True [], b)
          | _ \<Rightarrow> (reply False ''not a configuration'', stored)))"

definition kept_config :: "string \<Rightarrow> jval" where
  "kept_config stored = (case parse_json stored of Some v \<Rightarrow> v | None \<Rightarrow> Null)"

lemma keeping_server_honest: "honest_server keeping_server kept_config"
proof -
  have "parse_json ''null'' = Some Null" by code_simp
  then show ?thesis
    by (auto simp: honest_server_def keeping_server_def kept_config_def get_request_def post_request_def response_json_def Let_def
        split: option.splits jval.splits)
qed


end
