(* ===== verification/ImportExport.thy ===== *)
theory ImportExport
  imports ImportParse ConfigApi
begin

text \<open>
  Import and export of configurations (\<open>import-export.ts\<close>). The shell's live configuration is
  part of the state, because \<open>ensureWorkspaceCollections\<close> completes it in place. Every call that
  can create publishers draws its identifiers from a source of its own (\<open>ie_fresh\<close>).
\<close>

section \<open>Documents for other programs\<close>

definition build_single_config :: "string \<Rightarrow> string \<Rightarrow> jval \<Rightarrow> obj \<Rightarrow> jval" where
  "build_single_config now section_name entry extra_config =
     JObj [(''type'', JStr ''mqb-config''), (''version'', JNum 1), (''exportedAt'', JStr now),
           (''config'', JObj (oput section_name (JArr [entry]) (ospread [] extra_config)))]"

definition build_consumer_config_export :: "string \<Rightarrow> obj \<Rightarrow> jval \<Rightarrow> jval" where
  "build_consumer_config_export now config consumer =
     build_single_config now ''consumers'' consumer
       [(''env_vars'', JObj (sanitize_env_vars (oget config ''env_vars'')))]"

definition build_publisher_config_export :: "string \<Rightarrow> obj \<Rightarrow> jval \<Rightarrow> jval" where
  "build_publisher_config_export now config publisher =
     build_single_config now ''publishers'' publisher
       [(''env_vars'', JObj (sanitize_env_vars (oget config ''env_vars'')))]"

definition route_option_fields :: "string list" where
  "route_option_fields =
     [''enabled'', ''description'', ''concurrency'', ''batch_size'', ''commit_concurrency_limit'',
      ''startup_timeout_ms'', ''reconnect_interval_ms'', ''empty_batch_delay_ms'', ''allow_fault_injection'']"

definition resolve_consumer_output_endpoint :: "jval \<Rightarrow> jval list \<Rightarrow> obj option" where
  "resolve_consumer_output_endpoint output publishers =
     (let cfg = as_object output; mode = str_or (oget cfg ''mode'') ''none'' in
      if mode = ''response'' then
        (let response = as_object (oget cfg ''response'')
         in Some [(''static'', JObj
              [(''body'', JStr (case oget response ''payload'' of JStr s \<Rightarrow> s | _ \<Rightarrow> [])),
               (''raw'', JBool True),
               (''metadata'', JObj (as_object (oget response ''headers'')))])])
      else if mode = ''publisher'' then
        (let publisher_id = (if truthy (oget cfg ''publisher_id'') then to_str (oget cfg ''publisher_id'') else []);
             publisher_name = (if truthy (oget cfg ''publisher'') then to_str (oget cfg ''publisher'') else []);
             found = List.find (\<lambda>entry.
               (publisher_id \<noteq> [] \<and> member_str entry ''id'' = publisher_id)
               \<or> (publisher_name \<noteq> [] \<and> member_str entry ''name'' = publisher_name)) publishers;
             endpoint = (case found of Some p \<Rightarrow> as_object (jget p ''endpoint'') | None \<Rightarrow> [])
         in if 0 < length (own_keys endpoint) then Some endpoint else None)
      else None)"

definition build_publisher_endpoint_doc :: "obj \<Rightarrow> obj" where
  "build_publisher_endpoint_doc publisher = as_object (oget publisher ''endpoint'')"

definition build_consumer_route_doc :: "obj \<Rightarrow> jval list \<Rightarrow> obj" where
  "build_consumer_route_doc consumer publishers =
     (let route = [(''input'', JObj (as_object (oget consumer ''endpoint'')))];
          routed = (case resolve_consumer_output_endpoint (oget consumer ''output'') publishers of
              Some output \<Rightarrow> oput ''output'' (JObj output) route
            | None \<Rightarrow> route)
      in fold (\<lambda>field r. let v = oget consumer field
           in if v \<noteq> Undef \<and> v \<noteq> Null then oput field v r else r) route_option_fields routed)"

definition build_publisher_config_document :: "obj \<Rightarrow> jval" where
  "build_publisher_config_document publisher =
     JObj [(''publishers'', JObj [(str_or (oget publisher ''name'') ''publisher'',
       JObj (build_publisher_endpoint_doc publisher))])]"

definition build_consumer_publisher_document :: "obj \<Rightarrow> jval" where
  "build_consumer_publisher_document consumer =
     JObj [(''publishers'', JObj [(str_or (oget consumer ''name'') ''consumer'',
       JObj (build_publisher_endpoint_doc consumer))])]"

definition build_publisher_config_route_document :: "obj \<Rightarrow> jval" where
  "build_publisher_config_route_document publisher =
     (let name = str_or (oget publisher ''name'') ''publisher''
      in JObj [(''routes'', JObj [(name, JObj
           [(''input'', JObj [(''memory'', JObj [(''topic'', JStr (name @ ''.in''))])]),
            (''output'', JObj (build_publisher_endpoint_doc publisher))])])])"

definition build_consumer_config_document :: "obj \<Rightarrow> jval list \<Rightarrow> jval" where
  "build_consumer_config_document consumer publishers =
     JObj [(''routes'', JObj [(str_or (oget consumer ''name'') ''consumer'',
       JObj (build_consumer_route_doc consumer publishers))])]"

section \<open>Merging\<close>

definition named_row :: "jval \<Rightarrow> jval" where
  "named_row row = JObj (oput ''name'' (JStr (member_str row ''name'')) (from_entries (obj_entries row)))"

definition normalize_named_array :: "jval \<Rightarrow> jval list" where
  "normalize_named_array value =
     (case value of
        JArr rows \<Rightarrow> filter (\<lambda>row. 0 < length (js_trim (to_str (jget row ''name''))))
          (map named_row (filter is_object rows))
      | _ \<Rightarrow> [])"

definition merge_row :: "jval \<Rightarrow> jval list \<times> string list \<Rightarrow> jval list \<times> string list" where
  "merge_row raw state =
     (let (merged, existing_names) = state;
          row = as_object raw;
          base_name = str_or (oget row ''name'') ''imported'';
          (name, names) = (if base_name \<in> set existing_names then import_unique_name base_name existing_names
            else (base_name, base_name # existing_names))
      in (merged @ [JObj (oput ''name'' (JStr name) (ospread [] row))], names))"

definition merge_named_entries :: "jval list \<Rightarrow> jval list \<Rightarrow> jval list" where
  "merge_named_entries current_rows incoming_rows =
     fst (fold merge_row incoming_rows (current_rows, map (\<lambda>row. member_str row ''name'') current_rows))"

definition merge_presets :: "obj \<Rightarrow> string \<Rightarrow> jval list \<Rightarrow> obj" where
  "merge_presets existing publisher_name incoming =
     (let next = ospread [] existing
      in oput publisher_name (JArr (array_or_empty (oget next publisher_name) @ incoming)) next)"

section \<open>State\<close>

record ('n, 's) import_env =
  ie_fetch :: "'n fetch"
  ie_backend :: "'s storage_backend"
  ie_aead :: aead
  ie_nonce :: bytes
  ie_origin :: "string \<Rightarrow> origin_parts option"
  ie_fresh :: "nat \<Rightarrow> nat \<Rightarrow> string"
  ie_marks :: marks
  ie_owners :: owners

text \<open>\<open>iw_security\<close> is \<open>getAppState().storage_security\<close>.\<close>

record ('n, 's) import_world =
  iw_net :: 'n
  iw_store :: 's
  iw_config :: obj
  iw_security :: jval

definition ensured :: "('n, 's) import_env \<Rightarrow> nat \<Rightarrow> obj \<Rightarrow> obj" where
  "ensured env call config = ensure_workspace_collections (ie_origin env) (ie_fresh env call) config"

definition get_workspace_config ::
    "('n, 's) import_env \<Rightarrow> ('n, 's) import_world \<Rightarrow> obj \<times> ('n, 's) import_world" where
  "get_workspace_config env w = (let config = ensured env 0 (iw_config w) in (config, w\<lparr>iw_config := config\<rparr>))"

definition publisher_history_key :: string where
  "publisher_history_key = ''mqb_publisher_history''"

definition store_history ::
    "('n, 's) import_env \<Rightarrow> obj \<Rightarrow> obj \<Rightarrow> ('n, 's) import_world \<Rightarrow> storage_error option \<times> 's" where
  "store_history env next_config history w =
     (let security = resolve_storage_security (iw_security w) next_config;
          put = set_stored_json (ie_backend env) (ie_aead env) (ie_nonce env) (iw_store w)
            publisher_history_key (JObj history) security;
          drop = (None, remove_stored_json (ie_backend env) (iw_store w) publisher_history_key)
      in if has_encrypted_messages security then put
         else if messages_encrypted security then drop
         else if \<not> is_sensitive_config next_config then put
         else drop)"

definition save_imported_config ::
    "('n, 's) import_env \<Rightarrow> obj \<Rightarrow> ('n, 's) import_world \<Rightarrow> (js_error + unit) \<times> ('n, 's) import_world" where
  "save_imported_config env config w =
     (let normalized_config = ensured env 1 config in
      case save_whole_config (ie_marks env) (ie_owners env) (ie_fetch env) normalized_config (iw_net w) of
        (Inl e, n') \<Rightarrow> (Inl e, w\<lparr>iw_net := n'\<rparr>)
      | (Inr refreshed, n') \<Rightarrow>
          (let next0 = odel ''routes'' (from_entries (obj_entries refreshed));
               history = sanitize_publisher_history (oget next0 ''history'');
               next_config = oput ''history'' (JObj history) next0;
               (failure, s') = store_history env next_config history w;
               w1 = w\<lparr>iw_net := n', iw_store := s'\<rparr>
           in case failure of
                Some e \<Rightarrow> (Inl (Storage_failure e), w1)
              | None \<Rightarrow> (Inr (), w1\<lparr>iw_config := next_config\<rparr>)))"

section \<open>Importing a configuration\<close>

definition incoming_config_of :: "obj \<Rightarrow> obj" where
  "incoming_config_of document =
     (if str_or (oget document ''type'') [] \<in> {''mqb-export'', ''mqb-config''}
      then as_object (oget document ''config'') else document)"

definition merge_preset_tables :: "obj \<Rightarrow> obj \<Rightarrow> obj" where
  "merge_preset_tables presets imported =
     fold (\<lambda>(name, rows) acc. merge_presets acc name (array_or_empty rows)) (own_entries imported) presets"

definition import_next_config :: "obj \<Rightarrow> obj \<Rightarrow> obj" where
  "import_next_config current document =
     (let incoming = incoming_config_of document;
          publishers = merge_named_entries (normalize_named_array (oget current ''publishers''))
            (normalize_named_array (oget incoming ''publishers''));
          consumers = merge_named_entries (normalize_named_array (oget current ''consumers''))
            (normalize_named_array (oget incoming ''consumers''));
          current_presets = sanitize_presets (oget current ''presets'');
          current_env = sanitize_env_vars (oget current ''env_vars'');
          current_history = sanitize_publisher_history (oget current ''history'');
          base = oput ''history'' (JObj current_history)
            (oput ''env_vars'' (JObj current_env)
            (oput ''presets'' (JObj current_presets)
            (oput ''consumers'' (JArr consumers)
            (oput ''publishers'' (JArr publishers)
            (ospread (ospread [] current) incoming)))));
          imported_presets = fold (\<lambda>(name, rows) acc. oput name
              (JArr (array_or_empty (oget acc name) @ array_or_empty rows)) acc)
            (own_entries (sanitize_presets (oget document ''presets'')))
            (ospread [] (sanitize_presets (oget incoming ''presets'')));
          merged_presets = merge_preset_tables (sanitize_presets (oget base ''presets'')) imported_presets;
          env_vars = ospread (ospread (ospread [] (sanitize_env_vars (oget base ''env_vars'')))
              (sanitize_env_vars (oget incoming ''env_vars'')))
            (sanitize_env_vars (oget document ''envVars''))
      in oput ''history'' (JObj (sanitize_publisher_history (oget base ''history'')))
           (oput ''env_vars'' (JObj env_vars) (oput ''presets'' (JObj merged_presets) base)))"

record import_counts =
  imported_publishers :: nat
  imported_consumers :: nat
  imported_routes :: nat

definition import_app_config_from_json_text ::
    "('n, 's) import_env \<Rightarrow> string \<Rightarrow> ('n, 's) import_world
       \<Rightarrow> (js_error + import_counts) \<times> ('n, 's) import_world" where
  "import_app_config_from_json_text env source w =
     (case parse_json source of
        None \<Rightarrow> (Inl Syntax_failure, w)
      | Some parsed \<Rightarrow>
          (let (current, w1) = get_workspace_config env w;
               document = as_object parsed;
               incoming = incoming_config_of document
           in case save_imported_config env (import_next_config current document) w1 of
                (Inl e, w2) \<Rightarrow> (Inl e, w2)
              | (Inr u, w2) \<Rightarrow>
                  (Inr \<lparr>imported_publishers = length (normalize_named_array (oget incoming ''publishers'')),
                        imported_consumers = length (normalize_named_array (oget incoming ''consumers'')),
                        imported_routes = length (own_keys (as_object (oget incoming ''routes'')))\<rparr>, w2)))"

definition reset_app_config_to_defaults ::
    "('n, 's) import_env \<Rightarrow> ('n, 's) import_world \<Rightarrow> (js_error + unit) \<times> ('n, 's) import_world" where
  "reset_app_config_to_defaults env w =
     (let current = ensured env 0 (iw_config w);
          next = oput ''history'' (JObj (sanitize_publisher_history (JObj [])))
            (oput ''config_security'' (oget current ''config_security'')
            (oput ''default_tab'' (JStr ''publishers'')
            (oput ''publishers'' (JArr [])
            (oput ''consumers'' (JArr []) (ospread [] current)))))
      in save_imported_config env (odel ''routes'' next) w)"

section \<open>Importing requests\<close>

definition unsupported_requests :: string where
  "unsupported_requests =
     ''Unsupported file. Use Postman collection JSON, OpenAPI JSON, or AsyncAPI JSON.''"

definition unsupported_file :: string where
  "unsupported_file =
     ''Unsupported file. Use mqb export/presets JSON, Postman collection JSON, OpenAPI JSON, or AsyncAPI JSON.''"

definition extract_imported_requests :: "string \<Rightarrow> js_error + request_import" where
  "extract_imported_requests source =
     (case parse_json source of
        None \<Rightarrow> Inl Syntax_failure
      | Some parsed \<Rightarrow>
          (let result = parse_request_import parsed
           in if ri_kind result = Unknown_kind then Inl (Js_error unsupported_requests) else Inr result))"

record import_options =
  io_include_config :: bool
  io_include_presets :: bool
  io_target_publisher_name :: string

record import_result =
  ir_preset_count :: nat
  ir_kind :: string
  ir_config_name :: jval

fun kind_text :: "import_kind \<Rightarrow> string" where
  "kind_text Postman = ''postman''"
| "kind_text Openapi = ''openapi''"
| "kind_text Asyncapi = ''asyncapi''"
| "kind_text Unknown_kind = ''unknown''"

text \<open>The locals of \<open>importFromJsonText\<close>.\<close>

record import_locals =
  il_config :: obj
  il_env_vars :: obj
  il_presets :: obj
  il_history :: obj
  il_count :: nat
  il_kind :: string

definition copied_settings :: "string list" where
  "copied_settings =
     [''publishers'', ''consumers'', ''routes'', ''default_tab'', ''log_level'', ''logger'', ''ui_addr'',
      ''metrics_addr'', ''config_security'']"

definition import_bundle_config ::
    "('n, 's) import_env \<Rightarrow> jval \<Rightarrow> import_locals \<Rightarrow> import_locals" where
  "import_bundle_config env document l =
     (let imported = ensured env 2 (from_entries (obj_entries (jget document ''config'')))
      in l\<lparr>il_config := fold (\<lambda>k c. oput k (oget imported k) c) copied_settings (il_config l),
           il_history := sanitize_publisher_history (oget imported ''history''),
           il_presets := sanitize_presets (oget imported ''presets''),
           il_env_vars := ospread (il_env_vars l) (sanitize_env_vars (oget imported ''env_vars''))\<rparr>)"

definition import_bundle_presets :: "jval \<Rightarrow> import_locals \<Rightarrow> import_locals" where
  "import_bundle_presets document l =
     (let imported = sanitize_presets (jget document ''presets'')
      in l\<lparr>il_presets := merge_preset_tables (il_presets l) imported,
           il_count := il_count l + sum_list (map (\<lambda>(k, rows). length (array_or_empty rows)) (own_entries imported)),
           il_env_vars := ospread (il_env_vars l) (sanitize_env_vars (jget document ''envVars''))\<rparr>)"

definition import_document ::
    "('n, 's) import_env \<Rightarrow> import_options \<Rightarrow> jval \<Rightarrow> import_locals \<Rightarrow> js_error + import_locals" where
  "import_document env opts document l =
     (if \<not> is_object document then Inr l
      else if jget document ''type'' \<in> {JStr ''mqb-export'', JStr ''mqb-presets''} then
        (let l1 = l\<lparr>il_kind := to_str (jget document ''type'')\<rparr>;
             l2 = (if io_include_config opts \<and> is_object (jget document ''config'')
               then import_bundle_config env document l1 else l1)
         in Inr (if io_include_presets opts then import_bundle_presets document l2 else l2))
      else let found = parse_request_import document in
        if ri_kind found = Unknown_kind then Inl (Js_error unsupported_file)
        else let l1 = l\<lparr>il_kind := kind_text (ri_kind found)\<rparr>
             in Inr (if io_include_presets opts
               then l1\<lparr>il_presets := merge_presets (il_presets l1) (io_target_publisher_name opts) (ri_requests found),
                       il_count := il_count l1 + length (ri_requests found),
                       il_env_vars := ospread (il_env_vars l1) (ri_env_vars found)\<rparr>
               else l1))"

definition imported_config :: "import_options \<Rightarrow> import_locals \<Rightarrow> obj" where
  "imported_config opts l =
     (let c1 = (if io_include_presets opts
            then oput ''env_vars'' (JObj (il_env_vars l)) (oput ''presets'' (JObj (il_presets l)) (il_config l))
            else il_config l)
      in if io_include_config opts then oput ''history'' (JObj (il_history l)) c1 else c1)"

definition import_from_json_text ::
    "('n, 's) import_env \<Rightarrow> import_options \<Rightarrow> string \<Rightarrow> ('n, 's) import_world
       \<Rightarrow> (js_error + import_result) \<times> ('n, 's) import_world" where
  "import_from_json_text env opts source w =
     (case parse_json source of
        None \<Rightarrow> (Inl Syntax_failure, w)
      | Some parsed \<Rightarrow>
          (let (config, w1) = get_workspace_config env w;
               current = ensured env 3 config;
               start = \<lparr>il_config = current, il_env_vars = ospread [] (sanitize_env_vars (oget current ''env_vars'')),
                 il_presets = sanitize_presets (oget current ''presets''),
                 il_history = sanitize_publisher_history (oget current ''history''),
                 il_count = 0, il_kind = ''unknown''\<rparr>
           in case import_document env opts parsed start of
                Inl e \<Rightarrow> (Inl e, w1)
              | Inr l \<Rightarrow>
                  (let result = \<lparr>ir_preset_count = il_count l, ir_kind = il_kind l, ir_config_name = oget current ''name''\<rparr>
                   in if io_include_config opts \<or> io_include_presets opts then
                        (case save_imported_config env (imported_config opts l) w1 of
                           (Inl e, w2) \<Rightarrow> (Inl e, w2)
                         | (Inr u, w2) \<Rightarrow> (Inr result, w2))
                      else (Inr result, w1))))"

definition import_of_kind ::
    "string \<Rightarrow> string \<Rightarrow> ('n, 's) import_env \<Rightarrow> string \<Rightarrow> string \<Rightarrow> ('n, 's) import_world
       \<Rightarrow> (js_error + import_result) \<times> ('n, 's) import_world" where
  "import_of_kind kind complaint env source target_name w =
     (case import_from_json_text env
         \<lparr>io_include_config = False, io_include_presets = True, io_target_publisher_name = target_name\<rparr> source w of
        (Inl e, w') \<Rightarrow> (Inl e, w')
      | (Inr result, w') \<Rightarrow> (if ir_kind result \<noteq> kind then Inl (Js_error complaint) else Inr result, w'))"

definition import_postman_from_json_text where
  "import_postman_from_json_text =
     import_of_kind ''postman'' ''Selected file is not a valid Postman collection JSON.''"

definition import_openapi_from_json_text where
  "import_openapi_from_json_text =
     import_of_kind ''openapi'' ''Selected file is not a valid OpenAPI JSON document.''"

definition import_asyncapi_from_json_text where
  "import_asyncapi_from_json_text =
     import_of_kind ''asyncapi'' ''Selected file is not a valid AsyncAPI JSON document.''"

section \<open>Exporting\<close>

record download =
  dl_name :: string
  dl_text :: string

definition iso_date_compact :: "string \<Rightarrow> string" where
  "iso_date_compact stamp = map (\<lambda>c. if c = CHR '':'' \<or> c = CHR ''.'' then CHR ''-'' else c) stamp"

definition trigger_json_download :: "string \<Rightarrow> jval \<Rightarrow> download" where
  "trigger_json_download filename v = \<lparr>dl_name = filename, dl_text = pretty 0 v\<rparr>"

text \<open>\<open>now\<close> and \<open>later\<close> are the two readings of the clock.\<close>

definition export_full_bundle ::
    "('n, 's) import_env \<Rightarrow> string \<Rightarrow> string \<Rightarrow> ('n, 's) import_world \<Rightarrow> download \<times> ('n, 's) import_world" where
  "export_full_bundle env now later w =
     (let (config, w1) = get_workspace_config env w
      in (trigger_json_download (''mqb-export-'' @ iso_date_compact later @ ''.json'')
            (JObj [(''type'', JStr ''mqb-export''), (''version'', JNum 1), (''exportedAt'', JStr now),
                   (''config'', JObj config), (''envVars'', JObj (sanitize_env_vars (oget config ''env_vars'')))]), w1))"

definition export_config_only :: "string \<Rightarrow> string \<Rightarrow> ('n, 's) import_world \<Rightarrow> download" where
  "export_config_only now later w =
     trigger_json_download (''mqb-config-'' @ iso_date_compact later @ ''.json'')
       (JObj [(''type'', JStr ''mqb-config''), (''version'', JNum 1), (''exportedAt'', JStr now),
              (''config'', JObj (iw_config w))])"

definition export_presets_only ::
    "('n, 's) import_env \<Rightarrow> string \<Rightarrow> string \<Rightarrow> ('n, 's) import_world \<Rightarrow> download \<times> ('n, 's) import_world" where
  "export_presets_only env now later w =
     (let (config, w1) = get_workspace_config env w
      in (trigger_json_download (''mqb-presets-'' @ iso_date_compact later @ ''.json'')
            (JObj [(''type'', JStr ''mqb-presets''), (''version'', JNum 1), (''exportedAt'', JStr now),
                   (''presets'', JObj (sanitize_presets (oget config ''presets''))),
                   (''envVars'', JObj (sanitize_env_vars (oget config ''env_vars'')))]), w1))"

definition export_presets_for_publisher ::
    "('n, 's) import_env \<Rightarrow> string \<Rightarrow> string \<Rightarrow> string \<Rightarrow> ('n, 's) import_world
       \<Rightarrow> download \<times> ('n, 's) import_world" where
  "export_presets_for_publisher env publisher_name now later w =
     (let (config, w1) = get_workspace_config env w; all_presets = sanitize_presets (oget config ''presets'')
      in (trigger_json_download (''mqb-presets-'' @ publisher_name @ ''-'' @ iso_date_compact later @ ''.json'')
            (JObj [(''type'', JStr ''mqb-presets''), (''version'', JNum 1), (''exportedAt'', JStr now),
                   (''presets'', JObj [(publisher_name, JArr (array_or_empty (oget all_presets publisher_name)))]),
                   (''envVars'', JObj (sanitize_env_vars (oget config ''env_vars'')))]), w1))"

section \<open>What merging does to the names\<close>

abbreviation import_name :: "string \<Rightarrow> string list \<Rightarrow> string" where
  "import_name base used \<equiv> fst (import_unique_name base used)"

definition row_base_name :: "jval \<Rightarrow> string" where
  "row_base_name raw = str_or (oget (as_object raw) ''name'') ''imported''"

definition renamed_row :: "jval \<Rightarrow> string \<Rightarrow> jval" where
  "renamed_row raw name = JObj (oput ''name'' (JStr name) (ospread [] (as_object raw)))"

lemma import_name_free: "base \<notin> set used \<Longrightarrow> import_unique_name base used = (base, base # used)"
  using import_unique_name_used [of base used] by (cases "import_unique_name base used") (auto simp: import_unique_name_def uniq_loop.simps Let_def)

lemma merge_row_step:
  "merge_row raw (merged, used)
    = (merged @ [renamed_row raw (import_name (row_base_name raw) used)], import_name (row_base_name raw) used # used)"
  using import_unique_name_used [of "row_base_name raw" used] import_name_free [of "row_base_name raw" used]
  by (auto simp: merge_row_def renamed_row_def row_base_name_def Let_def split: prod.splits)

lemma fold_merge_row:
  "fst (fold merge_row rows (merged, used))
    = merged @ map2 renamed_row rows (thread_names import_name used (map row_base_name rows))"
proof (induction rows arbitrary: merged used)
  case Nil
  then show ?case by simp
next
  case (Cons raw rows)
  then show ?case by (simp add: merge_row_step)
qed

lemma merge_named_entries_eq:
  "merge_named_entries current incoming = current
     @ map2 renamed_row incoming
         (thread_names import_name (map (\<lambda>row. member_str row ''name'') current) (map row_base_name incoming))"
  by (simp add: merge_named_entries_def fold_merge_row)

section \<open>A page for concrete runs\<close>

definition sample_import_env :: "(string, browser) import_env" where
  "sample_import_env =
     \<lparr>ie_fetch = keeping_server, ie_backend = local_storage_backend, ie_aead = framing_aead, ie_nonce = [],
      ie_origin = (\<lambda>_. None), ie_fresh = (\<lambda>_. nat_str), ie_marks = \<lparr>mk_open = [], mk_close = [], mk_arrow = []\<rparr>,
      ie_owners = []\<rparr>"

definition sample_import_world :: "(string, browser) import_world" where
  "sample_import_world = \<lparr>iw_net = ''{}'', iw_store = sample_store, iw_config = [], iw_security = Null\<rparr>"

definition sensitive_sample :: obj where
  "sensitive_sample = [(''config_security'', JObj [(''mode'', JStr ''sensitive'')]), (''history'', JObj [])]"

section \<open>Properties\<close>

definition rows_of :: "obj \<Rightarrow> string \<Rightarrow> jval list" where
  "rows_of config section_name = normalize_named_array (oget config section_name)"

abbreviation row_name :: "jval \<Rightarrow> string" where
  "row_name row \<equiv> member_str row ''name''"

lemma row_name_renamed: "row_name (renamed_row raw name) = name"
  by (simp add: renamed_row_def member_str_def)

lemma map_row_name_renamed: "length ns = length raws \<Longrightarrow> map row_name (map2 renamed_row raws ns) = ns"
  by (induction raws ns rule: list_induct2') (auto simp: row_name_renamed)

lemma import_next_sections:
  "oget (import_next_config current document) ''publishers''
     = JArr (merge_named_entries (rows_of current ''publishers'') (rows_of (incoming_config_of document) ''publishers''))"
  "oget (import_next_config current document) ''consumers''
     = JArr (merge_named_entries (rows_of current ''consumers'') (rows_of (incoming_config_of document) ''consumers''))"
  by (simp_all add: import_next_config_def rows_of_def Let_def)



text \<open>A document the import does not understand changes nothing outside this page: nothing is
  sent to the server and nothing is stored; the only effect is that the live configuration has
  been completed.\<close>

theorem unsupported_import_saves_nothing:
  assumes "parse_json source = Some document" and "is_object document"
    and "jget document ''type'' \<notin> {JStr ''mqb-export'', JStr ''mqb-presets''}"
    and "ri_kind (parse_request_import document) = Unknown_kind"
  shows "import_from_json_text env opts source w
    = (Inl (Js_error unsupported_file), w\<lparr>iw_config := ensured env 0 (iw_config w)\<rparr>)"
  using assms by (simp add: import_from_json_text_def import_document_def get_workspace_config_def Let_def)

theorem unsupported_import_saves_nothing_witness:
  "import_from_json_text sample_import_env
      \<lparr>io_include_config = True, io_include_presets = True, io_target_publisher_name = ''p''\<rparr> ''{\"a\":1}''
      sample_import_world
    = (Inl (Js_error unsupported_file),
       sample_import_world\<lparr>iw_config := ensured sample_import_env 0 (iw_config sample_import_world)\<rparr>)"
proof -
  have p: "parse_json ''{\"a\":1}'' = Some (JObj [(''a'', JNum 1)])" by code_simp
  have k: "ri_kind (parse_request_import (JObj [(''a'', JNum 1)])) = Unknown_kind" by code_simp
  show ?thesis by (rule unsupported_import_saves_nothing [OF p _ _ k]) simp_all
qed

text \<open>The import of one kind of request file saves before it looks at the kind: when the file is
  understood but of another kind, the caller sees an error although the requests of that file
  have been saved, exactly as a successful import would have saved them.\<close>

lemma wrong_kind_is_saved:
  assumes "import_from_json_text env
      \<lparr>io_include_config = False, io_include_presets = True, io_target_publisher_name = target_name\<rparr> source w
      = (Inr result, w')"
    and "ir_kind result \<noteq> ''postman''"
  shows "import_postman_from_json_text env source target_name w
    = (Inl (Js_error ''Selected file is not a valid Postman collection JSON.''), w')"
  using assms by (simp add: import_postman_from_json_text_def import_of_kind_def)

section \<open>The history in the browser store\<close>

lemma local_removed: "get_item local_storage_backend (remove_stored_json local_storage_backend s k) k = None"
  by (auto simp: remove_stored_json_def local_storage_backend_def local_remove_item_def local_get_item_def
      get_browser_storage_def split: option.splits browser.splits)

lemma store_history_removed:
  assumes "ie_backend env = local_storage_backend"
    and "\<not> has_encrypted_messages (resolve_storage_security (iw_security w) config)"
    and "messages_encrypted (resolve_storage_security (iw_security w) config) \<or> is_sensitive_config config"
    and "store_history env config history w = (None, s')"
  shows "get_item local_storage_backend s' publisher_history_key = None"
  using assms by (auto simp: store_history_def Let_def local_removed split: if_splits)



section \<open>Postman folders\<close>

text \<open>The requests of a collection, in whatever depth of folders.\<close>

inductive postman_request :: "string list \<Rightarrow> jval list \<Rightarrow> string list \<Rightarrow> obj \<Rightarrow> bool" where
  here: "JObj row \<in> set rows \<Longrightarrow> is_object (oget row ''request'') \<Longrightarrow> postman_request path rows path row"
| inside: "JObj folder \<in> set rows \<Longrightarrow> oget folder ''item'' = JArr sub
    \<Longrightarrow> postman_request (folder_below folder path) sub folders row \<Longrightarrow> postman_request path rows folders row"

inductive_cases no_request: "postman_request path [] folders row"

definition folder_entry :: "string list \<Rightarrow> obj \<Rightarrow> jval" where
  "folder_entry folders row = JObj (oput ''__folderPath'' (JArr (map JStr folders)) (ospread [] row))"

lemma postman_request_mono:
  assumes "postman_request path rows folders row" and "set rows \<subseteq> set rows2"
  shows "postman_request path rows2 folders row"
  using assms by (cases rule: postman_request.cases) (auto intro: postman_request.intros)

lemma postman_request_Cons:
  "postman_request path (item # rows) folders row \<longleftrightarrow>
     postman_request path rows folders row
     \<or> (item = JObj row \<and> is_object (oget row ''request'') \<and> folders = path)
     \<or> (\<exists>folder sub. item = JObj folder \<and> oget folder ''item'' = JArr sub
          \<and> postman_request (folder_below folder path) sub folders row)"
proof
  assume "postman_request path (item # rows) folders row"
  then show "postman_request path rows folders row
     \<or> (item = JObj row \<and> is_object (oget row ''request'') \<and> folders = path)
     \<or> (\<exists>folder sub. item = JObj folder \<and> oget folder ''item'' = JArr sub
          \<and> postman_request (folder_below folder path) sub folders row)"
    by cases (auto intro: postman_request.intros)
qed (auto intro: postman_request.intros elim: postman_request_mono)

text \<open>Reading a Postman collection finds exactly the requests in it, at every depth of folders,
  each with the names of the folders around it.\<close>

theorem flatten_finds_requests:
  "entry \<in> set (flatten_postman_items rows path)
     \<longleftrightarrow> (\<exists>folders row. postman_request path rows folders row \<and> entry = folder_entry folders row)"
proof (induction rows path rule: flatten_postman_items.induct)
  case (1 path)
  then show ?case by (auto elim: no_request)
next
  case (2 item rows path)
  show ?case
  proof (cases item)
    case (JObj row)
    show ?thesis
    proof (cases "\<exists>sub. oget row ''item'' = JArr sub")
      case True
      then obtain sub where "oget row ''item'' = JArr sub" by blast
      with 2 JObj show ?thesis by (auto simp: postman_request_Cons folder_entry_def)
    next
      case False
      with 2 JObj show ?thesis by (cases "oget row ''item''") (auto simp: postman_request_Cons folder_entry_def)
    qed
  qed (use 2 in \<open>simp_all add: postman_request_Cons\<close>)
qed

end
