(* ===== verification/Dialogs.thy ===== *)
theory Dialogs
  imports Prelude
begin

text \<open>
  The dialog queue (\<open>dialogs.ts\<close>): one dialog is shown at a time, later requests wait in line. A
  promise is named by the identifier of its dialog; \<open>answers\<close> records the promises that have
  been resolved and with what, in order. The interface \<open>fifo\<close> says what a waiting line promises;
  the pair of shown dialog and waiting ones provides it.
\<close>

section \<open>A waiting line\<close>

locale fifo =
  fixes join_line :: "'a \<Rightarrow> 'q \<Rightarrow> 'q"
    and first_in_line :: "'q \<Rightarrow> 'a option"
    and leave_line :: "'q \<Rightarrow> 'q"
    and in_line :: "'q \<Rightarrow> 'a list"
    and sound :: "'q \<Rightarrow> bool"
  assumes joined: "sound q \<Longrightarrow> in_line (join_line x q) = in_line q @ [x] \<and> sound (join_line x q)"
    and first: "sound q \<Longrightarrow> first_in_line q = (case in_line q of [] \<Rightarrow> None | x # xs \<Rightarrow> Some x)"
    and left: "sound q \<Longrightarrow> in_line (leave_line q) = tl (in_line q) \<and> sound (leave_line q)"
begin

lemma joined_all: "sound q \<Longrightarrow> in_line (fold join_line xs q) = in_line q @ xs \<and> sound (fold join_line xs q)"
  by (induction xs arbitrary: q) (auto simp: joined)

lemma left_many: "sound q \<Longrightarrow> in_line ((leave_line ^^ n) q) = drop n (in_line q) \<and> sound ((leave_line ^^ n) q)"
  by (induction n) (auto simp: left drop_Suc tl_drop)

text \<open>Who joins behind \<open>n\<close> others is the first one after \<open>n\<close> have left.\<close>

lemma served_in_order:
  assumes "sound q"
  shows "first_in_line ((leave_line ^^ length (in_line q)) (join_line x q)) = Some x"
proof -
  have "sound (join_line x q)" and l: "in_line (join_line x q) = in_line q @ [x]"
    using joined [OF assms] by auto
  then show ?thesis
    using left_many [of "join_line x q" "length (in_line q)"] first by simp
qed

end

section \<open>Requests\<close>

datatype dialog_mode = Message_mode | Confirm_mode | Prompt_mode | Choose_mode

record dialog_choice =
  dc_value :: string
  dc_label :: string
  dc_description :: "string option"

text \<open>An optional member that is absent is \<open>None\<close>.\<close>

record dialog_request =
  dr_title :: string
  dr_message :: string
  dr_confirm_label :: "string option"
  dr_cancel_label :: "string option"
  dr_value :: "string option"
  dr_placeholder :: "string option"
  dr_mode :: "dialog_mode option"
  dr_choices :: "dialog_choice list option"

datatype dialog_answer = Flag bool | Text string | No_answer

record dialog =
  dg_id :: nat
  dg_request :: dialog_request

record dialog_state =
  active_dialog :: "dialog option"
  next_dialog_id :: nat
  pending_dialogs :: "dialog list"
  answers :: "(nat \<times> dialog_answer) list"

definition no_dialogs :: dialog_state where
  "no_dialogs = \<lparr>active_dialog = None, next_dialog_id = 1, pending_dialogs = [], answers = []\<rparr>"

definition enqueue :: "dialog \<Rightarrow> dialog_state \<Rightarrow> dialog_state" where
  "enqueue d s =
     (case active_dialog s of
        Some _ \<Rightarrow> s\<lparr>pending_dialogs := pending_dialogs s @ [d]\<rparr>
      | None \<Rightarrow> s\<lparr>active_dialog := Some d\<rparr>)"

text \<open>\<open>showDialog\<close> gives the identifier of the promise.\<close>

definition show_dialog :: "dialog_request \<Rightarrow> dialog_state \<Rightarrow> nat \<times> dialog_state" where
  "show_dialog request s =
     (let next_dialog = \<lparr>dg_id = next_dialog_id s, dg_request = request\<rparr>
      in (dg_id next_dialog, enqueue next_dialog (s\<lparr>next_dialog_id := next_dialog_id s + 1\<rparr>)))"

definition advance :: "dialog_state \<Rightarrow> dialog_state" where
  "advance s =
     (case pending_dialogs s of
        [] \<Rightarrow> s\<lparr>active_dialog := None\<rparr>
      | d # ds \<Rightarrow> s\<lparr>active_dialog := Some d, pending_dialogs := ds\<rparr>)"

definition resolve_active :: "dialog_answer \<Rightarrow> dialog_state \<Rightarrow> dialog_state" where
  "resolve_active result s =
     (case active_dialog s of
        Some d \<Rightarrow> s\<lparr>answers := answers s @ [(dg_id d, result)]\<rparr>
      | None \<Rightarrow> s)"

definition close_dialog :: "dialog_answer \<Rightarrow> nat option \<Rightarrow> dialog_state \<Rightarrow> dialog_state" where
  "close_dialog result expected_dialog_id s =
     (if expected_dialog_id \<noteq> None \<and> map_option dg_id (active_dialog s) \<noteq> expected_dialog_id then s
      else advance (resolve_active result s))"

section \<open>The kinds of dialog\<close>

definition given :: "string option \<Rightarrow> string \<Rightarrow> string" where
  "given v d = (case v of Some s \<Rightarrow> s | None \<Rightarrow> d)"

text \<open>\<open>options.x || d\<close>\<close>

definition option_or :: "string option \<Rightarrow> string \<Rightarrow> string" where
  "option_or v d = (case v of Some s \<Rightarrow> if s = [] then d else s | None \<Rightarrow> d)"

definition plain_request :: "string \<Rightarrow> string \<Rightarrow> dialog_mode \<Rightarrow> dialog_request" where
  "plain_request title message mode =
     \<lparr>dr_title = title, dr_message = message, dr_confirm_label = None, dr_cancel_label = None,
      dr_value = None, dr_placeholder = None, dr_mode = Some mode, dr_choices = None\<rparr>"

definition alert_dialog :: "string \<Rightarrow> string option \<Rightarrow> dialog_state \<Rightarrow> nat \<times> dialog_state" where
  "alert_dialog message title =
     show_dialog ((plain_request (given title ''Notice'') message Message_mode)\<lparr>dr_confirm_label := Some ''OK''\<rparr>)"

definition confirm_dialog :: "string \<Rightarrow> string option \<Rightarrow> dialog_state \<Rightarrow> nat \<times> dialog_state" where
  "confirm_dialog message title =
     show_dialog ((plain_request (given title ''Confirm'') message Confirm_mode)
       \<lparr>dr_confirm_label := Some ''Continue'', dr_cancel_label := Some ''Cancel''\<rparr>)"

record prompt_options =
  po_confirm_label :: "string option"
  po_cancel_label :: "string option"
  po_value :: "string option"
  po_placeholder :: "string option"

record choose_options =
  co_confirm_label :: "string option"
  co_cancel_label :: "string option"
  co_choices :: "dialog_choice list option"

definition prompt_dialog ::
    "string \<Rightarrow> string option \<Rightarrow> prompt_options \<Rightarrow> dialog_state \<Rightarrow> nat \<times> dialog_state" where
  "prompt_dialog message title opts =
     show_dialog ((plain_request (given title ''Enter Name'') message Prompt_mode)
       \<lparr>dr_confirm_label := Some (option_or (po_confirm_label opts) ''Create''),
        dr_cancel_label := Some (option_or (po_cancel_label opts) ''Cancel''),
        dr_value := Some (option_or (po_value opts) []),
        dr_placeholder := Some (option_or (po_placeholder opts) [])\<rparr>)"

definition choose_dialog ::
    "string \<Rightarrow> string option \<Rightarrow> choose_options \<Rightarrow> dialog_state \<Rightarrow> nat \<times> dialog_state" where
  "choose_dialog message title opts =
     show_dialog ((plain_request (given title ''Choose'') message Choose_mode)
       \<lparr>dr_confirm_label := co_confirm_label opts,
        dr_cancel_label := Some (option_or (co_cancel_label opts) ''Cancel''),
        dr_choices := Some (case co_choices opts of Some cs \<Rightarrow> cs | None \<Rightarrow> [])\<rparr>)"

section \<open>Runs\<close>

datatype dialog_event =
    Show_event dialog_request
  | Close_event dialog_answer "nat option"

fun on_dialog_event :: "dialog_event \<Rightarrow> dialog_state \<Rightarrow> dialog_state" where
  "on_dialog_event (Show_event request) s = snd (show_dialog request s)"
| "on_dialog_event (Close_event result expected) s = close_dialog result expected s"

inductive dialogs_reachable :: "dialog_state \<Rightarrow> bool" where
  start: "dialogs_reachable no_dialogs"
| event: "dialogs_reachable s \<Longrightarrow> dialogs_reachable (on_dialog_event e s)"

definition waiting :: "dialog_state \<Rightarrow> dialog list" where
  "waiting s = (case active_dialog s of Some d \<Rightarrow> [d] | None \<Rightarrow> []) @ pending_dialogs s"

definition no_gap :: "dialog_state \<Rightarrow> bool" where
  "no_gap s \<longleftrightarrow> (active_dialog s = None \<longrightarrow> pending_dialogs s = [])"

lemmas dialog_defs = enqueue_def advance_def resolve_active_def waiting_def no_gap_def

interpretation shown: fifo enqueue active_dialog advance waiting no_gap
  by unfold_locales (auto simp: dialog_defs split: option.splits list.splits)

lemma waiting_show: "no_gap s \<Longrightarrow> waiting (snd (show_dialog request s))
    = waiting s @ [\<lparr>dg_id = next_dialog_id s, dg_request = request\<rparr>] \<and> no_gap (snd (show_dialog request s))"
  by (auto simp: show_dialog_def dialog_defs split: option.splits)

lemma resolve_waiting [simp]: "waiting (resolve_active a s) = waiting s" "no_gap (resolve_active a s) = no_gap s"
  by (auto simp: dialog_defs split: option.splits)

lemma answers_resolve: "no_gap s \<Longrightarrow> answers (resolve_active a s)
    = answers s @ (case waiting s of [] \<Rightarrow> [] | d # ds \<Rightarrow> [(dg_id d, a)])"
  by (auto simp: dialog_defs split: option.splits)

lemma show_other [simp]:
  "answers (snd (show_dialog request s)) = answers s"
  "next_dialog_id (snd (show_dialog request s)) = Suc (next_dialog_id s)"
  by (auto simp: show_dialog_def enqueue_def Let_def split: option.splits)

lemma advance_other [simp]: "answers (advance s) = answers s" "next_dialog_id (advance s) = next_dialog_id s"
  by (auto simp: advance_def split: list.splits)

lemma resolve_other [simp]: "next_dialog_id (resolve_active a s) = next_dialog_id s"
  by (auto simp: resolve_active_def split: option.splits)

definition ledger :: "dialog_state \<Rightarrow> nat list" where
  "ledger s = map fst (answers s) @ map dg_id (waiting s)"

lemma ledger_show: "no_gap s \<Longrightarrow> ledger (snd (show_dialog request s)) = ledger s @ [next_dialog_id s]"
  by (simp add: ledger_def waiting_show)

lemma ledger_close: "no_gap s \<Longrightarrow> ledger (advance (resolve_active a s)) = ledger s"
  using shown.left [of "resolve_active a s"]
  by (cases "waiting s") (auto simp: ledger_def answers_resolve)

lemma reachable_ledger:
  "dialogs_reachable s \<Longrightarrow> no_gap s \<and> 1 \<le> next_dialog_id s \<and> ledger s = [1..<next_dialog_id s]"
proof (induction rule: dialogs_reachable.induct)
  case start
  show ?case by (simp add: no_dialogs_def ledger_def dialog_defs)
next
  case (event s e)
  then have g: "no_gap s" and l: "ledger s = [1..<next_dialog_id s]" and n: "1 \<le> next_dialog_id s" by auto
  show ?case
  proof (cases e)
    case (Show_event request)
    with g l n show ?thesis using waiting_show [OF g] ledger_show [OF g] by simp
  next
    case (Close_event result expected)
    have "no_gap (advance (resolve_active result s))"
      using shown.left [of "resolve_active result s"] g by simp
    with Close_event g l n show ?thesis using ledger_close [OF g] by (simp add: close_dialog_def)
  qed
qed

text \<open>C29: In every state the page can reach, each dialog ever asked for is in exactly one place, and in
  the order of asking: first the answered ones, then the one that is shown, then the waiting ones.
  So no request is lost or answered twice, answers come in the order of the requests, and
  nothing waits while no dialog is shown.\<close>

theorem dialogs_answered_in_order:
  assumes "dialogs_reachable s"
  shows "map fst (answers s) @ map dg_id (waiting s) = [1..<next_dialog_id s]
    \<and> (active_dialog s = None \<longrightarrow> pending_dialogs s = [])"
  using reachable_ledger [OF assms] by (simp add: ledger_def no_gap_def)

theorem dialogs_answered_in_order_witness:
  "map fst (answers (close_dialog (Flag True) None (snd (alert_dialog ''b'' None (snd (alert_dialog ''a'' None no_dialogs)))))) @ [2]
    = [1..<3]"
proof -
  let ?s = "snd (alert_dialog ''b'' None (snd (alert_dialog ''a'' None no_dialogs)))"
  have "dialogs_reachable ?s"
    unfolding alert_dialog_def on_dialog_event.simps(1) [symmetric]
    by (intro dialogs_reachable.intros)
  then have "dialogs_reachable (close_dialog (Flag True) None ?s)"
    using dialogs_reachable.event [of ?s "Close_event (Flag True) None"] by simp
  from dialogs_answered_in_order [OF this]
  have "map fst (answers (close_dialog (Flag True) None ?s)) @ map dg_id (waiting (close_dialog (Flag True) None ?s))
    = [1..<next_dialog_id (close_dialog (Flag True) None ?s)]" by blast
  moreover have "map dg_id (waiting (close_dialog (Flag True) None ?s)) = [2]" by code_simp
  moreover have "next_dialog_id (close_dialog (Flag True) None ?s) = 3" by code_simp
  ultimately show ?thesis by simp
qed

definition close_all :: "dialog_answer list \<Rightarrow> dialog_state \<Rightarrow> dialog_state" where
  "close_all results s = fold (\<lambda>a. close_dialog a None) results s"

lemma close_all_answers:
  "no_gap s \<Longrightarrow> length results \<le> length (waiting s) \<Longrightarrow>
    answers (close_all results s) = answers s @ zip (map dg_id (waiting s)) results
    \<and> waiting (close_all results s) = drop (length results) (waiting s)"
proof (induction results arbitrary: s)
  case Nil
  then show ?case by (simp add: close_all_def)
next
  case (Cons a results)
  let ?s = "advance (resolve_active a s)"
  have w: "waiting ?s = tl (waiting s)" "no_gap ?s"
    using shown.left [of "resolve_active a s"] Cons.prems(1) by auto
  obtain d ds where d: "waiting s = d # ds" using Cons.prems(2) by (cases "waiting s") auto
  have "close_all (a # results) s = close_all results ?s"
    by (simp add: close_all_def close_dialog_def)
  with Cons.IH [OF w(2)] Cons.prems w d show ?case by (simp add: answers_resolve)
qed

text \<open>A dialog that waits is answered: when \<open>n\<close> dialogs are open or waiting, closing \<open>n\<close> times
  answers them in the order in which they were asked for, the \<open>i\<close>th with the \<open>i\<close>th result, and
  leaves no dialog behind; a close that names another dialog than the shown one changes nothing.\<close>

theorem closing_serves_all:
  assumes "dialogs_reachable s" and "length results = length (waiting s)"
  shows "answers (close_all results s) = answers s @ zip (map dg_id (waiting s)) results
    \<and> waiting (close_all results s) = []
    \<and> (\<forall>d i a. active_dialog s = Some d \<longrightarrow> i \<noteq> dg_id d \<longrightarrow> close_dialog a (Some i) s = s)"
  using close_all_answers [of s results] reachable_ledger [OF assms(1)] assms(2)
  by (auto simp: close_dialog_def)

theorem closing_serves_all_witness:
  "answers (close_all [Text ''x'', No_answer] (snd (confirm_dialog ''b'' None (snd (confirm_dialog ''a'' None no_dialogs)))))
    = [(1, Text ''x''), (2, No_answer)]"
proof -
  let ?s = "snd (confirm_dialog ''b'' None (snd (confirm_dialog ''a'' None no_dialogs)))"
  have r: "dialogs_reachable ?s"
    unfolding confirm_dialog_def on_dialog_event.simps(1) [symmetric]
    by (intro dialogs_reachable.intros)
  have w: "map dg_id (waiting ?s) = [1, 2]" by code_simp
  then have n: "length [Text ''x'', No_answer] = length (waiting ?s)" by (metis length_map length_Cons list.size(3))
  have a: "answers ?s = []" by code_simp
  from closing_serves_all [OF r n] show ?thesis by (simp add: w a)
qed

end
