(* ===== verification/RuntimeStatus.thy ===== *)
theory RuntimeStatus
  imports ConfigApi
begin

text \<open>
  The status the server reports and the poller that asks for it (\<open>runtime-status.ts\<close>). A poll sends
  a status request and, unless that has been refused, a peer request; the replies arrive in any
  order and at any time, so the poller is a step relation over the page's clock ticks, calls and
  replies.
\<close>

section \<open>Normalised status\<close>

record endpoint_status =
  es_healthy :: bool
  es_target :: string
  es_pending :: "int option"
  es_capacity :: "int option"
  es_error :: "string option"
  es_details :: jval

record consumer_state =
  cs_running :: bool
  cs_status :: endpoint_status
  cs_throughput :: int
  cs_message_sequence :: int
  cs_capture_enabled :: bool
  cs_capture_keep_last :: int

record runtime_status =
  active_consumers :: "string list"
  active_routes :: "string list"
  route_throughput :: jval
  status_consumers :: "(string \<times> consumer_state) list"

definition empty_runtime_status :: runtime_status where
  "empty_runtime_status =
     \<lparr>active_consumers = [], active_routes = [], route_throughput = JObj [], status_consumers = []\<rparr>"

definition is_runtime_connected :: "runtime_status \<Rightarrow> bool" where
  "is_runtime_connected s \<longleftrightarrow> 0 < length (active_consumers s) \<or> 0 < length (active_routes s)"

definition counted :: "nat \<Rightarrow> string \<Rightarrow> string" where
  "counted n what = nat_str n @ '' '' @ what @ (if n = 1 then [] else ''s'')"

text \<open>\<open>bullet\<close> is the separator, which contains a character outside the model's range.\<close>

definition runtime_status_label :: "string \<Rightarrow> runtime_status \<Rightarrow> string" where
  "runtime_status_label bullet s =
     (if \<not> is_runtime_connected s then ''mq-bridge idle''
      else join bullet
        ((if 0 < length (active_routes s) then [counted (length (active_routes s)) ''active route''] else [])
         @ (if 0 < length (active_consumers s) then [counted (length (active_consumers s)) ''active consumer''] else [])))"

definition object_members :: "jval \<Rightarrow> obj" where
  "object_members v = (if is_object v then obj_entries v else [])"

definition num_or_null :: "jval \<Rightarrow> int option" where
  "num_or_null v = (case v of JNum n \<Rightarrow> Some n | _ \<Rightarrow> None)"

definition num_or :: "jval \<Rightarrow> int \<Rightarrow> int" where
  "num_or v d = (case v of JNum n \<Rightarrow> n | _ \<Rightarrow> d)"

definition normalize_consumer :: "string \<Rightarrow> jval \<Rightarrow> consumer_state" where
  "normalize_consumer name v =
     (let raw = (if is_object v then v else JObj []);
          status = (if is_object (jget raw ''status'') then jget raw ''status'' else JObj [])
      in \<lparr>cs_running = truthy (jget raw ''running''),
          cs_status =
            \<lparr>es_healthy = truthy (jget status ''healthy''),
             es_target = (case jget status ''target'' of JStr s \<Rightarrow> s | _ \<Rightarrow> name),
             es_pending = num_or_null (jget status ''pending''),
             es_capacity = num_or_null (jget status ''capacity''),
             es_error = (case jget status ''error'' of JStr s \<Rightarrow> if s \<noteq> [] then Some s else None | _ \<Rightarrow> None),
             es_details = coalesce (jget status ''details'') Null\<rparr>,
          cs_throughput = num_or (jget raw ''throughput'') 0,
          cs_message_sequence = num_or (jget raw ''message_sequence'') 0,
          cs_capture_enabled = (case jget raw ''capture_enabled'' of JBool b \<Rightarrow> b | _ \<Rightarrow> True),
          cs_capture_keep_last = num_or (jget raw ''capture_keep_last'') 100\<rparr>)"

definition normalize_status :: "jval \<Rightarrow> runtime_status" where
  "normalize_status raw =
     (let status = (if is_object raw then raw else JObj [])
      in \<lparr>active_consumers = map to_str (array_or_empty (jget status ''active_consumers'')),
          active_routes = map to_str (array_or_empty (jget status ''active_routes'')),
          route_throughput =
            (if is_object (jget status ''route_throughput'') then jget status ''route_throughput'' else JObj []),
          status_consumers = from_entries
            (map (\<lambda>(name, v). (name, normalize_consumer name v)) (object_members (jget status ''consumers'')))\<rparr>)"

text \<open>The JSON form of a normalised status, in the order in which the sources build it.\<close>

definition num_json :: "int option \<Rightarrow> jval" where
  "num_json v = (case v of Some n \<Rightarrow> JNum n | None \<Rightarrow> Null)"

definition endpoint_json :: "endpoint_status \<Rightarrow> jval" where
  "endpoint_json s = JObj
     ([(''healthy'', JBool (es_healthy s)), (''target'', JStr (es_target s)),
       (''pending'', num_json (es_pending s)), (''capacity'', num_json (es_capacity s))]
      @ (case es_error s of Some e \<Rightarrow> [(''error'', JStr e)] | None \<Rightarrow> [])
      @ [(''details'', es_details s)])"

definition consumer_json :: "consumer_state \<Rightarrow> jval" where
  "consumer_json c = JObj
     [(''running'', JBool (cs_running c)), (''status'', endpoint_json (cs_status c)),
      (''throughput'', JNum (cs_throughput c)), (''message_sequence'', JNum (cs_message_sequence c)),
      (''capture_enabled'', JBool (cs_capture_enabled c)), (''capture_keep_last'', JNum (cs_capture_keep_last c))]"

definition status_json :: "runtime_status \<Rightarrow> jval" where
  "status_json s = JObj
     [(''active_consumers'', JArr (map JStr (active_consumers s))),
      (''active_routes'', JArr (map JStr (active_routes s))),
      (''route_throughput'', route_throughput s),
      (''consumers'', JObj (map (\<lambda>(name, c). (name, consumer_json c)) (status_consumers s)))]"

lemma normalize_consumer_fix:
  "normalize_consumer name (consumer_json (normalize_consumer other v)) = normalize_consumer other v"
  by (simp add: normalize_consumer_def consumer_json_def endpoint_json_def num_json_def num_or_null_def
      num_or_def coalesce_def Let_def split: option.splits jval.splits)

lemma is_index_nat_str: "is_index (nat_str n) \<longleftrightarrow> n < 4294967295"
proof -
  have "list_all is_digit (nat_str n)" by (auto simp: list_all_iff intro: nat_str_digits)
  moreover have "hd (nat_str n) = CHR ''0'' \<Longrightarrow> nat_str n = ''0''"
    using nat_str_zero [of n] by (auto simp: nat_str.simps)
  ultimately show ?thesis by (auto simp: is_index_def)
qed

lemma obj_entries_ordered: "own_entries (obj_entries v) = obj_entries v"
proof -
  have "sorted_wrt entry_before (map2 (\<lambda>i x. (nat_str i, f x)) [0..<length xs] xs)" for xs :: "'x list" and f :: "'x \<Rightarrow> jval"
    by (auto simp: sorted_wrt_iff_nth_less entry_before_def is_index_nat_str)
  from this [of "\<lambda>x. x"] this [of "\<lambda>c. JStr [c]"] show ?thesis
    by (cases v) (auto simp: own_entries_fix [symmetric])
qed

lemma status_consumers_ordered:
  "own_entries (status_consumers (normalize_status raw)) = status_consumers (normalize_status raw)"
proof -
  have "own_entries (object_members v) = object_members v" for v
    by (simp add: object_members_def obj_entries_ordered)
  then have "own_entries (map (\<lambda>(n, v). (n, normalize_consumer n v)) (object_members v))
      = map (\<lambda>(n, v). (n, normalize_consumer n v)) (object_members v)" for v
    unfolding own_entries_fix by (simp add: sorted_wrt_map entry_before_def [abs_def] case_prod_unfold)
  then show ?thesis
    by (simp add: normalize_status_def Let_def own_entries_from_entries)
qed

lemma status_consumers_normal:
  assumes "(name, c) \<in> set (status_consumers (normalize_status raw))"
  shows "normalize_consumer name (consumer_json c) = c"
proof -
  obtain v where "c = normalize_consumer name v"
    using assms set_from_entries by (fastforce simp: normalize_status_def Let_def)
  then show ?thesis by (simp add: normalize_consumer_fix)
qed

lemma distinct_status_consumers: "distinct (map fst (status_consumers (normalize_status raw)))"
  by (simp add: normalize_status_def Let_def)

lemma normalize_status_json:
  "is_object (route_throughput s) \<Longrightarrow> normalize_status (status_json s) = s\<lparr>status_consumers :=
     from_entries (map (\<lambda>(name, v). (name, normalize_consumer name v))
       (object_members (JObj (map (\<lambda>(name, c). (name, consumer_json c)) (status_consumers s)))))\<rparr>"
  by (simp add: normalize_status_def status_json_def comp_def)

text \<open>Whatever the server sends, the normalised status is complete and normal: sending its JSON
  form through the normalisation again gives the same status.\<close>

theorem normalize_status_roundtrip:
  "normalize_status (status_json (normalize_status raw)) = normalize_status raw"
proof -
  let ?n = "normalize_status raw"
  have throughput: "is_object (route_throughput ?n)" by (simp add: normalize_status_def Let_def)
  have names: "map (\<lambda>(name, v). (name, normalize_consumer name v))
      (map (\<lambda>(name, c). (name, consumer_json c)) (status_consumers ?n)) = status_consumers ?n"
    using status_consumers_normal [of _ _ raw] by (auto simp: case_prod_unfold intro!: map_idI)
  have members: "object_members (JObj (map (\<lambda>(name, c). (name, consumer_json c)) (status_consumers ?n)))
      = map (\<lambda>(name, c). (name, consumer_json c)) (status_consumers ?n)"
    by (simp add: object_members_def own_entries_map_snd status_consumers_ordered)
  have "normalize_status (status_json ?n) = ?n\<lparr>status_consumers := from_entries (status_consumers ?n)\<rparr>"
    unfolding normalize_status_json [OF throughput] members names ..
  then show ?thesis by (simp add: distinct_status_consumers)
qed

section \<open>The poller\<close>

record peer_status =
  current_instance_id :: string
  instances :: "jval list"

definition empty_peer_status :: peer_status where
  "empty_peer_status = \<lparr>current_instance_id = [], instances = []\<rparr>"

text \<open>What the status request of a poll gives: \<open>None\<close> for any failure.\<close>

definition runtime_result :: "js_error + response \<Rightarrow> runtime_status option" where
  "runtime_result reply =
     (case reply of
        Inl _ \<Rightarrow> None
      | Inr r \<Rightarrow> (if \<not> rs_ok r then None
          else case response_json r of Inl _ \<Rightarrow> None | Inr v \<Rightarrow> Some (normalize_status v)))"

text \<open>The peer list a reply reports; reading a member of \<open>null\<close> throws, which is caught.\<close>

definition peer_result :: "js_error + response \<Rightarrow> peer_status option" where
  "peer_result reply =
     (case reply of
        Inl _ \<Rightarrow> None
      | Inr r \<Rightarrow> (if rs_status r = 403 then Some empty_peer_status
          else if \<not> rs_ok r then None
          else case response_json r of
            Inl _ \<Rightarrow> None
          | Inr raw \<Rightarrow> (if raw = Null then None
              else Some \<lparr>current_instance_id = (case jget raw ''current_instance_id'' of JStr s \<Rightarrow> s | _ \<Rightarrow> []),
                         instances = array_or_empty (jget raw ''instances'')\<rparr>)))"

definition refused :: "js_error + response \<Rightarrow> bool" where
  "refused reply = (case reply of Inl _ \<Rightarrow> False | Inr r \<Rightarrow> rs_status r = 403)"

text \<open>A poll that is under way: who began it, and which of its two parts have arrived.\<close>

record poll =
  pl_ticked :: bool
  pl_runtime :: "runtime_status option option"
  pl_peer_done :: bool

record poller =
  pr_timer :: bool
  pr_in_flight :: bool
  pr_forbidden :: bool
  pr_polls :: "(nat \<times> poll) list"
  pr_begun :: nat
  pr_peer_requests :: nat
  pr_published :: "runtime_status list"
  pr_peer_statuses :: "peer_status list"

definition create_runtime_status_poller :: poller where
  "create_runtime_status_poller =
     \<lparr>pr_timer = False, pr_in_flight = False, pr_forbidden = False, pr_polls = [], pr_begun = 0,
      pr_peer_requests = 0, pr_published = [], pr_peer_statuses = []\<rparr>"

text \<open>\<open>peers\<close> says whether the page passed \<open>onPeerStatus\<close>.\<close>

definition begin_poll :: "bool \<Rightarrow> bool \<Rightarrow> poller \<Rightarrow> poller" where
  "begin_poll peers ticked s =
     (let asks = peers \<and> \<not> pr_forbidden s
      in s\<lparr>pr_polls := pr_polls s @ [(pr_begun s, \<lparr>pl_ticked = ticked, pl_runtime = None, pl_peer_done = \<not> asks\<rparr>)],
           pr_begun := pr_begun s + 1,
           pr_peer_requests := pr_peer_requests s + (if asks then 1 else 0)\<rparr>)"

definition tick :: "bool \<Rightarrow> poller \<Rightarrow> poller" where
  "tick peers s = (if pr_in_flight s then s else begin_poll peers True (s\<lparr>pr_in_flight := True\<rparr>))"

definition settle :: "nat \<Rightarrow> poll \<Rightarrow> poller \<Rightarrow> poller" where
  "settle i p s =
     (case pl_runtime p of
        Some result \<Rightarrow>
          (if pl_peer_done p then
             s\<lparr>pr_polls := AList.delete i (pr_polls s),
               pr_published := pr_published s
                 @ [case result of Some status \<Rightarrow> status | None \<Rightarrow> empty_runtime_status],
               pr_in_flight := pr_in_flight s \<and> \<not> pl_ticked p\<rparr>
           else s\<lparr>pr_polls := AList.update i p (pr_polls s)\<rparr>)
      | None \<Rightarrow> s\<lparr>pr_polls := AList.update i p (pr_polls s)\<rparr>)"

definition runtime_arrives :: "nat \<Rightarrow> poll \<Rightarrow> js_error + response \<Rightarrow> poller \<Rightarrow> poller" where
  "runtime_arrives i p reply s = settle i (p\<lparr>pl_runtime := Some (runtime_result reply)\<rparr>) s"

definition peer_arrives :: "nat \<Rightarrow> poll \<Rightarrow> js_error + response \<Rightarrow> poller \<Rightarrow> poller" where
  "peer_arrives i p reply s =
     settle i (p\<lparr>pl_peer_done := True\<rparr>)
       (s\<lparr>pr_forbidden := pr_forbidden s \<or> refused reply,
          pr_peer_statuses := pr_peer_statuses s
            @ (case peer_result reply of Some peer \<Rightarrow> [peer] | None \<Rightarrow> [])\<rparr>)"

inductive poller_step :: "bool \<Rightarrow> poller \<Rightarrow> poller \<Rightarrow> bool" where
  start: "poller_step peers s (s\<lparr>pr_timer := True\<rparr>)"
| stop: "poller_step peers s (s\<lparr>pr_timer := False\<rparr>)"
| tick: "pr_timer s \<Longrightarrow> poller_step peers s (tick peers s)"
| call: "poller_step peers s (begin_poll peers False s)"
| runtime_reply: "map_of (pr_polls s) i = Some p \<Longrightarrow> pl_runtime p = None
    \<Longrightarrow> poller_step peers s (runtime_arrives i p reply s)"
| peer_reply: "map_of (pr_polls s) i = Some p \<Longrightarrow> \<not> pl_peer_done p
    \<Longrightarrow> poller_step peers s (peer_arrives i p reply s)"

inductive_cases poller_stepE: "poller_step peers s t"

abbreviation poller_steps :: "bool \<Rightarrow> poller \<Rightarrow> poller \<Rightarrow> bool" where
  "poller_steps peers \<equiv> (poller_step peers)\<^sup>*\<^sup>*"

lemmas poller_defs = tick_def begin_poll_def settle_def runtime_arrives_def peer_arrives_def

section \<open>What the poller keeps\<close>

abbreviation ticked_polls :: "(nat \<times> poll) list \<Rightarrow> nat" where
  "ticked_polls ps \<equiv> length (filter (\<lambda>e. pl_ticked (snd e)) ps)"

definition under_way :: "poll \<Rightarrow> bool" where
  "under_way p \<longleftrightarrow> pl_runtime p = None \<or> \<not> pl_peer_done p"

definition poller_ok :: "poller \<Rightarrow> bool" where
  "poller_ok s \<longleftrightarrow>
     distinct (map fst (pr_polls s)) \<and> (\<forall>e \<in> set (pr_polls s). fst e < pr_begun s \<and> under_way (snd e))
     \<and> ticked_polls (pr_polls s) = (if pr_in_flight s then 1 else 0)
     \<and> length (pr_published s) + length (pr_polls s) = pr_begun s"

lemma poll_split:
  assumes "distinct (map fst ps)" and "map_of ps i = Some p"
  obtains xs ys where "ps = xs @ (i, p) # ys" "AList.delete i ps = xs @ ys"
    "\<And>q. AList.update i q ps = xs @ (i, q) # ys"
proof -
  from assms(2) have "(i, p) \<in> set ps" by (rule map_of_SomeD)
  then obtain xs ys where s: "ps = xs @ (i, p) # ys" by (meson split_list)
  with assms(1) have n: "i \<notin> fst ` set xs" "i \<notin> fst ` set ys" by auto
  then have "AList.update i q (xs @ (i, p) # ys) = xs @ (i, q) # ys" for q
    by (induction xs) auto
  moreover have "AList.delete i (xs @ (i, p) # ys) = xs @ ys"
    using n by (simp add: AList.delete_eq) (rule arg_cong2 [where f = append]; rule filter_True; force)
  ultimately show ?thesis using that s by blast
qed

lemma settle_ok:
  assumes ok: "poller_ok s" and here: "map_of (pr_polls s) i = Some p" and same: "pl_ticked q = pl_ticked p"
  shows "poller_ok (settle i q s)"
proof -
  from ok have "distinct (map fst (pr_polls s))" by (simp add: poller_ok_def)
  then obtain xs ys where s: "pr_polls s = xs @ (i, p) # ys" and del: "AList.delete i (pr_polls s) = xs @ ys"
    and upd: "AList.update i q (pr_polls s) = xs @ (i, q) # ys"
    using here by (rule poll_split) blast
  with ok same show ?thesis
    by (auto simp: poller_ok_def settle_def under_way_def split: option.splits if_splits)
qed

lemma begin_poll_ok:
  assumes "poller_ok s" and "\<not> ticked"
  shows "poller_ok (begin_poll peers ticked s)"
  using assms by (force simp: poller_ok_def begin_poll_def under_way_def Let_def)

lemma tick_ok: "poller_ok s \<Longrightarrow> poller_ok (tick peers s)"
  by (force simp: poller_ok_def begin_poll_def tick_def under_way_def Let_def)

lemma arrives_ok:
  assumes "poller_ok s" and "map_of (pr_polls s) i = Some p"
  shows "poller_ok (runtime_arrives i p reply s)" "poller_ok (peer_arrives i p reply s)"
proof -
  show "poller_ok (runtime_arrives i p reply s)"
    unfolding runtime_arrives_def using assms by (rule settle_ok) simp
  let ?s = "s\<lparr>pr_forbidden := pr_forbidden s \<or> refused reply,
      pr_peer_statuses := pr_peer_statuses s @ (case peer_result reply of Some peer \<Rightarrow> [peer] | None \<Rightarrow> [])\<rparr>"
  have "poller_ok ?s" using assms(1) by (simp add: poller_ok_def)
  then show "poller_ok (peer_arrives i p reply s)"
    unfolding peer_arrives_def by (rule settle_ok [where p = p]) (use assms(2) in simp_all)
qed

lemma timer_ok [simp]: "poller_ok (s\<lparr>pr_timer := b\<rparr>) = poller_ok s"
  by (simp add: poller_ok_def)

lemma step_ok: "poller_step peers s t \<Longrightarrow> poller_ok s \<Longrightarrow> poller_ok t"
  by (induction rule: poller_step.induct) (auto simp: tick_ok begin_poll_ok arrives_ok)

lemma steps_ok: "poller_steps peers s t \<Longrightarrow> poller_ok s \<Longrightarrow> poller_ok t"
  by (induction rule: rtranclp_induct) (auto intro: step_ok)

lemma created_ok: "poller_ok create_runtime_status_poller"
  by (simp add: poller_ok_def create_runtime_status_poller_def)

text \<open>C17: In every state the poller can reach, whatever the clock, the callers and the network do:
  the clock has at most one poll under way, and \<open>inFlight\<close> says exactly whether it has one; every
  poll that was begun is either still waiting for a reply or has published exactly one status.\<close>

theorem polls_do_not_overlap:
  assumes "poller_steps peers create_runtime_status_poller s"
  shows "length (filter (\<lambda>(i, p). pl_ticked p) (pr_polls s)) = (if pr_in_flight s then 1 else 0)
    \<and> length (pr_published s) + length (pr_polls s) = pr_begun s
    \<and> (\<forall>(i, p) \<in> set (pr_polls s). pl_runtime p = None \<or> \<not> pl_peer_done p)"
  using steps_ok [OF assms created_ok] by (auto simp: poller_ok_def under_way_def case_prod_unfold)

definition no_content :: "js_error + response" where
  "no_content = Inr \<lparr>rs_ok = True, rs_status = 200, rs_status_text = [], rs_body = Some []\<rparr>"

text \<open>A run: the clock ticks twice and somebody calls \<open>poll\<close> before any reply is there.\<close>

definition busy_poller :: poller where
  "busy_poller = begin_poll True False (tick True (tick True (create_runtime_status_poller\<lparr>pr_timer := True\<rparr>)))"

lemma busy_poller_steps: "poller_steps True create_runtime_status_poller busy_poller"
proof -
  let ?s0 = "create_runtime_status_poller\<lparr>pr_timer := True\<rparr>"
  have timer: "pr_timer (tick True s) = pr_timer s" for s by (simp add: tick_def begin_poll_def Let_def)
  have "poller_step True create_runtime_status_poller ?s0" by (rule start)
  moreover have "poller_step True ?s0 (tick True ?s0)" by (rule poller_step.tick) simp
  moreover have "poller_step True (tick True ?s0) (tick True (tick True ?s0))"
    by (rule poller_step.tick) (simp add: timer)
  moreover have "poller_step True (tick True (tick True ?s0)) busy_poller"
    unfolding busy_poller_def by (rule call)
  ultimately show ?thesis by (meson r_into_rtranclp rtranclp_trans)
qed

theorem polls_do_not_overlap_witness:
  "length (filter (\<lambda>(i, p). pl_ticked p) (pr_polls busy_poller)) = 1 \<and> length (pr_polls busy_poller) = 2"
proof -
  have f: "pr_in_flight busy_poller" and l: "pr_published busy_poller = []" and b: "pr_begun busy_poller = 2"
    by code_simp+
  from polls_do_not_overlap [OF busy_poller_steps] show ?thesis by (simp add: f l b)
qed

section \<open>Refused peers\<close>

lemma settle_frame [simp]:
  "pr_forbidden (settle i p s) = pr_forbidden s"
  "pr_peer_requests (settle i p s) = pr_peer_requests s"
  "pr_begun (settle i p s) = pr_begun s"
  "pr_timer (settle i p s) = pr_timer s"
  by (auto simp: settle_def split: option.splits)

lemma step_forbidden:
  "poller_step peers s t \<Longrightarrow> pr_forbidden s \<Longrightarrow> pr_forbidden t \<and> pr_peer_requests t = pr_peer_requests s"
  by (induction rule: poller_step.induct)
    (auto simp: tick_def begin_poll_def runtime_arrives_def peer_arrives_def Let_def)

text \<open>Once the peer endpoint has answered 403, no further request is ever sent to it, whatever
  happens later; the refusal is remembered for good.\<close>

theorem refusal_is_final:
  assumes "poller_steps peers s t" and "pr_forbidden s"
  shows "pr_forbidden t \<and> pr_peer_requests t = pr_peer_requests s"
  using assms by (induction rule: rtranclp_induct) (auto dest: step_forbidden)

definition refusal :: "js_error + response" where
  "refusal = Inr \<lparr>rs_ok = False, rs_status = 403, rs_status_text = [], rs_body = None\<rparr>"

theorem refusal_is_final_witness:
  "pr_peer_requests (begin_poll True False (peer_arrives 0 (snd (hd (pr_polls busy_poller))) refusal busy_poller)) = 2"
proof -
  let ?s = "peer_arrives 0 (snd (hd (pr_polls busy_poller))) refusal busy_poller"
  have f: "pr_forbidden ?s" and n: "pr_peer_requests ?s = 2" by code_simp+
  have "poller_steps True ?s (begin_poll True False ?s)" by (rule r_into_rtranclp) (rule call)
  from refusal_is_final [OF this f] n show ?thesis by simp
qed

section \<open>Recovery\<close>

definition answer_runtime :: "(nat \<Rightarrow> js_error + response) \<Rightarrow> nat \<Rightarrow> poller \<Rightarrow> poller" where
  "answer_runtime replies i s =
     (case map_of (pr_polls s) i of
        Some p \<Rightarrow> (if pl_runtime p = None then runtime_arrives i p (replies i) s else s)
      | None \<Rightarrow> s)"

definition answer_peer :: "(nat \<Rightarrow> js_error + response) \<Rightarrow> nat \<Rightarrow> poller \<Rightarrow> poller" where
  "answer_peer replies i s =
     (case map_of (pr_polls s) i of
        Some p \<Rightarrow> (if pl_peer_done p then s else peer_arrives i p (replies i) s)
      | None \<Rightarrow> s)"

definition answer_all ::
    "(nat \<Rightarrow> js_error + response) \<Rightarrow> (nat \<Rightarrow> js_error + response) \<Rightarrow> poller \<Rightarrow> poller" where
  "answer_all replies peer_replies s =
     fold (\<lambda>i s. answer_peer peer_replies i (answer_runtime replies i s)) (map fst (pr_polls s)) s"

lemma answer_steps:
  "poller_steps peers s (answer_runtime replies i s)" "poller_steps peers s (answer_peer replies i s)"
  unfolding answer_runtime_def answer_peer_def
  by (auto split: option.split intro!: r_into_rtranclp poller_step.intros)

lemma answer_all_steps: "poller_steps peers s (answer_all replies peer_replies s)"
proof -
  have "poller_steps peers s (fold (\<lambda>i s. answer_peer peer_replies i (answer_runtime replies i s)) is s)" for "is" s
  proof (induction "is" arbitrary: s)
    case (Cons i "is")
    show ?case using Cons answer_steps rtranclp_trans by (metis (no_types, lifting) fold_simps(2))
  qed simp
  then show ?thesis unfolding answer_all_def .
qed

lemma answered_poll:
  assumes "poller_ok s" and "map_of (pr_polls s) i = Some p"
  shows "pr_polls (answer_peer peer_replies i (answer_runtime replies i s)) = AList.delete i (pr_polls s)"
proof -
  from assms have "under_way p" by (auto simp: poller_ok_def dest!: map_of_SomeD)
  then show ?thesis
    using assms(2)
    by (auto simp: answer_peer_def answer_runtime_def runtime_arrives_def peer_arrives_def settle_def under_way_def
        update_conv' delete_conv' delete_update_same delete_idem split: option.splits)
qed

lemma answered_all:
  "poller_ok s \<Longrightarrow> distinct is \<Longrightarrow> set is = fst ` set (pr_polls s) \<Longrightarrow>
     pr_polls (fold (\<lambda>i s. answer_peer peer_replies i (answer_runtime replies i s)) is s) = []"
proof (induction "is" arbitrary: s)
  case Nil
  then show ?case by simp
next
  case (Cons i "is")
  let ?s = "answer_peer peer_replies i (answer_runtime replies i s)"
  have "map_of (pr_polls s) i \<noteq> None"
    unfolding map_of_eq_None_iff using Cons.prems(3) by (metis list.set_intros(1))
  then obtain p where p: "map_of (pr_polls s) i = Some p" by blast
  have s: "pr_polls ?s = AList.delete i (pr_polls s)" by (rule answered_poll [OF Cons.prems(1) p])
  have "poller_ok ?s"
    using Cons.prems(1) answer_steps steps_ok by metis
  moreover have "set is = fst ` set (pr_polls ?s)"
    using Cons.prems(2,3) delete_keys [of i "pr_polls s"] unfolding s by (metis Diff_insert_absorb
      distinct.simps(2) insert_is_Un list.set_map list.simps(15) set_removeAll)
  ultimately show ?case using Cons.IH [of ?s] Cons.prems(2) by simp
qed

lemma answer_all_begun [simp]: "pr_begun (answer_all replies peer_replies s) = pr_begun s"
proof -
  have "pr_begun (fold (\<lambda>i s. answer_peer peer_replies i (answer_runtime replies i s)) is s) = pr_begun s" for "is" s
    by (induction "is" arbitrary: s)
      (auto simp: answer_peer_def answer_runtime_def runtime_arrives_def peer_arrives_def split: option.splits)
  then show ?thesis unfolding answer_all_def .
qed

text \<open>C31: The poller never blocks itself: from every state it can reach, once the outstanding requests
  have been answered - with whatever replies or failures - no poll is under way, every poll begun has
  published its status, and the next tick of the clock sends a new request.\<close>

theorem poller_recovers:
  assumes "poller_steps peers create_runtime_status_poller s"
  shows "poller_steps peers s (answer_all replies peer_replies s)
    \<and> pr_polls (answer_all replies peer_replies s) = []
    \<and> length (pr_published (answer_all replies peer_replies s)) = pr_begun s
    \<and> pr_begun (tick peers (answer_all replies peer_replies s)) = pr_begun s + 1"
proof -
  let ?t = "answer_all replies peer_replies s"
  have ok: "poller_ok s" using steps_ok [OF assms created_ok] .
  have steps: "poller_steps peers s ?t" by (rule answer_all_steps)
  have ended: "pr_polls ?t = []"
    unfolding answer_all_def by (rule answered_all) (use ok in \<open>auto simp: poller_ok_def\<close>)
  have t: "poller_ok ?t" by (rule steps_ok [OF steps ok])
  then have "\<not> pr_in_flight ?t" by (auto simp: poller_ok_def ended split: if_splits)
  then have "pr_begun (tick peers ?t) = pr_begun s + 1" by (simp add: tick_def begin_poll_def Let_def)
  with steps ended t show ?thesis by (simp add: poller_ok_def)
qed

theorem poller_recovers_witness:
  "pr_published (answer_all (\<lambda>_. Inl Network_failure) (\<lambda>_. refusal) busy_poller)
     = [empty_runtime_status, empty_runtime_status]"
proof -
  let ?t = "answer_all (\<lambda>_. Inl Network_failure) (\<lambda>_. refusal) busy_poller"
  have b: "pr_begun busy_poller = 2" by code_simp
  have all: "list_all (\<lambda>x. x = empty_runtime_status) (pr_published ?t)" by code_simp
  from poller_recovers [OF busy_poller_steps] have "length (pr_published ?t) = 2" by (simp add: b)
  then show ?thesis using all by (auto simp: length_Suc_conv numeral_2_eq_2)
qed

end
