(* ===== verification/PeerStatus.thy ===== *)
theory PeerStatus
  imports RuntimeStatus
begin

text \<open>
  What the other instances do (\<open>peer-status.ts\<close>): the rows the sidebars show for them and the
  activity of the top bar. An instance is the object the server sends (\<open>InstanceStatus\<close> of
  the generated types); its lists may be absent. \<open>bullet\<close> is the separator of the labels.
\<close>

record peer_sidebar_row =
  ps_id :: string
  ps_instance_id :: string
  ps_instance_label :: string
  ps_workspace_label :: string
  ps_kind :: string
  ps_label :: string
  ps_endpoint :: string
  ps_running :: bool
  ps_healthy :: bool
  ps_throughput :: int

definition text_member :: "jval \<Rightarrow> string \<Rightarrow> string" where
  "text_member v k = to_str (jget v k)"

definition instance_label :: "jval \<Rightarrow> string" where
  "instance_label i =
     (if jget i ''kind'' = JStr ''web-ui'' then ''Web UI'' else to_upper (text_member i ''kind''))
     @ [CHR '' '', CHR 0xB7, CHR '' ''] @ str_or (jget i ''workspace_label'') ''workspace''"

definition throughput_of :: "jval \<Rightarrow> int" where
  "throughput_of summary = num_or (js_or (jget summary ''throughput'') (JNum 0)) 0"

definition peer_row :: "jval \<Rightarrow> jval \<Rightarrow> string \<Rightarrow> peer_sidebar_row" where
  "peer_row i entity prefix =
     (let summary = jget entity ''summary''
      in \<lparr>ps_id = text_member i ''instance_id'' @ '':'' @ prefix @ '':'' @ text_member entity ''id'',
          ps_instance_id = text_member i ''instance_id'',
          ps_instance_label = instance_label i,
          ps_workspace_label = text_member i ''workspace_label'',
          ps_kind = text_member i ''kind'',
          ps_label = to_str (js_or (jget entity ''label'') (jget entity ''id'')),
          ps_endpoint = str_or (jget entity ''endpoint'') ''unknown'',
          ps_running = truthy (jget summary ''running''),
          ps_healthy = (jget summary ''healthy'' \<noteq> JBool False),
          ps_throughput = throughput_of summary\<rparr>)"

definition instances_for_display :: "peer_status \<Rightarrow> jval list" where
  "instances_for_display s = filter (\<lambda>i. jget i ''instance_id'' \<noteq> JStr (current_instance_id s)) (instances s)"

definition instance_rows :: "string \<Rightarrow> string \<Rightarrow> string \<Rightarrow> jval \<Rightarrow> peer_sidebar_row list" where
  "instance_rows member prefix side i =
     map (\<lambda>entity. peer_row i entity prefix) (array_or_empty (jget i member))
     @ map (\<lambda>route. peer_row i (jget route side) (''route-'' @ side @ '':'' @ text_member route ''id''))
         (array_or_empty (jget i ''routes''))"

definition peer_consumer_rows :: "peer_status \<Rightarrow> peer_sidebar_row list" where
  "peer_consumer_rows s = concat (map (instance_rows ''consumers'' ''consumer'' ''input'') (instances_for_display s))"

definition peer_publisher_rows :: "peer_status \<Rightarrow> peer_sidebar_row list" where
  "peer_publisher_rows s = concat (map (instance_rows ''publishers'' ''publisher'' ''output'') (instances_for_display s))"

record peer_activity =
  pa_instances :: nat
  pa_running :: nat
  pa_throughput :: int

definition activity_summaries :: "jval \<Rightarrow> jval list" where
  "activity_summaries i =
     map (\<lambda>e. jget e ''summary'') (array_or_empty (jget i ''consumers''))
     @ map (\<lambda>r. jget r ''summary'') (array_or_empty (jget i ''routes''))"

definition add_summary :: "jval \<Rightarrow> nat \<times> int \<Rightarrow> nat \<times> int" where
  "add_summary summary acc =
     (fst acc + (if truthy (jget summary ''running'') then 1 else 0), snd acc + throughput_of summary)"

definition peer_activity :: "peer_status \<Rightarrow> peer_activity" where
  "peer_activity s =
     (let shown = instances_for_display s;
          (running, throughput) = fold (\<lambda>i. fold add_summary (activity_summaries i)) shown (0, 0)
      in \<lparr>pa_instances = length shown, pa_running = running, pa_throughput = throughput\<rparr>)"

definition peer_activity_label :: "string \<Rightarrow> peer_activity \<Rightarrow> string" where
  "peer_activity_label bullet a =
     join bullet
       ([counted (pa_instances a) ''other instance'']
        @ (if 0 < pa_running a then [nat_str (pa_running a) @ '' running''] else [])
        @ (if 0 < pa_throughput a then [int_str (pa_throughput a) @ ''.0 msg/s''] else []))"

definition filter_peer_rows :: "peer_sidebar_row list \<Rightarrow> string \<Rightarrow> peer_sidebar_row list" where
  "filter_peer_rows rows filter_text =
     (let needle = to_lower (js_trim filter_text)
      in if needle = [] then rows
         else filter (\<lambda>r. js_includes needle
           (to_lower (ps_label r @ '' '' @ ps_endpoint r @ '' '' @ ps_instance_label r))) rows)"

lemma fold_summaries:
  "fold add_summary ss (n, t)
    = (n + length (filter (\<lambda>s. truthy (jget s ''running'')) ss), t + sum_list (map throughput_of ss))"
  by (induction ss arbitrary: n t) (auto simp: add_summary_def)

lemma fold_instances:
  "fold (\<lambda>i. fold add_summary (activity_summaries i)) is (n, t)
    = fold add_summary (concat (map activity_summaries is)) (n, t)"
  by (induction "is" arbitrary: n t) (auto simp: fold_summaries)

lemma peer_activity_counts:
  "pa_running (peer_activity s)
     = length (filter (\<lambda>m. truthy (jget m ''running'')) (concat (map activity_summaries (instances_for_display s))))"
  "pa_throughput (peer_activity s)
     = sum_list (map throughput_of (concat (map activity_summaries (instances_for_display s))))"
  by (simp_all add: peer_activity_def fold_instances fold_summaries Let_def)

text \<open>The sidebars never show a row of this instance itself: every row belongs to another
  instance that holds a lease, and each of their routes has one row on the consumer side and one
  on the publisher side, while the activity counts it once.\<close>

lemma peer_rows_are_foreign:
  "(\<forall>r \<in> set (peer_consumer_rows s @ peer_publisher_rows s).
      \<exists>i \<in> set (instances s). jget i ''instance_id'' \<noteq> JStr (current_instance_id s)
        \<and> ps_instance_id r = text_member i ''instance_id'')
   \<and> length (peer_consumer_rows s) = length (concat (map activity_summaries (instances_for_display s)))
   \<and> length (peer_publisher_rows s)
      = (\<Sum>i\<leftarrow>instances_for_display s. length (array_or_empty (jget i ''publishers'')) + length (array_or_empty (jget i ''routes'')))"
proof (intro conjI)
  show "length (peer_consumer_rows s) = length (concat (map activity_summaries (instances_for_display s)))"
    by (simp add: peer_consumer_rows_def instance_rows_def activity_summaries_def length_concat comp_def)
  show "length (peer_publisher_rows s)
      = (\<Sum>i\<leftarrow>instances_for_display s. length (array_or_empty (jget i ''publishers'')) + length (array_or_empty (jget i ''routes'')))"
    by (simp add: peer_publisher_rows_def instance_rows_def length_concat comp_def)
qed (auto simp: peer_consumer_rows_def peer_publisher_rows_def instance_rows_def instances_for_display_def
      peer_row_def Let_def)

end
