(* ===== verification/PayloadFormat.thy ===== *)
theory PayloadFormat
  imports Json Labels
begin

text \<open>
  How a payload is shown (\<open>payload-format.ts\<close>): the choice of a mode, pretty-printed JSON, the hex
  preview. \<open>decode\<close> is \<open>new TextDecoder("utf-8", { fatal: true }).decode\<close>, which knows more
  characters than the strings of the model; \<open>None\<close> is its exception.
\<close>

datatype view_mode = Auto | As_text | As_json | As_xml | As_hex
datatype editor_language = Lang_text | Lang_json | Lang_xml

record payload_format_result =
  pf_formatted :: string
  pf_language :: editor_language
  pf_effective_mode :: view_mode

datatype raw_payload = Text_payload string | Byte_payload "8 word list" | No_payload

definition is_valid_json :: "string \<Rightarrow> bool" where
  "is_valid_json v =
     (let trimmed = js_trim v
      in ((starts_with ''{'' trimmed \<and> ends_with ''}'' trimmed)
          \<or> (starts_with ''['' trimmed \<and> ends_with '']'' trimmed))
         \<and> parse_json trimmed \<noteq> None)"

section \<open>XML\<close>

definition is_alpha :: "char \<Rightarrow> bool" where
  "is_alpha c \<longleftrightarrow> (let n = (of_char c :: nat) in (65 \<le> n \<and> n \<le> 90) \<or> (97 \<le> n \<and> n \<le> 122))"

definition name_start :: "char \<Rightarrow> bool" where
  "name_start c \<longleftrightarrow> is_alpha c \<or> c = CHR ''_''"

definition name_char :: "char \<Rightarrow> bool" where
  "name_char c \<longleftrightarrow> name_start c \<or> is_digit c \<or> c \<in> {CHR '':'', CHR ''.'', CHR ''-''}"

text \<open>\<open>[A-Za-z_][\w:.-]*\<close> at the start of a text: what follows it.\<close>

definition after_name :: "string \<Rightarrow> string option" where
  "after_name s = (if s \<noteq> [] \<and> name_start (hd s) then Some (dropWhile name_char s) else None)"

text \<open>\<open>/^<\?xml[\s?>]/i\<close>\<close>

definition xml_declaration :: "string \<Rightarrow> bool" where
  "xml_declaration s \<longleftrightarrow>
     to_lower (take 5 s) = ''<?xml'' \<and> (case drop 5 s of c # cs \<Rightarrow> is_space c \<or> c = CHR ''?'' \<or> c = CHR ''>'' | [] \<Rightarrow> False)"

text \<open>\<open>(\s[^>]*)?>\<close> at the start of a text: what follows it.\<close>

definition after_attributes :: "string \<Rightarrow> string option" where
  "after_attributes s =
     (case s of
        [] \<Rightarrow> None
      | c # cs \<Rightarrow>
          (if c = CHR ''>'' then Some cs
           else if is_space c then (case dropWhile (\<lambda>d. d \<noteq> CHR ''>'') cs of [] \<Rightarrow> None | d # ds \<Rightarrow> Some ds)
           else None))"

text \<open>\<open><\/[A-Za-z_][\w:.-]*>$\<close>\<close>

definition closing_tag :: "string \<Rightarrow> bool" where
  "closing_tag s \<longleftrightarrow>
     (case rev s of
        [] \<Rightarrow> False
      | c # cs \<Rightarrow> c = CHR ''>'' \<and> takeWhile name_char cs \<noteq> [] \<and> name_start (last (takeWhile name_char cs))
          \<and> starts_with ''/<'' (dropWhile name_char cs))"

text \<open>\<open>(\s[^>]*)?\/>$\<close>\<close>

definition empty_tag_end :: "string \<Rightarrow> bool" where
  "empty_tag_end s \<longleftrightarrow>
     ends_with ''/>'' s
     \<and> (let m = take (length s - 2) s in m = [] \<or> (is_space (hd m) \<and> CHR ''>'' \<notin> set m))"

definition is_likely_xml :: "string \<Rightarrow> bool" where
  "is_likely_xml v =
     (let trimmed = js_trim v in
      if \<not> starts_with ''<'' trimmed \<or> \<not> ends_with ''>'' trimmed then False
      else if xml_declaration trimmed then True
      else (case after_name (tl trimmed) of
          None \<Rightarrow> False
        | Some rest \<Rightarrow>
            (case after_attributes rest of Some body \<Rightarrow> closing_tag body | None \<Rightarrow> False) \<or> empty_tag_end rest))"

section \<open>Bytes\<close>

definition is_binary_string :: "string \<Rightarrow> bool" where
  "is_binary_string v \<longleftrightarrow>
     list_ex (\<lambda>c. let n = (of_char c :: nat) in (n < 32 \<and> n \<notin> {9, 10, 13}) \<or> n = 127) v"

definition is_hex_char :: "char \<Rightarrow> bool" where
  "is_hex_char c \<longleftrightarrow> is_digit c
     \<or> (let n = (of_char c :: nat) in (65 \<le> n \<and> n \<le> 70) \<or> (97 \<le> n \<and> n \<le> 102))"

definition is_complete_hex :: "string \<Rightarrow> bool" where
  "is_complete_hex v =
     (let cleaned = filter (\<lambda>c. \<not> is_space c) v
      in 0 < length cleaned \<and> length cleaned mod 2 = 0 \<and> list_all is_hex_char cleaned)"

definition binary_data :: string where
  "binary_data = ''[BINARY DATA]''"

definition uint8_array_to_string :: "(8 word list \<Rightarrow> string option) \<Rightarrow> 8 word list \<Rightarrow> string" where
  "uint8_array_to_string decode arr = (case decode arr of Some s \<Rightarrow> s | None \<Rightarrow> binary_data)"

record payload_string =
  py_text :: string
  py_binary :: bool
  py_bytes :: "8 word list"

fun to_payload_string :: "(8 word list \<Rightarrow> string option) \<Rightarrow> raw_payload \<Rightarrow> payload_string" where
  "to_payload_string decode No_payload = \<lparr>py_text = [], py_binary = False, py_bytes = []\<rparr>"
| "to_payload_string decode (Text_payload s) =
     \<lparr>py_text = s, py_binary = is_binary_string s, py_bytes = string_to_uint8_latin1 s\<rparr>"
| "to_payload_string decode (Byte_payload bs) =
     (let s = uint8_array_to_string decode bs; binary = (0 < length bs \<and> s = binary_data)
      in \<lparr>py_text = (if binary then [] else s), py_binary = binary, py_bytes = bs\<rparr>)"

definition ascii_char :: "8 word \<Rightarrow> char" where
  "ascii_char b = (if 32 \<le> unat b \<and> unat b \<le> 126 then char_of (unat b) else CHR ''.'')"

definition pad_end :: "nat \<Rightarrow> string \<Rightarrow> string" where
  "pad_end n s = s @ replicate (n - length s) (CHR '' '')"

definition preview_row :: "nat \<Rightarrow> 8 word list \<Rightarrow> string" where
  "preview_row row_width row = pad_end (row_width * 3 - 1) (to_hex_string row) @ ''  |  '' @ map ascii_char row"

function preview_rows :: "nat \<Rightarrow> 8 word list \<Rightarrow> string list" where
  "preview_rows row_width bytes =
     (if bytes = [] \<or> row_width = 0 then []
      else preview_row row_width (take row_width bytes) # preview_rows row_width (drop row_width bytes))"
  by pat_completeness auto
termination by (relation "measure (\<lambda>(w, bs). length bs)") auto

declare preview_rows.simps [simp del]

definition to_hex_preview :: "8 word list \<Rightarrow> nat \<Rightarrow> string" where
  "to_hex_preview bytes bytes_per_line = join [CHR 0x0A] (preview_rows (max 1 bytes_per_line) bytes)"

section \<open>Formatting\<close>

definition choose_mode :: "string \<Rightarrow> bool \<Rightarrow> string \<Rightarrow> view_mode" where
  "choose_mode payload binary content_type =
     (if js_includes ''json'' content_type \<and> is_valid_json payload then As_json
      else if js_includes ''xml'' content_type \<and> is_likely_xml payload then As_xml
      else if is_valid_json payload then As_json
      else if is_likely_xml payload then As_xml
      else if binary then As_hex
      else As_text)"

definition format_payload ::
    "(8 word list \<Rightarrow> string option) \<Rightarrow> raw_payload \<Rightarrow> view_mode \<Rightarrow> string \<Rightarrow> payload_format_result" where
  "format_payload decode raw_payload mode content_type =
     (let p = to_payload_string decode raw_payload;
          effective = (if mode = Auto then choose_mode (py_text p) (py_binary p) (to_lower content_type) else mode)
      in case effective of
           As_json \<Rightarrow>
             (case parse_json (py_text p) of
                Some v \<Rightarrow> \<lparr>pf_formatted = pretty 0 v, pf_language = Lang_json, pf_effective_mode = effective\<rparr>
              | None \<Rightarrow> \<lparr>pf_formatted = py_text p, pf_language = Lang_text, pf_effective_mode = effective\<rparr>)
         | As_hex \<Rightarrow>
             (let hex_bytes = (case raw_payload of
                  Text_payload s \<Rightarrow> if is_complete_hex s then from_hex_string s else py_bytes p
                | _ \<Rightarrow> py_bytes p)
              in \<lparr>pf_formatted = to_hex_preview hex_bytes 16, pf_language = Lang_text, pf_effective_mode = effective\<rparr>)
         | As_xml \<Rightarrow> \<lparr>pf_formatted = py_text p, pf_language = Lang_xml, pf_effective_mode = effective\<rparr>
         | _ \<Rightarrow> \<lparr>pf_formatted = py_text p, pf_language = Lang_text, pf_effective_mode = effective\<rparr>)"

section \<open>The preview keeps the bytes\<close>

lemma length_hex_byte [simp]: "length (hex_byte b) = 2"
  by (simp add: hex_byte_digits)

lemma length_to_hex_string: "length (to_hex_string bs) = 3 * length bs - 1"
proof (induction bs)
  case (Cons b bs)
  then show ?case by (cases bs) (simp_all add: to_hex_string_def)
qed (simp add: to_hex_string_def)

lemma take_pad_end: "length s \<le> n \<Longrightarrow> take n (pad_end n s @ t) = pad_end n s"
  by (simp add: pad_end_def)

lemma filter_pad_end [simp]: "filter (\<lambda>c. \<not> is_space c) (pad_end n s) = filter (\<lambda>c. \<not> is_space c) s"
  by (simp add: pad_end_def is_space_def)

lemma preview_row_bytes:
  assumes "length row \<le> w"
  shows "from_hex_string (take (w * 3 - 1) (preview_row w row)) = row"
proof -
  have "length (to_hex_string row) \<le> w * 3 - 1" using assms by (simp add: length_to_hex_string)
  then have "take (w * 3 - 1) (preview_row w row) = pad_end (w * 3 - 1) (to_hex_string row)"
    unfolding preview_row_def by (rule take_pad_end)
  then show ?thesis
    by (simp add: from_hex_string_def to_hex_string_def filter_join_hex hex_pairs_concat)
qed

text \<open>The hex preview loses no byte: whatever the width of a row, reading the hex columns of its
  rows back, in order, gives exactly the bytes that were shown.\<close>

theorem hex_preview_complete:
  "concat (map (\<lambda>row. from_hex_string (take (max 1 n * 3 - 1) row)) (preview_rows (max 1 n) bytes)) = bytes"
proof (induction "max 1 n" bytes rule: preview_rows.induct)
  case (1 bytes)
  show ?case
  proof (cases "bytes = []")
    case False
    moreover have "from_hex_string (take (max 1 n * 3 - 1) (preview_row (max 1 n) (take (max 1 n) bytes)))
        = take (max 1 n) bytes"
      by (rule preview_row_bytes) simp
    ultimately have "concat (map (\<lambda>row. from_hex_string (take (max 1 n * 3 - 1) row)) (preview_rows (max 1 n) bytes))
        = take (max 1 n) bytes @ drop (max 1 n) bytes"
      using 1 by (simp add: preview_rows.simps [of _ bytes] del: append_take_drop_id)
    then show ?thesis by simp
  qed (simp add: preview_rows.simps)
qed

end
