(* ===== verification/Settings.thy ===== *)
theory Settings
  imports Workspace StorageSecurity DirtyState
begin

text \<open>
  The settings page (\<open>settings.ts\<close>): the part of the configuration it edits, the schema of its
  form with the description of the storage modes, and the summary of the desktop secrets. Drawing
  the form and pruning its options in the page are left out.
\<close>

section \<open>Settings of a configuration\<close>

definition settings_keys :: "string list" where
  "settings_keys =
     [''default_tab'', ''log_level'', ''logger'', ''ui_addr'', ''metrics_addr'', ''config_security'', ''env_vars'']"

definition filter_object_keys :: "obj \<Rightarrow> string list \<Rightarrow> obj" where
  "filter_object_keys v ks = fold (\<lambda>k result. if ohas v k then oput k (oget v k) result else result) ks []"

definition extract_settings_config ::
    "(string \<Rightarrow> origin_parts option) \<Rightarrow> (nat \<Rightarrow> string) \<Rightarrow> obj \<Rightarrow> obj" where
  "extract_settings_config origin fresh config =
     (let normalized = ensure_workspace_collections origin fresh (ospread [] config)
      in filter_object_keys normalized settings_keys)"

text \<open>\<open>mergeSettingsConfig\<close> writes into the configuration it is given.\<close>

definition merge_settings_config :: "obj \<Rightarrow> obj \<Rightarrow> obj" where
  "merge_settings_config config settings_config =
     fold (\<lambda>k c. if ohas settings_config k then oput k (oget settings_config k) c else c) settings_keys config"

section \<open>Storage modes\<close>

definition storage_mode_values :: "string list" where
  "storage_mode_values =
     [''unencrypted'', ''balanced'', ''env_temporary_messages'', ''temporary_messages'', ''sensitive'', ''durable'']"

record storage_mode_option =
  mo_value :: string
  mo_title :: string
  mo_detail :: string

definition mode_option :: "string \<Rightarrow> string \<Rightarrow> string \<Rightarrow> storage_mode_option option" where
  "mode_option v title detail = Some \<lparr>mo_value = v, mo_title = title, mo_detail = detail\<rparr>"

text \<open>\<open>STORAGE_MODE_UI[value][target]\<close>\<close>

definition storage_mode_ui :: "string \<Rightarrow> storage_target \<Rightarrow> storage_mode_option option" where
  "storage_mode_ui v t =
     (if v = ''unencrypted'' then
        mode_option v ''Unencrypted'' ''Plain config and plain cached message history on disk.''
      else if v = ''balanced'' then
        (case t of
           Cli \<Rightarrow> mode_option v ''Env secrets''
             ''Plain config with secrets extracted to environment placeholders; message history stays plain.''
         | Desktop \<Rightarrow> mode_option v ''Keychain secrets''
             ''Plain config, secrets stored in the OS key store, plain message history.'')
      else if v = ''env_temporary_messages'' then
        (case t of
           Cli \<Rightarrow> mode_option v ''Env secrets + temporary encrypted messages''
             ''Plain config with env placeholders and encrypted message history cleared after restart.''
         | Desktop \<Rightarrow> None)
      else if t = Cli then None
      else if v = ''temporary_messages'' then
        mode_option v ''Temporary encrypted messages''
          ''Plain config with encrypted message history that is cleared after restart.''
      else if v = ''sensitive'' then
        mode_option v ''Encrypted config + temporary encrypted messages''
          ''Encrypted config with temporary encrypted message history cleared after restart.''
      else if v = ''durable'' then
        mode_option v ''Encrypted config + persistent encrypted messages''
          ''Encrypted config with persistent encrypted message history restored after restart.''
      else None)"

definition get_storage_mode_ui_options :: "storage_security \<Rightarrow> storage_mode_option list" where
  "get_storage_mode_ui_options info =
     (let t = (if target info = Some Desktop then Desktop else Cli)
      in List.map_filter (\<lambda>v. storage_mode_ui v t) (available_storage_mode_values info))"

definition format_storage_mode_description :: "storage_security \<Rightarrow> string option \<Rightarrow> string" where
  "format_storage_mode_description info current_mode =
     (let options = get_storage_mode_ui_options info;
          described = map (\<lambda>e. mo_title e @ '': '' @ mo_detail e) options;
          current = (case current_mode of
              Some m \<Rightarrow> (if m \<noteq> [] \<and> m \<in> set storage_mode_values \<and> \<not> list_ex (\<lambda>e. mo_value e = m) options
                then [m @ '' (Current, unsupported here): Unavailable.''] else [])
            | None \<Rightarrow> []);
          keyless = (if target info = Some Desktop \<and> key_store_available info \<noteq> Some True
            then [''Only the modes shown here are available because no OS key store is currently usable.''] else [])
      in join '' '' (described @ current @ keyless))"

section \<open>The schema of the form\<close>

text \<open>A schema node is an object.\<close>

definition apply_storage_mode_descriptions ::
    "obj \<Rightarrow> storage_security option \<Rightarrow> jval \<Rightarrow> obj" where
  "apply_storage_mode_descriptions properties storage_info current_config =
     (case (oget properties ''config_security'', storage_info) of
        (JObj config_security, Some info) \<Rightarrow>
          (case oget config_security ''properties'' of
             JObj nested \<Rightarrow>
               (case oget nested ''mode'' of
                  JObj mode_property \<Rightarrow>
                    (let text = format_storage_mode_description info
                           (text_of (jget (jget current_config ''config_security'') ''mode''));
                         described = oput ''properties''
                           (JObj (oput ''mode'' (JObj (oput ''description'' (JStr text) mode_property)) nested))
                           (oput ''description'' (JStr []) config_security)
                     in oput ''config_security'' (JObj described) properties)
                | _ \<Rightarrow> properties)
           | _ \<Rightarrow> properties)
      | _ \<Rightarrow> properties)"

definition build_settings_schema :: "obj \<Rightarrow> storage_security option \<Rightarrow> jval \<Rightarrow> obj" where
  "build_settings_schema schema storage_info current_config =
     (let cloned = record_or_empty (clone_json (JObj schema));
          properties = apply_storage_mode_descriptions
            (filter_object_keys (record_or_empty (oget cloned ''properties'')) settings_keys)
            storage_info current_config;
          needed = filter (\<lambda>k. case k of JStr s \<Rightarrow> ohas properties s | _ \<Rightarrow> False)
            (array_or_empty (oget cloned ''required''))
      in oput ''required'' (JArr needed) (oput ''properties'' (JObj properties) (ospread [] cloned)))"

section \<open>Desktop secrets\<close>

definition secret_lines :: "string \<Rightarrow> jval list \<Rightarrow> string list" where
  "secret_lines name entries =
     (let extracted = length (filter (\<lambda>e. truthy (jget e ''extracted'')) entries);
          stored = length (filter (\<lambda>e. truthy (jget e ''stored'')) entries);
          total = nat_str (length entries);
          errors = map (\<lambda>e. to_str (jget e ''key'') @ '': '' @ to_str (jget e ''error''))
            (filter (\<lambda>e. truthy (jget e ''error'')) entries)
      in (''- '' @ name @ '': '' @ nat_str extracted @ ''/'' @ total @ '' extracted, ''
            @ nat_str stored @ ''/'' @ total @ '' stored'')
         # map (\<lambda>m. ''  '' @ m) errors)"

definition secret_group :: "string \<times> jval \<Rightarrow> string list" where
  "secret_group section_entries =
     (let (label, entries) = section_entries; names = js_sort code_unit_cmp (own_keys (record_or_empty entries))
      in if names = [] then []
         else (label @ '':'') # concat (map (\<lambda>n. secret_lines n (array_or_empty (jget entries n))) names))"

definition format_desktop_secrets_summary :: "jval \<Rightarrow> string" where
  "format_desktop_secrets_summary summary =
     (let lines = concat (map secret_group
            [(''Routes'', jget summary ''routes''), (''Consumers'', jget summary ''consumers''),
             (''Publishers'', jget summary ''publishers'')])
      in if lines \<noteq> [] then join [CHR 0x0A] lines
         else ''The current desktop config does not reference any extracted secrets.'')"

section \<open>Properties\<close>

lemma oget_fold_put:
  "oget (fold (\<lambda>k c. if P k then oput k (f k) c else c) ks c) k = (if k \<in> set ks \<and> P k then f k else oget c k)"
  by (induction ks arbitrary: c) auto

lemma ohas_fold_put:
  "ohas (fold (\<lambda>k c. if P k then oput k (f k) c else c) ks c) k \<longleftrightarrow> (k \<in> set ks \<and> P k) \<or> ohas c k"
  by (induction ks arbitrary: c) auto

lemma oget_filter_object_keys: "oget (filter_object_keys v ks) k = (if k \<in> set ks \<and> ohas v k then oget v k else Undef)"
  by (simp add: filter_object_keys_def oget_fold_put)

lemma ohas_filter_object_keys: "ohas (filter_object_keys v ks) k \<longleftrightarrow> k \<in> set ks \<and> ohas v k"
  by (simp add: filter_object_keys_def ohas_fold_put) (simp add: ohas_def)

text \<open>Saving the settings page writes exactly the settings: after the page's settings have been
  taken from a configuration and merged into the live one, every setting the configuration has
  is in place as the completed configuration has it, and no other member of the live configuration
  has changed - in particular the publishers, consumers and history edited elsewhere.\<close>

theorem settings_merge_exact:
  "oget (merge_settings_config live (extract_settings_config origin fresh config)) k
    = (let completed = ensure_workspace_collections origin fresh (ospread [] config)
       in if k \<in> set settings_keys \<and> ohas completed k then oget completed k else oget live k)"
  by (simp add: merge_settings_config_def extract_settings_config_def oget_fold_put oget_filter_object_keys
      ohas_filter_object_keys Let_def)

text \<open>The settings page offers every storage mode that is available, in that order, each with a
  text for the program it runs in: no available mode is lost for want of a description.\<close>

theorem every_available_mode_offered:
  "map mo_value (get_storage_mode_ui_options info) = available_storage_mode_values info"
  by (simp add: get_storage_mode_ui_options_def available_storage_mode_values_def storage_mode_ui_def
      mode_option_def List.map_filter_def Let_def)

end
