(* ===== verification/FormSchema.thy ===== *)
theory FormSchema
  imports Endpoint
begin

text \<open>
  What is done to the JSON schemas before a form is built from them (\<open>schema-utils.ts\<close> and the schema
  part of \<open>routes.ts\<close>), and the small route helpers of \<open>routes.ts\<close>. The sources write into a schema
  that has just been cloned, so no part of it is shared; here each function gives the changed
  schema.
\<close>

section \<open>Parts of a schema\<close>

text \<open>\<open>f\<close> applied to what is at a path of member names; nothing happens when the path is not there.\<close>

fun modify_at :: "string list \<Rightarrow> (jval \<Rightarrow> jval) \<Rightarrow> jval \<Rightarrow> jval" where
  "modify_at [] f v = f v"
| "modify_at (k # ks) f (JObj es) =
     (if ohas es k then JObj (oput k (modify_at ks f (oget es k)) es) else JObj es)"
| "modify_at (k # ks) f v = v"

fun path_get :: "jval \<Rightarrow> string list \<Rightarrow> jval" where
  "path_get v [] = v"
| "path_get v (k # ks) = path_get (jget v k) ks"

fun set_member :: "string \<Rightarrow> jval \<Rightarrow> jval \<Rightarrow> jval" where
  "set_member k x (JObj es) = JObj (oput k x es)"
| "set_member k x v = v"

definition map_members :: "(string \<Rightarrow> jval \<Rightarrow> jval) \<Rightarrow> jval \<Rightarrow> jval" where
  "map_members f v = (case v of JObj es \<Rightarrow> JObj (map (\<lambda>(k, x). (k, f k x)) es) | _ \<Rightarrow> v)"

section \<open>Mapping rules\<close>

fun name_branch :: "jval \<Rightarrow> jval" where
  "name_branch (JObj es) =
     (if truthy (oget es ''title'') then JObj es
      else if oget es ''type'' = JStr ''string'' then JObj (oput ''title'' (JStr ''Source path'') es)
      else (case oget es ''$ref'' of
          JStr r \<Rightarrow> if ends_with ''/DetailedMappingRule'' r
            then JObj (oput ''title'' (JStr ''Path with default'') es) else JObj es
        | _ \<Rightarrow> JObj es))"
| "name_branch v = v"

definition name_mapping_rule_branches :: "jval \<Rightarrow> jval" where
  "name_mapping_rule_branches item_schema =
     modify_at [''$defs'', ''MappingRule'', ''anyOf'']
       (\<lambda>v. case v of JArr bs \<Rightarrow> JArr (map name_branch bs) | _ \<Rightarrow> v) item_schema"

section \<open>Deprecated properties\<close>

definition defs_prefix :: string where
  "defs_prefix = ''#/$defs/''"

text \<open>The definition a property refers to.\<close>

definition referred_def :: "jval \<Rightarrow> string option" where
  "referred_def child =
     (case jget child ''$ref'' of
        JStr r \<Rightarrow> (if starts_with defs_prefix r \<and> drop (length defs_prefix) r \<noteq> []
          then Some (drop (length defs_prefix) r) else None)
      | _ \<Rightarrow> None)"

text \<open>The pairs of a definition and a property that refers to it; only membership matters.\<close>

fun collect_owners :: "jval \<Rightarrow> (string \<times> string) list" where
  "collect_owners (JArr xs) = concat (map collect_owners xs)"
| "collect_owners (JObj es) =
     List.map_filter (\<lambda>(k, child). map_option (\<lambda>d. (d, k)) (referred_def child))
       (obj_entries (js_or (oget es ''properties'') (JObj [])))
     @ concat (map (\<lambda>(k, v). collect_owners v) es)"
| "collect_owners v = []"

text \<open>The texts \<open>owner.key\<close> of the members the data has, at any depth.\<close>

fun present_members :: "string \<Rightarrow> jval \<Rightarrow> string list" where
  "present_members owner (JArr xs) = concat (map (present_members owner) xs)"
| "present_members owner (JObj es) =
     concat (map (\<lambda>(k, v). (owner @ ''.'' @ k) # present_members k v) es)"
| "present_members owner v = []"

definition deprecated_in_use :: "(string \<times> string) list \<Rightarrow> string list \<Rightarrow> string \<Rightarrow> string \<Rightarrow> bool" where
  "deprecated_in_use owners present def_name name =
     (let owner_keys = map snd (filter (\<lambda>e. fst e = def_name) owners)
      in if owner_keys \<noteq> [] then list_ex (\<lambda>owner. owner @ ''.'' @ name \<in> set present) owner_keys
         else list_ex (\<lambda>entry. ends_with (''.'' @ name) entry) present)"

definition is_deprecated :: "jval \<Rightarrow> bool" where
  "is_deprecated property = (case jget property ''description'' of JStr d \<Rightarrow> starts_with ''Deprecated:'' d | _ \<Rightarrow> False)"

definition hide_in_def :: "(string \<times> string) list \<Rightarrow> string list \<Rightarrow> string \<Rightarrow> jval \<Rightarrow> jval" where
  "hide_in_def owners present def_name =
     modify_at [''properties''] (map_members (\<lambda>name property.
       if is_deprecated property \<and> \<not> deprecated_in_use owners present def_name name
       then set_member ''hidden'' (JBool True) property else property))"

definition hide_unused_deprecated_properties :: "jval \<Rightarrow> jval \<Rightarrow> jval" where
  "hide_unused_deprecated_properties item_schema data =
     (let owners = collect_owners item_schema; present = present_members [] data
      in modify_at [''$defs''] (map_members (hide_in_def owners present)) item_schema)"

section \<open>The schema of one entry\<close>

definition resolve_root_array_item_schema :: "jval \<Rightarrow> string \<Rightarrow> obj" where
  "resolve_root_array_item_schema root_schema property_name =
     (let item_schema = clone_json (js_or (path_get root_schema [''properties'', property_name, ''items'']) (JObj []));
          root_defs = clone_json (js_or (jget root_schema ''$defs'') (JObj []));
          spread = obj_entries;
          item_defs = ospread (ospread [] (spread root_defs)) (spread (jget item_schema ''$defs''))
      in case jget item_schema ''$ref'' of
           JStr r \<Rightarrow>
             (if starts_with defs_prefix r then
                (let resolved = jget root_defs (drop (length defs_prefix) r);
                     base = (if truthy resolved then resolved else item_schema)
                 in oput ''$defs'' (JObj (ospread item_defs
                      (if truthy resolved then spread (jget resolved ''$defs'') else [])))
                      (ospread [] (spread base)))
              else oput ''$defs'' (JObj item_defs) (ospread [] (spread item_schema)))
         | _ \<Rightarrow> oput ''$defs'' (JObj item_defs) (ospread [] (spread item_schema)))"

section \<open>References to endpoints\<close>

definition static_config_def :: jval where
  "static_config_def = JObj
     [(''type'', JStr ''object''),
      (''properties'', JObj [(''static'', JObj [(''type'', JStr ''string'')])]),
      (''required'', JArr [JStr ''static''])]"

definition ref_config_def :: jval where
  "ref_config_def = JObj
     [(''type'', JStr ''object''), (''title'', JStr []),
      (''properties'', JObj [(''ref'', JObj [(''type'', JStr ''string'')])]),
      (''required'', JArr [JStr ''ref'']), (''wa-no-label'', JBool True)]"

definition ensure_def :: "string \<Rightarrow> jval \<Rightarrow> jval \<Rightarrow> jval" where
  "ensure_def name definition item_schema =
     (let schema = (if truthy (jget item_schema ''$defs'') then item_schema
        else set_member ''$defs'' (JObj []) item_schema)
      in if truthy (path_get schema [''$defs'', name]) then schema
         else modify_at [''$defs''] (set_member name definition) schema)"

fun force_ref :: "jval \<Rightarrow> jval" where
  "force_ref (JObj es) =
     JObj (oput ''type'' (JStr ''object'')
       (fold odel [''oneOf'', ''anyOf'', ''allOf'', ''properties'', ''enum'', ''const'', ''default'']
         (oput ''$ref'' (JStr ''#/$defs/RefConfig'') es)))"
| "force_ref v = v"

definition force_ref_only_endpoints :: "jval \<Rightarrow> jval" where
  "force_ref_only_endpoints item_schema =
     (let s1 = ensure_def ''StaticConfig'' static_config_def (ensure_def ''RefConfig'' ref_config_def item_schema);
          s2 = modify_at [''$defs'', ''DlqConfig'', ''properties'', ''endpoint''] force_ref s1;
          fanout = (if truthy (path_get s2 [''$defs'', ''FanoutConfig'']) then ''FanoutConfig'' else ''FanOutConfig'');
          s3 = (if truthy (path_get s2 [''$defs'', fanout, ''items''])
            then modify_at [''$defs'', fanout, ''items''] force_ref s2
            else modify_at [''$defs'', fanout, ''properties'', ''endpoints'', ''items''] force_ref s2);
          s4 = modify_at [''$defs'', ''SwitchConfig'', ''properties'', ''default''] force_ref s3
      in modify_at [''$defs'', ''SwitchConfig'', ''properties'', ''cases'', ''additionalProperties''] force_ref s4)"

section \<open>Routes\<close>

definition is_route_enabled :: "jval \<Rightarrow> bool" where
  "is_route_enabled route \<longleftrightarrow> jget route ''enabled'' \<noteq> JBool False"

definition endpoint_has_metrics :: "jval \<Rightarrow> bool" where
  "endpoint_has_metrics endpoint \<longleftrightarrow>
     list_ex (\<lambda>m. truthy (jget m ''metrics'')) (array_or_empty (jget endpoint ''middlewares''))"

definition has_metrics_middleware :: "jval \<Rightarrow> bool" where
  "has_metrics_middleware route \<longleftrightarrow>
     endpoint_has_metrics (jget route ''input'') \<or> endpoint_has_metrics (jget route ''output'')"

text \<open>Numbers are whole here, so \<open>toFixed\<close> appends zeros.\<close>

definition format_throughput :: "int \<Rightarrow> string" where
  "format_throughput v =
     (if v \<le> 0 then ''0 msg/s''
      else if v < 10 then int_str v @ ''.00 msg/s''
      else if v < 100 then int_str v @ ''.0 msg/s''
      else int_str v @ '' msg/s'')"

definition is_nullable_endpoint_property :: "jval \<Rightarrow> bool" where
  "is_nullable_endpoint_property property =
     (if \<not> is_object property then False
      else case js_or (jget property ''anyOf'') (jget property ''oneOf'') of
        JArr branches \<Rightarrow>
          list_ex (\<lambda>b. is_object b \<and> jget b ''$ref'' = JStr ''#/$defs/Endpoint'') branches
          \<and> list_ex (\<lambda>b. is_object b \<and> jget b ''type'' = JStr ''null'') branches
      | _ \<Rightarrow> False)"

definition drop_nullable_members :: "jval \<Rightarrow> jval" where
  "drop_nullable_members v =
     (case v of JObj es \<Rightarrow> JObj (filter (\<lambda>(k, p). \<not> is_nullable_endpoint_property p) es) | _ \<Rightarrow> v)"

definition drop_nullable_endpoint_properties :: "jval \<Rightarrow> jval" where
  "drop_nullable_endpoint_properties route_schema =
     modify_at [''$defs''] (map_members (\<lambda>name. modify_at [''properties''] drop_nullable_members)) route_schema"

definition pin_default :: "string \<Rightarrow> string \<Rightarrow> string \<Rightarrow> jval \<Rightarrow> jval" where
  "pin_default def_name field v = modify_at [''$defs'', def_name, ''properties'', field] (set_member ''default'' (JStr v))"

definition own_route_fields :: "string list" where
  "own_route_fields = [''id'', ''enabled'', ''description'']"

definition apply_endpoint_schema_defaults :: "jval \<Rightarrow> jval" where
  "apply_endpoint_schema_defaults route_schema =
     (let s1 = drop_nullable_endpoint_properties route_schema;
          s2 = pin_default ''FileConfig'' ''format'' ''raw'' s1;
          s3 = pin_default ''MongoDbConfig'' ''format'' ''raw'' s2;
          s4 = pin_default ''MongoDbConfig'' ''consume'' ''capture_all'' s3;
          s5 = modify_at [''properties'']
            (\<lambda>v. case v of JObj es \<Rightarrow> JObj (fold odel own_route_fields es) | _ \<Rightarrow> v) s4
      in modify_at [''required'']
           (\<lambda>v. case v of JArr ks \<Rightarrow> JArr (filter (\<lambda>k. k \<notin> JStr ` set own_route_fields) ks) | _ \<Rightarrow> v) s5)"

definition create_ref_input_endpoint :: "string \<Rightarrow> jval" where
  "create_ref_input_endpoint ref_name = JObj [(''middlewares'', JArr default_metrics_middleware), (''ref'', JStr ref_name)]"

definition split_route_form_data :: "string \<Rightarrow> obj \<Rightarrow> string \<times> obj" where
  "split_route_form_data current_name form_data =
     (let trimmed = js_trim (str_or (oget form_data ''name'') [])
      in (if trimmed \<noteq> [] then trimmed else current_name, from_entries (own_entries (odel ''name'' form_data))))"

end
