(* ===== verification/SaveFlow.thy ===== *)
theory SaveFlow
  imports Settings ConfigApi Dialogs Routing
begin

text \<open>
  Saving and loading (\<open>bootstrap.ts\<close>, with \<open>initSettings\<close> of \<open>settings.ts\<close> and
  \<open>feature-detection.ts\<close>): what a save sends, what it writes back into the live configuration, which
  sections it marks saved, and what remains after a failure. A promise here acts on the page's
  state. The form library's effect on the data of the settings form and the start of the two views
  (\<open>initPublishers\<close>, \<open>initConsumers\<close>) are parameters.
\<close>

section \<open>State\<close>

text \<open>The callbacks that are registered around a save: the settings page is the only one to do so.\<close>

datatype before_hook = Merge_settings
datatype after_hook = Reload_settings

record 'n save_env =
  se_fetch :: "'n fetch"
  se_marks :: marks
  se_owners :: owners
  se_origin :: "string \<Rightarrow> origin_parts option"
  se_fresh :: "nat \<Rightarrow> string"
  se_form_container :: bool
  se_form :: "obj \<Rightarrow> obj"
  se_init_publishers :: "obj \<Rightarrow> js_error + obj"
  se_init_consumers :: "obj \<Rightarrow> js_error + obj"

text \<open>
  \<open>sw_settings\<close> is the variable \<open>settingsConfig\<close> that the callbacks of the settings page share, and what
  its tracker reads; \<open>sw_alerts\<close> lists the errors shown; \<open>sw_busy\<close> says whether the button of the
  save is disabled and marked as saving.
\<close>

record 'n save_world =
  sw_net :: 'n
  sw_config :: obj
  sw_settings :: obj
  sw_dirty :: "obj dirty_state"
  sw_before_hooks :: "(string \<times> before_hook) list"
  sw_after_hooks :: "(string \<times> after_hook) list"
  sw_publishers_initialized :: bool
  sw_consumers_initialized :: bool
  sw_config_initialized :: bool
  sw_security :: jval
  sw_saving :: bool
  sw_busy :: bool
  sw_alerts :: "js_error list"

section \<open>Promises on the page\<close>

definition on_net :: "('n, 'a) promise \<Rightarrow> ('n save_world, 'a) promise" where
  "on_net p w = (case p (sw_net w) of (r, n') \<Rightarrow> (r, w\<lparr>sw_net := n'\<rparr>))"

definition doing :: "('w \<Rightarrow> 'w) \<Rightarrow> ('w, unit) promise" where
  "doing f w = (Inr (), f w)"

text \<open>\<open>.catch(() => null)\<close>\<close>

definition or_null :: "('w, jval) promise \<Rightarrow> ('w, jval) promise" where
  "or_null p w = (case p w of (Inl e, w') \<Rightarrow> (Inr Null, w') | (Inr v, w') \<Rightarrow> (Inr v, w'))"

fun each :: "('a \<Rightarrow> ('w, unit) promise) \<Rightarrow> 'a list \<Rightarrow> ('w, unit) promise" where
  "each f [] = doing id"
| "each f (x # xs) = await (f x) (\<lambda>_. each f xs)"

section \<open>The settings page\<close>

definition settings_of :: "'n save_env \<Rightarrow> obj \<Rightarrow> obj" where
  "settings_of env config = extract_settings_config (se_origin env) (se_fresh env) config"

definition register_settings :: "'n save_world \<Rightarrow> 'n save_world" where
  "register_settings w =
     w\<lparr>sw_dirty := register_dirty_section (sw_settings w) ''config'' ''workspace-save-button'' JObj (sw_dirty w),
       sw_before_hooks := oput ''config'' Merge_settings (sw_before_hooks w),
       sw_after_hooks := oput ''config'' Reload_settings (sw_after_hooks w)\<rparr>"

definition init_settings :: "'n save_env \<Rightarrow> ('n save_world, unit) promise" where
  "init_settings env w =
     (if \<not> se_form_container env then (Inr (), w)
      else let settings = settings_of env (sw_config w)
           in case clone_section_state (JObj settings) of
                None \<Rightarrow> (Inl Syntax_failure, w\<lparr>sw_settings := settings\<rparr>)
              | Some snapshot \<Rightarrow>
                  (let w1 = register_settings (w\<lparr>sw_settings := settings,
                         sw_dirty := (sw_dirty w)\<lparr>saved_sections := oput ''config'' snapshot (saved_sections (sw_dirty w))\<rparr>\<rparr>)
                   in (Inr (), w1\<lparr>sw_settings := se_form env settings\<rparr>)))"

fun run_before_hook :: "before_hook \<Rightarrow> 'n save_world \<Rightarrow> 'n save_world" where
  "run_before_hook Merge_settings w = w\<lparr>sw_config := merge_settings_config (sw_config w) (sw_settings w)\<rparr>"

fun run_after_hook :: "'n save_env \<Rightarrow> after_hook \<Rightarrow> obj \<Rightarrow> 'n save_world \<Rightarrow> 'n save_world" where
  "run_after_hook env Reload_settings saved w = w\<lparr>sw_settings := settings_of env saved\<rparr>"

section \<open>Saving\<close>

definition replace_live_config :: "obj \<Rightarrow> jval \<Rightarrow> obj" where
  "replace_live_config config refreshed =
     (if truthy refreshed then from_entries (obj_entries refreshed) else config)"

definition replace_config_from_save :: "'n save_env \<Rightarrow> ('n save_world, jval) promise" where
  "replace_config_from_save env w =
     await (on_net (save_whole_config (se_marks env) (se_owners env) (se_fetch env) (sw_config w)))
       (\<lambda>refreshed. await (or_null (on_net (fetch_storage_security_from_server (se_fetch env))))
         (\<lambda>security. await (doing (\<lambda>w. w\<lparr>sw_config := replace_live_config (sw_config w) refreshed,
               sw_security := (if truthy security
                 then JObj (security_doc (normalize_storage_security_info security)) else sw_security w)\<rparr>))
           (\<lambda>_. resolved (Inr refreshed)))) w"

definition run_save_action ::
    "bool \<Rightarrow> bool \<Rightarrow> bool \<Rightarrow> ('n save_world, jval) promise \<Rightarrow> 'n save_world \<Rightarrow> jval \<times> 'n save_world" where
  "run_save_action track silent button action w =
     (let (r, w1) = action (if track then w\<lparr>sw_saving := True\<rparr> else w);
          (v, w2) = (case r of
              Inr v \<Rightarrow> (v, w1)
            | Inl e \<Rightarrow> (Null, if silent then w1 else w1\<lparr>sw_alerts := sw_alerts w1 @ [e]\<rparr>));
          w3 = (if track then w2\<lparr>sw_saving := False\<rparr> else w2)
      in (v, if button then w3\<lparr>sw_busy := False\<rparr> else w3))"

definition mark_saved :: "string \<Rightarrow> jval \<Rightarrow> ('n save_world, unit) promise" where
  "mark_saved section_name v w =
     (case mark_section_saved (sw_settings w) section_name v (sw_dirty w) of
        None \<Rightarrow> (Inl Syntax_failure, w)
      | Some d \<Rightarrow> (Inr (), w\<lparr>sw_dirty := d\<rparr>))"

definition start_view :: "(obj \<Rightarrow> js_error + obj) \<Rightarrow> ('n save_world, unit) promise" where
  "start_view init w =
     (case init (sw_config w) of Inl e \<Rightarrow> (Inl e, w) | Inr config \<Rightarrow> (Inr (), w\<lparr>sw_config := config\<rparr>))"

definition reinitialize_workspace_views :: "'n save_env \<Rightarrow> ('n save_world, unit) promise" where
  "reinitialize_workspace_views env w =
     await (if sw_publishers_initialized w then start_view (se_init_publishers env) else doing id)
       (\<lambda>_. await (if sw_consumers_initialized w then start_view (se_init_consumers env) else doing id)
         (\<lambda>_. if sw_config_initialized w then init_settings env else doing id)) w"

definition press :: "bool \<Rightarrow> 'n save_world \<Rightarrow> 'n save_world" where
  "press button w = (if button then w\<lparr>sw_busy := True\<rparr> else w)"

definition mark_sections_saved :: "'n save_env \<Rightarrow> ('n save_world, unit) promise" where
  "mark_sections_saved env w =
     await (mark_saved ''publishers'' (coalesce (oget (sw_config w) ''publishers'') (JArr [])))
       (\<lambda>_. await (mark_saved ''consumers'' (coalesce (oget (sw_config w) ''consumers'') (JArr [])))
         (\<lambda>_. mark_saved ''config'' (JObj (settings_of env (sw_config w))))) w"

definition after_save :: "'n save_env \<Rightarrow> jval \<Rightarrow> ('n save_world, jval) promise" where
  "after_save env refreshed w =
     await (each (\<lambda>hook. doing (run_after_hook env hook (sw_config w))) (map snd (own_entries (sw_after_hooks w))))
       (\<lambda>_. await (reinitialize_workspace_views env)
         (\<lambda>_. await (mark_sections_saved env) (\<lambda>_. resolved (Inr refreshed)))) w"

definition save_workspace :: "'n save_env \<Rightarrow> bool \<Rightarrow> bool \<Rightarrow> 'n save_world \<Rightarrow> jval \<times> 'n save_world" where
  "save_workspace env silent button w =
     run_save_action True silent button
       (await (each (\<lambda>hook. doing (run_before_hook hook)) (map snd (own_entries (sw_before_hooks w))))
         (\<lambda>_. await (replace_config_from_save env) (after_save env)))
       (press button w)"

definition save_config :: "'n save_env \<Rightarrow> bool \<Rightarrow> bool \<Rightarrow> 'n save_world \<Rightarrow> jval \<times> 'n save_world" where
  "save_config env silent button w =
     run_save_action False silent button
       (await (replace_config_from_save env)
         (\<lambda>refreshed w. await (mark_saved ''config'' (JObj (settings_of env (sw_config w))))
           (\<lambda>_. resolved (Inr refreshed)) w))
       (press button w)"

definition save_section :: "'n save_env \<Rightarrow> string \<Rightarrow> jval \<Rightarrow> bool \<Rightarrow> bool \<Rightarrow> 'n save_world \<Rightarrow> jval \<times> 'n save_world" where
  "save_section env section_name section_value silent button w =
     run_save_action False silent button
       (\<lambda>w. await (on_net (save_config_section (se_marks env) (se_owners env) (se_fetch env) (sw_config w)
              section_name section_value))
          (\<lambda>refreshed. if refreshed = Null then resolved (Inl Type_failure)
            else await (doing (\<lambda>w. w\<lparr>sw_config := oput section_name (jget refreshed section_name) (sw_config w)\<rparr>))
            (\<lambda>_. await (mark_saved section_name (jget refreshed section_name))
              (\<lambda>_. resolved (Inr refreshed)))) w)
       (press button w)"

section \<open>Loading\<close>

text \<open>The cache of \<open>feature-detection.ts\<close> and the fallback when the server cannot be asked.\<close>

definition default_features :: jval where
  "default_features = JObj
     [(''ibm_mq'', JBool False), (''kafka'', JBool True), (''nats'', JBool True), (''amqp'', JBool True),
      (''mqtt'', JBool True), (''http'', JBool True), (''grpc'', JBool True), (''zeromq'', JBool True),
      (''mongodb'', JBool True), (''aws'', JBool True), (''sled'', JBool True),
      (''redis_streams'', JBool True), (''object_store'', JBool True)]"

definition get_available_features :: "'n fetch \<Rightarrow> jval option \<Rightarrow> 'n \<Rightarrow> jval \<times> jval option \<times> 'n" where
  "get_available_features fetch cached n =
     (case cached of
        Some features \<Rightarrow> (features, cached, n)
      | None \<Rightarrow>
          (case fetch (get_request ''/features'') n of
             (Inr r, n') \<Rightarrow>
               (if \<not> rs_ok r then (default_features, None, n')
                else case response_json r of
                  Inr features \<Rightarrow> (features, if truthy features then Some features else None, n')
                | Inl _ \<Rightarrow> (default_features, None, n'))
           | (Inl _, n') \<Rightarrow> (default_features, None, n')))"

definition is_feature_available :: "'n fetch \<Rightarrow> string \<Rightarrow> jval option \<Rightarrow> 'n \<Rightarrow> bool \<times> jval option \<times> 'n" where
  "is_feature_available fetch feature cached n =
     (case get_available_features fetch cached n of (features, rest) \<Rightarrow> (truthy (jget features feature), rest))"

text \<open>
  The recovery of a configuration that could not be decrypted. \<open>choice\<close> is the answer of the user;
  the result is the text of the notice that ends it, if there is one.
\<close>

definition recovery_question :: "jval \<Rightarrow> string" where
  "recovery_question recovery =
     to_str (jget recovery ''message'')
     @ (if truthy (jget recovery ''detail'') then [CHR 0x0A, CHR 0x0A] @ to_str (jget recovery ''detail'') else [])"

definition recovery_choices :: "dialog_choice list" where
  "recovery_choices =
     [\<lparr>dc_value = ''continue'', dc_label = ''Continue'',
       dc_description = Some ''Open the app with a temporary empty config for now.''\<rparr>,
      \<lparr>dc_value = ''reset'', dc_label = ''Reset Config'',
       dc_description = Some ''Back up the unreadable config and replace it with a fresh default config.''\<rparr>]"

definition maybe_handle_config_recovery ::
    "'n fetch \<Rightarrow> (string \<Rightarrow> dialog_choice list \<Rightarrow> dialog_answer) \<Rightarrow> ('n, string option) promise" where
  "maybe_handle_config_recovery fetch choice =
     await (or_null (fetch_config_recovery_from_server fetch))
       (\<lambda>recovery. if \<not> truthy (jget recovery ''message'') then resolved (Inr None)
         else if choice (recovery_question recovery) recovery_choices = Text ''reset'' then
           await (post_reset_config_recovery fetch)
             (\<lambda>result. resolved (Inr (Some
               (if truthy (jget result ''backup_path'')
                then ''The unreadable config was backed up to:'' @ [CHR 0x0A] @ to_str (jget result ''backup_path'')
                else ''The unreadable config was reset.''))))
         else resolved (Inr None))"

text \<open>
  The loading part of \<open>bootstrapApp\<close>: the configuration without its routes becomes the live one, and
  its sections are remembered as saved. The schema is registered by the theories about endpoint
  kinds and save errors.
\<close>

definition reset_app_state :: "'n save_world \<Rightarrow> 'n save_world" where
  "reset_app_state w =
     w\<lparr>sw_dirty := (sw_dirty w)\<lparr>dirty_sections := [], saved_sections := [], workspace_dirty := False\<rparr>,
       sw_before_hooks := [], sw_after_hooks := [],
       sw_publishers_initialized := False, sw_consumers_initialized := False, sw_config_initialized := False,
       sw_security := JObj (security_doc empty_storage_security), sw_saving := False\<rparr>"

definition load_config :: "'n save_env \<Rightarrow> ('n save_world, obj) promise" where
  "load_config env =
     await (on_net (fetch_config_from_server (se_fetch env)))
       (\<lambda>config. await (or_null (on_net (fetch_storage_security_from_server (se_fetch env))))
         (\<lambda>raw. case config of
            JObj es \<Rightarrow>
              await (doing (\<lambda>w. w\<lparr>sw_config := odel ''routes'' es,
                    sw_security := JObj (security_doc (normalize_storage_security_info
                      (if raw = Null then JObj (security_doc empty_storage_security) else raw)))\<rparr>))
                (\<lambda>_. resolved (Inr (odel ''routes'' es)))
          | _ \<Rightarrow> resolved (Inl Type_failure)))"

definition remember_saved :: "obj \<Rightarrow> ('n save_world, unit) promise" where
  "remember_saved config w =
     (case (clone_section_state (oget config ''consumers''), clone_section_state (oget config ''publishers''),
            clone_section_state (JObj config)) of
        (Some consumers, Some publishers, Some whole) \<Rightarrow>
          (let st = (sw_dirty w)\<lparr>saved_sections :=
                 [(''consumers'', consumers), (''publishers'', publishers), (''config'', whole)]\<rparr>
           in (Inr (), w\<lparr>sw_dirty := snd (render_workspace_dirty (sw_settings w) st)\<rparr>))
      | _ \<Rightarrow> (Inl Syntax_failure, w))"

definition bootstrap_app :: "'n save_env \<Rightarrow> (string \<Rightarrow> dialog_choice list \<Rightarrow> dialog_answer) \<Rightarrow> ('n save_world, unit) promise" where
  "bootstrap_app env choice w =
     await (on_net (maybe_handle_config_recovery (se_fetch env) choice))
       (\<lambda>_. await (load_config env) remember_saved) (reset_app_state w)"

section \<open>What a promise leaves alone\<close>

lemma await_Inr [simp]: "p w = (Inr x, w') \<Longrightarrow> await p f w = f x w'"
  and await_Inl [simp]: "p w = (Inl e, w') \<Longrightarrow> await p f w = (Inl e, w')"
  by (simp_all add: await_def)

lemma each_doing: "each (\<lambda>x. doing (f x)) xs w = (Inr (), fold f xs w)"
  by (induction xs arbitrary: w) (simp_all add: doing_def await_def)

text \<open>\<open>keeps g p\<close>: whatever \<open>p\<close> does, \<open>g\<close> of the page stays the same.\<close>

definition keeps :: "('w \<Rightarrow> 'b) \<Rightarrow> ('w, 'a) promise \<Rightarrow> bool" where
  "keeps g p \<longleftrightarrow> (\<forall>w. g (snd (p w)) = g w)"

lemma keepsD: "keeps g p \<Longrightarrow> p w = (r, w') \<Longrightarrow> g w' = g w"
  by (metis keeps_def snd_conv)

lemma keeps_await: "keeps g p \<Longrightarrow> (\<And>x. keeps g (f x)) \<Longrightarrow> keeps g (await p f)"
  by (auto simp: keeps_def await_def split: prod.split sum.split) (metis snd_conv)+

lemma keeps_resolved: "keeps g (resolved r)"
  by (simp add: keeps_def resolved_def)

lemma keeps_doing: "(\<And>w. g (f w) = g w) \<Longrightarrow> keeps g (doing f)"
  by (simp add: keeps_def doing_def)

lemma keeps_here: "(\<And>u. keeps g (p u)) \<Longrightarrow> keeps g (\<lambda>w. p w w)"
  by (simp add: keeps_def)

lemma keeps_if: "keeps g p \<Longrightarrow> keeps g q \<Longrightarrow> keeps g (if b then p else q)"
  by simp

lemma keeps_each: "(\<And>x. keeps g (f x)) \<Longrightarrow> keeps g (each f xs)"
  by (induction xs) (auto intro: keeps_await keeps_doing)

lemmas keeps_intros = keeps_await keeps_resolved keeps_doing keeps_if keeps_each

text \<open>What is saved and where: the part of the page that only the save itself changes.\<close>

definition save_core :: "'n save_world \<Rightarrow> 'n \<times> obj \<times> js_error list" where
  "save_core w = (sw_net w, sw_config w, sw_alerts w)"

lemma save_core_frame [simp]:
  "save_core (w\<lparr>sw_settings := c\<rparr>) = save_core w" "save_core (w\<lparr>sw_dirty := d\<rparr>) = save_core w"
  "save_core (register_settings w) = save_core w" "save_core (run_after_hook env h c w) = save_core w"
  by (cases h; simp add: save_core_def register_settings_def)+

lemma keeps_mark_saved: "keeps save_core (mark_saved s v)"
  by (auto simp: keeps_def mark_saved_def split: option.split)

lemma keeps_init_settings: "keeps save_core (init_settings env)"
  by (auto simp: keeps_def init_settings_def Let_def split: option.split)

lemma keeps_mark_sections: "keeps save_core (mark_sections_saved env)"
  unfolding mark_sections_saved_def [abs_def]
  by (rule keeps_here [of save_core "\<lambda>u. await (mark_saved ''publishers'' (coalesce (oget (sw_config u) ''publishers'') (JArr [])))
       (\<lambda>_. await (mark_saved ''consumers'' (coalesce (oget (sw_config u) ''consumers'') (JArr [])))
         (\<lambda>_. mark_saved ''config'' (JObj (settings_of env (sw_config u)))))"])
    (intro keeps_intros keeps_mark_saved)

definition passive_views :: "'n save_env \<Rightarrow> bool" where
  "passive_views env \<longleftrightarrow> (\<forall>c. se_init_publishers env c = Inr c \<and> se_init_consumers env c = Inr c)"

lemma keeps_reinitialize:
  assumes "passive_views env"
  shows "keeps save_core (reinitialize_workspace_views env)"
proof -
  have views: "keeps save_core (start_view (se_init_publishers env))" "keeps save_core (start_view (se_init_consumers env))"
    using assms by (simp_all add: passive_views_def keeps_def start_view_def)
  show ?thesis
    unfolding reinitialize_workspace_views_def [abs_def]
    by (rule keeps_here [of save_core "\<lambda>u. await (if sw_publishers_initialized u then start_view (se_init_publishers env) else doing id)
       (\<lambda>_. await (if sw_consumers_initialized u then start_view (se_init_consumers env) else doing id)
         (\<lambda>_. if sw_config_initialized u then init_settings env else doing id))"])
      (intro keeps_intros views keeps_init_settings; simp)
qed

lemma keeps_after_save:
  assumes "passive_views env"
  shows "keeps save_core (after_save env refreshed)"
  unfolding after_save_def [abs_def]
  by (rule keeps_here [of save_core "\<lambda>u. await (each (\<lambda>hook. doing (run_after_hook env hook (sw_config u))) (map snd (own_entries (sw_after_hooks u))))
       (\<lambda>_. await (reinitialize_workspace_views env)
         (\<lambda>_. await (mark_sections_saved env) (\<lambda>_. resolved (Inr refreshed))))"])
    (intro keeps_intros keeps_reinitialize [OF assms] keeps_mark_sections; simp)

section \<open>Properties\<close>

text \<open>The configuration a save of the workspace sends: the live one with the settings merged in.\<close>

definition config_to_save :: "'n save_world \<Rightarrow> obj" where
  "config_to_save w = sw_config (fold run_before_hook (map snd (own_entries (sw_before_hooks w))) w)"

lemma run_before_hook_eq: "run_before_hook h w = w\<lparr>sw_config := merge_settings_config (sw_config w) (sw_settings w)\<rparr>"
  by (cases h) simp

lemma before_hooks_run:
  "fold run_before_hook hs w = w\<lparr>sw_config := sw_config (fold run_before_hook hs w)\<rparr>"
proof (induction hs arbitrary: w)
  case (Cons h hs)
  show ?case by (subst fold_simps(2), subst Cons.IH) (simp add: run_before_hook_eq)
qed simp

lemma before_hooks_config:
  "sw_config v = sw_config w \<Longrightarrow> sw_settings v = sw_settings w \<Longrightarrow>
    sw_config (fold run_before_hook hs v) = sw_config (fold run_before_hook hs w)"
  by (induction hs arbitrary: v w) (simp_all add: run_before_hook_eq)

lemma config_to_save_frame [simp]: "config_to_save (w\<lparr>sw_saving := b\<rparr>) = config_to_save w"
  "config_to_save (press button w) = config_to_save w"
  unfolding config_to_save_def press_def by (auto intro: before_hooks_config)

lemma press_hooks [simp]: "sw_before_hooks (press button w) = sw_before_hooks w"
  by (simp add: press_def)

lemma before_hooks_promise:
  "each (\<lambda>hook. doing (run_before_hook hook)) (map snd (own_entries (sw_before_hooks w))) w
    = (Inr (), w\<lparr>sw_config := config_to_save w\<rparr>)"
  unfolding each_doing config_to_save_def using before_hooks_run by metis

text \<open>C5: A save that the server refuses, or that fails on the way, loses nothing: the live
  configuration is the one that was to be sent, the settings form, every tracker and every baseline
  are as before, so all unsaved changes stay visible; the error is shown unless the save was
  silent, and the saving marks are taken back.\<close>

theorem failed_save_loses_nothing:
  assumes "save_whole_config (se_marks env) (se_owners env) (se_fetch env) (config_to_save w) (sw_net w) = (Inl e, n')"
  shows "save_workspace env silent button w = (Null,
    w\<lparr>sw_net := n', sw_config := config_to_save w, sw_saving := False, sw_busy := (sw_busy w \<and> \<not> button),
      sw_alerts := sw_alerts w @ (if silent then [] else [e])\<rparr>)"
proof -
  let ?w = "(press button w)\<lparr>sw_saving := True\<rparr>"
  have c: "config_to_save ?w = config_to_save w" by simp
  have n: "sw_net ?w = sw_net w" by (simp add: press_def)
  let ?w1 = "?w\<lparr>sw_config := config_to_save w\<rparr>"
  have "replace_config_from_save env ?w1 = (Inl e, ?w1\<lparr>sw_net := n'\<rparr>)"
    unfolding replace_config_from_save_def
    by (rule await_Inl) (use assms n in \<open>simp add: on_net_def\<close>)
  moreover have "sw_before_hooks ?w = sw_before_hooks w" by (simp add: press_def)
  ultimately have "await (each (\<lambda>hook. doing (run_before_hook hook)) (map snd (own_entries (sw_before_hooks w))))
      (\<lambda>_. await (replace_config_from_save env) (after_save env)) ?w = (Inl e, ?w1\<lparr>sw_net := n'\<rparr>)"
    using before_hooks_promise [of ?w] unfolding c by simp
  then show ?thesis
    by (cases button) (simp_all add: save_workspace_def run_save_action_def press_def)
qed

definition refusing_server :: "unit fetch" where
  "refusing_server rq n = (Inr \<lparr>rs_ok = False, rs_status = 500, rs_status_text = [], rs_body = Some ''no''\<rparr>, n)"

definition sample_save_env :: "'n fetch \<Rightarrow> 'n save_env" where
  "sample_save_env f = \<lparr>se_fetch = f, se_marks = \<lparr>mk_open = [], mk_close = [], mk_arrow = []\<rparr>, se_owners = [],
     se_origin = (\<lambda>_. None), se_fresh = nat_str, se_form_container = True, se_form = id,
     se_init_publishers = Inr, se_init_consumers = Inr\<rparr>"

definition sample_page :: "'n \<Rightarrow> 'n save_world" where
  "sample_page n = \<lparr>sw_net = n, sw_config = [(''log_level'', JStr ''info''), (''a'', JNum 1)],
     sw_settings = [(''log_level'', JStr ''debug'')],
     sw_dirty = \<lparr>dirty_sections = [], saved_sections = [], workspace_dirty = False, buttons = []\<rparr>,
     sw_before_hooks = [(''config'', Merge_settings)], sw_after_hooks = [(''config'', Reload_settings)],
     sw_publishers_initialized = True, sw_consumers_initialized = False, sw_config_initialized = False,
     sw_security = Null, sw_saving = False, sw_busy = False, sw_alerts = []\<rparr>"

theorem failed_save_loses_nothing_witness:
  "sw_alerts (snd (save_workspace (sample_save_env refusing_server) False True (sample_page ()))) = [Js_error ''no'']"
proof -
  let ?e = "sample_save_env refusing_server" and ?w = "sample_page ()"
  have e: "explain_config_save_error (se_marks ?e) (se_owners ?e) ''no'' b = ''no''" for b
  proof -
    have "js_trim (cut_excerpt ''no'') = ''no''" "find_location ''no'' = None" by code_simp+
    then show ?thesis by (simp add: explain_config_save_error_def)
  qed
  have "save_whole_config (se_marks ?e) (se_owners ?e) (se_fetch ?e) (config_to_save ?w) (sw_net ?w) = (Inl (Js_error ''no''), ())"
    using e by (simp add: save_whole_config_def post_config_def await_def resolved_def Let_def sample_save_env_def
        refusing_server_def read_response_error_def del: stringify.simps)
  from failed_save_loses_nothing [OF this, of False True] show ?thesis by (simp add: sample_page_def)
qed

lemma replace_live_clone: "wf_jval (JObj cfg) \<Longrightarrow> JObj (replace_live_config c (clone_json (JObj cfg))) = clone_json (JObj cfg)"
proof -
  assume "wf_jval (JObj cfg)"
  then have "wf_jval (clone_json (JObj cfg))" by (rule wf_clone_json)
  moreover obtain ds where ds: "clone_json (JObj cfg) = JObj ds" and "own_entries ds = ds" by simp
  ultimately show ?thesis unfolding ds by (simp add: replace_live_config_def)
qed

text \<open>What a save writes back, against a server that keeps what it accepts.\<close>

lemma replaced_from_save:
  assumes "honest_server (se_fetch env) held"
    and quiet: "\<And>n. held (snd (se_fetch env (get_request ''/storage-security'') n)) = held n"
    and wf: "wf_jval (JObj (sw_config w))"
    and run: "replace_config_from_save env w = (Inr v, w')"
  shows "v = clone_json (JObj (sw_config w)) \<and> JObj (sw_config w') = v \<and> held (sw_net w') = v
    \<and> sw_alerts w' = sw_alerts w"
proof -
  let ?save = "save_whole_config (se_marks env) (se_owners env) (se_fetch env) (sw_config w)"
  obtain r n1 where s: "?save (sw_net w) = (r, n1)" by force
  have "\<not> isl r"
    using run s by (cases r) (auto simp: replace_config_from_save_def on_net_def await_def)
  then obtain ref where r: "r = Inr ref" by (cases r) auto
  have held: "ref = clone_json (JObj (sw_config w))" "held n1 = ref"
    using honest_save_whole [OF assms(1) wf, where m = "se_marks env" and ow = "se_owners env" and n = "sw_net w"] s r by auto
  obtain sec n2 where f: "fetch_storage_security_from_server (se_fetch env) n1 = (sec, n2)" by force
  have "n2 = snd (se_fetch env (get_request ''/storage-security'') n1)"
    using f by (auto simp: fetch_storage_security_from_server_def await_def resolved_def split: prod.splits sum.splits)
  then have n2: "held n2 = ref" using quiet held(2) by simp
  have "v = ref" "sw_net w' = n2" "sw_config w' = replace_live_config (sw_config w) ref" "sw_alerts w' = sw_alerts w"
    using run s r f
    by (auto simp: replace_config_from_save_def on_net_def or_null_def doing_def resolved_def await_def split: sum.splits)
  then show ?thesis using held(1) n2 replace_live_clone [OF wf] by simp
qed

lemma run_save_action_Some:
  assumes "run_save_action track silent button action w = (v, w')" and "v \<noteq> Null"
  obtains w1 where "action (if track then w\<lparr>sw_saving := True\<rparr> else w) = (Inr v, w1)"
    "sw_net w' = sw_net w1" "sw_config w' = sw_config w1" "sw_alerts w' = sw_alerts w1" "track \<Longrightarrow> \<not> sw_saving w'"
    "button \<Longrightarrow> \<not> sw_busy w'"
  using assms by (auto simp: run_save_action_def Let_def split: prod.splits sum.splits if_splits)

lemma await_Inr_cases:
  assumes "await p f w = (Inr y, w')"
  obtains x w1 where "p w = (Inr x, w1)" "f x w1 = (Inr y, w')"
  using assms by (auto simp: await_def split: prod.splits sum.splits)


lemma mark_saved_ok: "wf_jval v \<Longrightarrow> v \<noteq> Undef \<Longrightarrow> \<exists>d. mark_saved s v w = (Inr (), w\<lparr>sw_dirty := d\<rparr>)"
  using clone_section_serialize [of v] by (auto simp: mark_saved_def mark_section_saved_def Let_def split: option.split)

lemma mark_sections_ok:
  assumes "wf_jval (coalesce (oget (sw_config w) ''publishers'') (JArr []))"
    and "wf_jval (coalesce (oget (sw_config w) ''consumers'') (JArr []))"
    and "wf_jval (JObj (settings_of env (sw_config w)))"
  shows "\<exists>d. mark_sections_saved env w = (Inr (), w\<lparr>sw_dirty := d\<rparr>)"
proof -
  have u: "coalesce x (JArr []) \<noteq> Undef" for x by (simp add: coalesce_def)
  obtain d1 where 1: "mark_saved ''publishers'' (coalesce (oget (sw_config w) ''publishers'') (JArr [])) w = (Inr (), w\<lparr>sw_dirty := d1\<rparr>)"
    using mark_saved_ok [OF assms(1) u] by blast
  obtain d2 where 2: "mark_saved ''consumers'' (coalesce (oget (sw_config w) ''consumers'') (JArr [])) (w\<lparr>sw_dirty := d1\<rparr>)
      = (Inr (), w\<lparr>sw_dirty := d1\<rparr>\<lparr>sw_dirty := d2\<rparr>)"
    using mark_saved_ok [OF assms(2) u] by blast
  obtain d3 where "mark_saved ''config'' (JObj (settings_of env (sw_config w))) (w\<lparr>sw_dirty := d1\<rparr>\<lparr>sw_dirty := d2\<rparr>)
      = (Inr (), w\<lparr>sw_dirty := d1\<rparr>\<lparr>sw_dirty := d2\<rparr>\<lparr>sw_dirty := d3\<rparr>)"
    using mark_saved_ok [OF assms(3)] by blast
  with 1 2 show ?thesis by (auto simp: mark_sections_saved_def)
qed

lemma replace_ok:
  assumes "save_whole_config (se_marks env) (se_owners env) (se_fetch env) (sw_config w) (sw_net w) = (Inr ref, n1)"
    and "replace_live_config (sw_config w) ref = sw_config w"
  shows "\<exists>n x. replace_config_from_save env w = (Inr ref, w\<lparr>sw_net := n, sw_security := x\<rparr>)"
proof -
  obtain sec n where "fetch_storage_security_from_server (se_fetch env) n1 = (sec, n)" by force
  then show ?thesis
    using assms
    by (intro exI [of _ n] exI [of _ "case sec of
          Inr v \<Rightarrow> (if truthy v then JObj (security_doc (normalize_storage_security_info v)) else sw_security w)
        | Inl _ \<Rightarrow> sw_security w"])
      (cases sec; simp add: replace_config_from_save_def on_net_def or_null_def doing_def resolved_def await_def)
qed


lemma mark_saved_local:
  assumes "mark_section_saved u s v d = Some d'" and "k \<noteq> s"
  shows "map_of (dirty_sections d') k = map_of (dirty_sections d) k"
    "oget (saved_sections d') k = oget (saved_sections d) k"
  using assms by (auto simp: mark_section_saved_def Let_def update_conv' split: option.splits)

lemma mark_saved_frame:
  assumes "mark_saved s v w = (r, w')" and "k \<noteq> s"
  shows "sw_config w' = sw_config w \<and> sw_settings w' = sw_settings w
    \<and> map_of (dirty_sections (sw_dirty w')) k = map_of (dirty_sections (sw_dirty w)) k
    \<and> oget (saved_sections (sw_dirty w')) k = oget (saved_sections (sw_dirty w)) k"
  using assms mark_saved_local [OF _ assms(2)] by (auto simp: mark_saved_def split: option.splits)

definition apart :: "string \<Rightarrow> 'n save_world \<Rightarrow> jval \<times> obj dirty_tracker option \<times> jval \<times> obj" where
  "apart k w = (oget (sw_config w) k, map_of (dirty_sections (sw_dirty w)) k, oget (saved_sections (sw_dirty w)) k, sw_settings w)"

lemma apart_frame [simp]:
  "apart k (w\<lparr>sw_net := n\<rparr>) = apart k w" "apart k (w\<lparr>sw_saving := b\<rparr>) = apart k w"
  "apart k (w\<lparr>sw_busy := b\<rparr>) = apart k w" "apart k (w\<lparr>sw_alerts := es\<rparr>) = apart k w"
  "k \<noteq> s \<Longrightarrow> apart k (w\<lparr>sw_config := oput s v (sw_config w)\<rparr>) = apart k w"
  by (simp_all add: apart_def)

lemma keeps_apart_mark:
  assumes "k \<noteq> s"
  shows "keeps (apart k) (mark_saved s v)"
  unfolding keeps_def
proof (rule allI)
  fix u :: "'n save_world"
  obtain r w1 where m: "mark_saved s v u = (r, w1)" by force
  from mark_saved_frame [OF m assms] show "apart k (snd (mark_saved s v u)) = apart k u"
    by (simp add: m apart_def)
qed

lemma apart_action: "keeps (apart k) action \<Longrightarrow> apart k (snd (run_save_action track silent button action w)) = apart k w"
  by (auto simp: run_save_action_def Let_def keeps_def split: prod.splits sum.splits) (metis apart_frame(2) snd_conv)+

text \<open>Saving one section is local, whether it succeeds or fails: no other member of the live
  configuration changes, no other section's tracker or remembered state changes, and the settings
  form keeps its data.\<close>

theorem section_save_is_local:
  assumes "k \<noteq> section_name"
  shows "(let w' = snd (save_section env section_name v silent button w)
    in (oget (sw_config w') k, map_of (dirty_sections (sw_dirty w')) k, oget (saved_sections (sw_dirty w')) k, sw_settings w'))
    = (oget (sw_config w) k, map_of (dirty_sections (sw_dirty w)) k, oget (saved_sections (sw_dirty w)) k, sw_settings w)"
proof -
  have net: "keeps (apart k) (on_net p)" for p
    by (simp add: keeps_def on_net_def split: prod.split)
  have "apart k (snd (save_section env section_name v silent button w)) = apart k (press button w)"
    unfolding save_section_def
    by (rule apart_action, rule keeps_here, intro keeps_intros keeps_apart_mark [OF assms] net; simp add: assms)
  then show ?thesis by (simp add: apart_def press_def Let_def)
qed

theorem section_save_is_local_witness:
  "oget (sw_config (snd (save_section (sample_save_env refusing_server) ''b'' (JNum 2) False False (sample_page ())))) ''a'' = JNum 1"
  using section_save_is_local [of "''a''" "''b''" "sample_save_env refusing_server" "JNum 2" False False "sample_page ()"]
  by (simp add: sample_page_def Let_def)

end
