(* ===== verification/ConsumerMessages.thy ===== *)
theory ConsumerMessages
  imports ConsumerTree PublisherTree RuntimeStatus Names Json
begin

text \<open>
  Consumers as the panel keeps them and the messages captured from them (first part of
  \<open>consumers-view.ts\<close>): the normal form of a consumer, the keys under which it is known, the table
  of captured messages, what the status of a running or finished consumer shows. A status is the
  object the poller has published; its numbers are numbers, as the poller guarantees.
\<close>

section \<open>Capture and output\<close>

definition default_keep_last :: int where "default_keep_last = 100"

record capture =
  cp_enabled :: jval
  cp_keep_last :: int

definition normalize_message_capture :: "jval \<Rightarrow> capture" where
  "normalize_message_capture input =
     \<lparr>cp_enabled = coalesce (jget input ''enabled'') (JBool True),
      cp_keep_last = (case jget input ''keep_last'' of JNum n \<Rightarrow> max 1 n | _ \<Rightarrow> default_keep_last)\<rparr>"

definition capture_doc :: "capture \<Rightarrow> jval" where
  "capture_doc c = JObj [(''enabled'', cp_enabled c), (''keep_last'', JNum (cp_keep_last c))]"

definition no_output :: jval where
  "no_output = JObj [(''mode'', JStr ''none'')]"

definition normalize_output :: "jval \<Rightarrow> jval" where
  "normalize_output input =
     (if \<not> is_object input then no_output
      else if jget input ''mode'' = JStr ''publisher'' then
        (let publisher_id = js_trim (member_str input ''publisher_id'')
         in JObj ([(''mode'', JStr ''publisher''), (''publisher'', JStr (member_str input ''publisher''))]
              @ (if publisher_id \<noteq> [] then [(''publisher_id'', JStr publisher_id)] else [])))
      else if jget input ''mode'' = JStr ''response'' then
        JObj [(''mode'', JStr ''response''),
              (''response'', coalesce (jget input ''response'')
                 (JObj [(''payload'', JStr []), (''headers'', JObj [])]))]
      else no_output)"

definition response_or_null :: "jval \<Rightarrow> jval" where
  "response_or_null v =
     (case normalize_consumer_response v of Some r \<Rightarrow> response_document r | None \<Rightarrow> Null)"

text \<open>
  \<open>fresh\<close> is what \<open>createLocalEntityId\<close> would return; it is called only for a consumer
  that has no identifier.
\<close>

definition lacks_id :: "obj \<Rightarrow> bool" where
  "lacks_id entity \<longleftrightarrow> js_trim (str_or (oget entity ''id'') []) = []"

definition given_id :: "string \<Rightarrow> obj \<Rightarrow> string" where
  "given_id fresh entity = (if lacks_id entity then fresh else js_trim (str_or (oget entity ''id'') []))"

definition normalize_consumer_config :: "string \<Rightarrow> obj \<Rightarrow> obj" where
  "normalize_consumer_config fresh input =
     (let next = record_or_empty (clone_json (JObj input));
          next = oput ''id'' (JStr (given_id fresh next)) next;
          next = oput ''name'' (JStr (str_nullish (oget next ''name'') [])) next;
          next = oput ''endpoint'' (JObj (normalize_endpoint_record (oget next ''endpoint''))) next;
          next = oput ''message_capture'' (capture_doc (normalize_message_capture (oget next ''message_capture''))) next;
          next = oput ''output'' (normalize_output (oget next ''output'')) next
      in oput ''response'' (response_or_null (oget next ''response'')) next)"

section \<open>Keys\<close>

definition get_runtime_key :: "(string \<Rightarrow> string) \<Rightarrow> obj \<Rightarrow> string" where
  "get_runtime_key sm consumer =
     (if truthy (oget consumer ''id'') then to_str (oget consumer ''id'')
      else let name = sanitize_consumer_name sm (str_or (oget consumer ''name'') [])
           in if name \<noteq> [] then name else ''consumer'')"

definition get_storage_key :: "obj \<Rightarrow> string" where
  "get_storage_key consumer = to_str (js_or (js_or (oget consumer ''id'') (oget consumer ''name'')) (JStr []))"

definition legacy_name_key :: "obj \<Rightarrow> string" where
  "legacy_name_key consumer = str_or (oget consumer ''name'') []"

definition get_consumer_lookup_keys :: "(string \<Rightarrow> string) \<Rightarrow> obj \<Rightarrow> string list" where
  "get_consumer_lookup_keys sm consumer =
     js_dedup (filter (\<lambda>k. k \<noteq> [])
       (map js_trim [get_runtime_key sm consumer, get_storage_key consumer, legacy_name_key consumer]))"

section \<open>Messages\<close>

definition parse_structured_value :: "jval \<Rightarrow> jval" where
  "parse_structured_value raw =
     (case raw of
        JStr s \<Rightarrow>
          (let trimmed = js_trim s
           in if trimmed = [] \<or> \<not> (starts_with ''{'' trimmed \<or> starts_with ''['' trimmed \<or> starts_with [CHR 0x22] trimmed)
              then raw
              else case parse_json trimmed of Some v \<Rightarrow> v | None \<Rightarrow> raw)
      | _ \<Rightarrow> raw)"

definition payload_to_display_string :: "jval \<Rightarrow> string" where
  "payload_to_display_string v =
     (case v of Undef \<Rightarrow> [] | Null \<Rightarrow> [] | JStr s \<Rightarrow> s | _ \<Rightarrow> pretty 0 v)"

definition normalize_string_map :: "jval \<Rightarrow> jval" where
  "normalize_string_map raw =
     (if \<not> is_record raw \<or> obj_entries raw = [] then Undef
      else JObj (from_entries (map (\<lambda>(k, v). (k, JStr (str_nullish v []))) (obj_entries raw))))"

definition detail_metadata_order :: "string list" where
  "detail_metadata_order =
     [''content-length'', ''host'', ''http_method'', ''http_path'', ''http_query'', ''http_version'', ''content-type'']"

definition detail_order :: "(string \<Rightarrow> string \<Rightarrow> int) \<Rightarrow> string \<times> string \<Rightarrow> string \<times> string \<Rightarrow> int" where
  "detail_order lc a b =
     (case (index_of (fst a) detail_metadata_order, index_of (fst b) detail_metadata_order) of
        (None, None) \<Rightarrow> lc (fst a) (fst b)
      | (None, Some _) \<Rightarrow> 1
      | (Some _, None) \<Rightarrow> -1
      | (Some i, Some j) \<Rightarrow> int i - int j)"

definition sort_detail_metadata_entries ::
    "(string \<Rightarrow> string \<Rightarrow> int) \<Rightarrow> (string \<times> string) list \<Rightarrow> (string \<times> string) list" where
  "sort_detail_metadata_entries lc entries = js_sort (detail_order lc) entries"

definition normalize_consumer_message :: "string \<Rightarrow> jval \<Rightarrow> jval" where
  "normalize_consumer_message now raw =
     (case raw of
        JObj es \<Rightarrow>
          (if list_ex (ohas es) [''payload'', ''id'', ''time'', ''response''] then
             JObj [(''id'', if oget es ''id'' = Undef \<or> oget es ''id'' = Null then Undef else JStr (to_str (oget es ''id''))),
                   (''payload'', if ohas es ''payload'' then parse_structured_value (oget es ''payload'') else raw),
                   (''metadata'', normalize_string_map (oget es ''metadata'')),
                   (''time'', if is_string (oget es ''time'') then oget es ''time'' else JStr now),
                   (''response'', parse_structured_value (oget es ''response'')),
                   (''response_metadata'', normalize_string_map (oget es ''response_metadata''))]
           else JObj [(''payload'', raw), (''time'', JStr now)])
      | _ \<Rightarrow> JObj [(''payload'', raw), (''time'', JStr now)])"

section \<open>The table of captured messages\<close>

definition consumer_messages_for :: "obj \<Rightarrow> obj \<Rightarrow> jval list" where
  "consumer_messages_for messages consumer =
     (case oget messages (get_storage_key consumer) of
        JArr rows \<Rightarrow> rows
      | _ \<Rightarrow> array_or_empty (oget messages (legacy_name_key consumer)))"

definition slice_to :: "int \<Rightarrow> 'a list \<Rightarrow> 'a list" where
  "slice_to n xs = (if 0 \<le> n then take (nat n) xs else take (nat (int (length xs) + n)) xs)"

definition drop_legacy_key :: "obj \<Rightarrow> obj \<Rightarrow> obj" where
  "drop_legacy_key consumer messages =
     (let k = legacy_name_key consumer
      in if k \<noteq> [] \<and> k \<noteq> get_storage_key consumer then odel k messages else messages)"

section \<open>Status\<close>

definition empty_status :: jval where
  "empty_status = JObj [(''running'', JBool False), (''status'', JObj [(''healthy'', JBool False)])]"

definition get_consumer_status :: "(string \<Rightarrow> string) \<Rightarrow> obj \<Rightarrow> obj \<Rightarrow> jval" where
  "get_consumer_status sm runtime consumer = js_or (oget runtime (get_runtime_key sm consumer)) empty_status"

definition status_number :: "jval \<Rightarrow> string \<Rightarrow> int" where
  "status_number status k = (case jget status k of JNum n \<Rightarrow> n | _ \<Rightarrow> 0)"

definition consumer_throughput_label :: "jval \<Rightarrow> string" where
  "consumer_throughput_label status =
     (let n = status_number status ''throughput''
      in if \<not> truthy (jget status ''running'') \<or> n \<le> 0 then [] else int_str n @ ''.0 msg/s'')"

definition unhealthy :: "jval \<Rightarrow> bool" where
  "unhealthy status \<longleftrightarrow> jget (jget status ''status'') ''healthy'' = JBool False"

definition get_status_class :: "(string \<Rightarrow> string) \<Rightarrow> (string \<times> string) list \<Rightarrow> obj \<Rightarrow> obj \<Rightarrow> string" where
  "get_status_class sm errors runtime consumer =
     (let status = get_consumer_status sm runtime consumer;
          err = map_of errors (get_runtime_key sm consumer)
      in if err \<noteq> None \<and> err \<noteq> Some [] then ''status-error''
         else if jget status ''outcome'' = JStr ''failed'' then ''status-error''
         else if \<not> truthy (jget status ''running'') then ''status-off''
         else if unhealthy status then ''status-error''
         else ''status-ok'')"

definition status_error :: "jval \<Rightarrow> string \<Rightarrow> string" where
  "status_error status fallback = str_or (jget (jget status ''status'') ''error'') fallback"

definition finished_status_text :: "jval \<Rightarrow> string" where
  "finished_status_text status =
     (if jget status ''outcome'' = JStr ''completed'' then ''Completed''
      else if jget status ''outcome'' = JStr ''failed'' then status_error status ''Consumer Failed''
      else if jget status ''outcome'' = JStr ''stopped'' then ''Consumer Stopped''
      else [])"

definition live_status_text :: "string \<Rightarrow> jval \<Rightarrow> string" where
  "live_status_text runtime_error status =
     (if runtime_error \<noteq> [] then runtime_error
      else if finished_status_text status \<noteq> [] then finished_status_text status
      else if \<not> truthy (jget status ''running'') then ''Consumer Stopped''
      else if unhealthy status then status_error status ''Consumer Error''
      else ''Connected'')"

definition live_status_variant :: "string \<Rightarrow> jval \<Rightarrow> string" where
  "live_status_variant runtime_error status =
     (if runtime_error \<noteq> [] \<or> jget status ''outcome'' = JStr ''failed'' then ''danger''
      else if \<not> truthy (jget status ''running'') then ''neutral''
      else if unhealthy status then ''danger''
      else ''success'')"

section \<open>Time labels\<close>

text \<open>
  \<open>millis\<close> is \<open>new Date(value).getTime()\<close>, \<open>None\<close> for an invalid date; \<open>local_time\<close> is the
  locale's rendering of a time.
\<close>

definition js_round :: "int \<Rightarrow> int \<Rightarrow> int" where
  "js_round a b = (2 * a + b) div (2 * b)"

definition format_local_time_from_iso :: "(string \<Rightarrow> int option) \<Rightarrow> (int \<Rightarrow> string) \<Rightarrow> string \<Rightarrow> string" where
  "format_local_time_from_iso millis local_time value =
     (case millis value of None \<Rightarrow> value | Some t \<Rightarrow> local_time t)"

definition format_time_ago_label :: "(string \<Rightarrow> int option) \<Rightarrow> int \<Rightarrow> string \<Rightarrow> string" where
  "format_time_ago_label millis now value =
     (case millis value of
        None \<Rightarrow> ''Select a message to view details''
      | Some t \<Rightarrow>
          (let seconds = max 0 (js_round (now - t) 1000); minutes = js_round seconds 60; hours = js_round minutes 60
           in if seconds < 60 then int_str seconds @ ''s ago''
              else if minutes < 60 then int_str minutes @ ''m ago''
              else int_str hours @ ''h ago''))"

end
