(* ===== verification/ConsumerActions.thy ===== *)
theory ConsumerActions
  imports ConsumersView
begin

text \<open>
  The actions of the consumers panel (second part of \<open>consumers-view.ts\<close>). The answer of a dialog and
  the draft that a focused form field reports when it loses the focus are arguments of the action
  that waits for them. An action runs without interruption, except that the capture of messages is
  split into the request and the arrival of its answer. The form library's drawing of the form
  is left out; what it is given is kept in \<open>cw_form\<close>.
\<close>

section \<open>Remembering and selecting\<close>

definition mark_remembered_selection :: "int \<Rightarrow> string \<Rightarrow> ('n, 's) cons_world \<Rightarrow> ('n, 's) cons_world" where
  "mark_remembered_selection idx tab w =
     w\<lparr>cw_nav := (cw_nav w)\<lparr>last_consumer_idx := Some idx, last_consumer_tab := tab\<rparr>\<rparr>"

definition create_consumer_form_schema :: "('n, 's) cons_env \<Rightarrow> obj \<Rightarrow> jval" where
  "create_consumer_form_schema env consumer =
     hide_unused_deprecated_properties
       (name_mapping_rule_branches (force_ref_only_endpoints (apply_endpoint_schema_defaults
         (JObj (resolve_root_array_item_schema (ce_schema env) ''consumers''))))) (JObj consumer)"

definition render_consumer_form :: "('n, 's) cons_env \<Rightarrow> ('n, 's) cons_world \<Rightarrow> ('n, 's) cons_world" where
  "render_consumer_form env w =
     (case current_consumer w of
        None \<Rightarrow> w
      | Some c \<Rightarrow>
          (let signature = stringify (JObj c)
           in if \<not> ce_form_container env \<or> (cw_form w \<noteq> None \<and> cw_signature w = Some signature) then w
              else w\<lparr>cw_signature := Some signature,
                     cw_form := Some (create_consumer_form_schema env c, clone_json (JObj c))\<rparr>))"

text \<open>\<open>tab\<close> is empty when the caller names none.\<close>

definition restore_consumer_view :: "('n, 's) cons_env \<Rightarrow> int \<Rightarrow> string \<Rightarrow> ('n, 's) cons_world \<Rightarrow> ('n, 's) cons_world" where
  "restore_consumer_view env idx tab w =
     (let w1 = on_panel (\<lambda>p. p\<lparr>pn_message := -1\<rparr>)
            (w\<lparr>cw_nav := restore_consumer_state idx tab ((cw_nav w)\<lparr>n_consumers := length (consumers_of w)\<rparr>)\<rparr>)
      in render_selected_consumer env (render_consumer_form env (render_selected_consumer env w1)))"

definition select_consumer_subtab :: "('n, 's) cons_env \<Rightarrow> string \<Rightarrow> ('n, 's) cons_world \<Rightarrow> ('n, 's) cons_world" where
  "select_consumer_subtab env tab w =
     (let w1 = w\<lparr>cw_nav := (cw_nav w)\<lparr>cons_subtab := tab\<rparr>\<rparr>
      in render_selected_consumer env (mark_remembered_selection (selected_index w1) tab w1))"

section \<open>The form\<close>

definition draft_of :: "('n, 's) cons_world \<Rightarrow> obj option" where
  "draft_of w = map_of (cw_drafts w) (selected_index w)"

text \<open>The parts of a consumer the form does not edit stay as they are.\<close>

definition keep_unedited :: "obj \<Rightarrow> obj \<Rightarrow> obj" where
  "keep_unedited current normalized =
     oput ''response'' (oget current ''response'')
       (oput ''message_capture'' (oget current ''message_capture'')
         (oput ''output'' (oget current ''output'') normalized))"

definition id_used :: "obj \<Rightarrow> ('n, 's) cons_world \<Rightarrow> ('n, 's) cons_world" where
  "id_used input w = (if needs_id input then w\<lparr>cw_ids := Suc (cw_ids w)\<rparr> else w)"

definition normalized_here :: "('n, 's) cons_env \<Rightarrow> obj \<Rightarrow> ('n, 's) cons_world \<Rightarrow> obj" where
  "normalized_here env input w = normalize_consumer_config (ce_fresh env ''consumer'' (cw_ids w)) input"

definition form_changed :: "('n, 's) cons_env \<Rightarrow> obj \<Rightarrow> ('n, 's) cons_world \<Rightarrow> ('n, 's) cons_world" where
  "form_changed env updated w =
     (let w1 = w\<lparr>cw_drafts := AList.update (selected_index w) updated (cw_drafts w)\<rparr>
      in case current_consumer w1 of
           None \<Rightarrow> w1
         | Some current \<Rightarrow>
             (let input = ospread current updated;
                  next_consumer = ospread current (keep_unedited current (normalized_here env input w1));
                  w2 = put_current next_consumer (id_used input w1)
              in render_selected_consumer env (w2\<lparr>cw_signature := Some (stringify (JObj next_consumer))\<rparr>)))"

definition flush_pending_form_draft ::
    "('n, 's) cons_env \<Rightarrow> obj option \<Rightarrow> ('n, 's) cons_world \<Rightarrow> ('n, 's) cons_world" where
  "flush_pending_form_draft env pending w = (case pending of Some updated \<Rightarrow> form_changed env updated w | None \<Rightarrow> w)"

section \<open>Editing\<close>

definition push_consumer :: "obj \<Rightarrow> ('n, 's) cons_world \<Rightarrow> ('n, 's) cons_world" where
  "push_consumer c w = put_rows ''consumers'' (consumers_of w @ [c]) w"

definition new_consumer :: "string \<Rightarrow> string \<Rightarrow> jval \<Rightarrow> obj" where
  "new_consumer ident name endpoint =
     [(''id'', JStr ident), (''name'', JStr name), (''endpoint'', endpoint), (''response'', Null),
      (''output'', no_output),
      (''message_capture'', capture_doc \<lparr>cp_enabled = JBool True, cp_keep_last = default_keep_last\<rparr>)]"

definition fresh_consumer_id :: "('n, 's) cons_env \<Rightarrow> ('n, 's) cons_world \<Rightarrow> string" where
  "fresh_consumer_id env w = ce_fresh env ''consumer'' (cw_ids w)"

definition take_id :: "('n, 's) cons_world \<Rightarrow> ('n, 's) cons_world" where
  "take_id w = w\<lparr>cw_ids := Suc (cw_ids w)\<rparr>"

definition add_consumer_action :: "('n, 's) cons_env \<Rightarrow> string \<Rightarrow> ('n, 's) cons_world \<Rightarrow> ('n, 's) cons_world" where
  "add_consumer_action env t w =
     (let input = new_consumer (fresh_consumer_id env w) [] (JObj (create_default_consumer_endpoint t));
          w1 = take_id w;
          w2 = push_consumer (normalized_here env input w1) (id_used input w1)
      in restore_consumer_view env (int (length (consumers_of w2)) - 1) ''definition'' w2)"

definition set_member_of_current :: "string \<Rightarrow> jval \<Rightarrow> ('n, 's) cons_world \<Rightarrow> ('n, 's) cons_world" where
  "set_member_of_current k v w =
     (case current_consumer w of Some c \<Rightarrow> put_current (oput k v c) w | None \<Rightarrow> w)"

definition notice :: "string \<Rightarrow> ('n, 's) cons_world \<Rightarrow> ('n, 's) cons_world" where
  "notice s w = w\<lparr>cw_notices := cw_notices w @ [s]\<rparr>"

datatype output_mode = Output_none | Output_publisher | Output_response

definition set_consumer_output_mode ::
    "('n, 's) cons_env \<Rightarrow> output_mode \<Rightarrow> ('n, 's) cons_world \<Rightarrow> ('n, 's) cons_world" where
  "set_consumer_output_mode env mode w =
     (case current_consumer w of
        None \<Rightarrow> w
      | Some c \<Rightarrow>
          (case mode of
             Output_publisher \<Rightarrow>
               (let (options, w1) = next_publisher_options env w
                in if options = [] then
                     render_selected_consumer env
                       (set_member_of_current ''output'' no_output (notice ''Create or select a publisher first.'' w1))
                   else
                     (let chosen = (if length options = 1 then fst (hd options)
                          else get_selected_publisher_value (publishers_of w1) (oget c ''output''))
                      in on_panel (\<lambda>p. p\<lparr>pn_output_mode := ''publisher'', pn_options := options, pn_publisher := chosen\<rparr>)
                           (set_member_of_current ''output'' (create_consumer_publisher_output (publishers_of w1) chosen) w1)))
           | Output_response \<Rightarrow>
               on_panel (\<lambda>p. p\<lparr>pn_output_mode := ''response''\<rparr>) (apply_response_state_to_current w)
           | Output_none \<Rightarrow>
               on_panel (\<lambda>p. p\<lparr>pn_output_mode := ''none'', pn_publisher := []\<rparr>)
                 (set_member_of_current ''output'' no_output w)))"

definition set_consumer_output_publisher :: "string \<Rightarrow> ('n, 's) cons_world \<Rightarrow> ('n, 's) cons_world" where
  "set_consumer_output_publisher publisher w =
     (case current_consumer w of
        None \<Rightarrow> w
      | Some c \<Rightarrow> on_panel (\<lambda>p. p\<lparr>pn_publisher := publisher\<rparr>)
          (set_member_of_current ''output'' (create_consumer_publisher_output (publishers_of w) publisher) w))"

definition set_capture_enabled :: "bool \<Rightarrow> ('n, 's) cons_world \<Rightarrow> ('n, 's) cons_world" where
  "set_capture_enabled enabled w =
     (case current_consumer w of
        None \<Rightarrow> w
      | Some c \<Rightarrow> on_panel (\<lambda>p. p\<lparr>pn_capture_enabled := enabled\<rparr>)
          (set_member_of_current ''message_capture''
            (capture_doc ((normalize_message_capture (oget c ''message_capture''))\<lparr>cp_enabled := JBool enabled\<rparr>)) w))"

text \<open>\<open>void setStoredJson(...)\<close>: a failure to encrypt is an unhandled rejection and stores nothing.\<close>

definition persist_messages :: "('n, 's) cons_env \<Rightarrow> ('n, 's) cons_world \<Rightarrow> ('n, 's) cons_world" where
  "persist_messages env w =
     (let security = (if truthy (sw_security (cw_page w)) then normalize_storage_security_info (sw_security (cw_page w))
            else empty_storage_security)
      in w\<lparr>cw_cached_messages := clone_json (JObj (cw_messages w)),
           cw_store := snd (set_stored_json (ce_backend env) (ce_aead env) (ce_nonce env) (cw_store w)
             ''mqb_consumer_messages'' (JObj (cw_messages w)) security)\<rparr>)"

definition put_messages :: "obj \<Rightarrow> jval list \<Rightarrow> ('n, 's) cons_world \<Rightarrow> ('n, 's) cons_world" where
  "put_messages consumer rows w = w\<lparr>cw_messages := oput (get_storage_key consumer) (JArr rows) (cw_messages w)\<rparr>"

definition set_capture_keep_last ::
    "('n, 's) cons_env \<Rightarrow> int option \<Rightarrow> ('n, 's) cons_world \<Rightarrow> ('n, 's) cons_world" where
  "set_capture_keep_last env keep_last w =
     (case current_consumer w of
        None \<Rightarrow> w
      | Some c \<Rightarrow>
          (let next_keep_last = max 1 (case keep_last of Some n \<Rightarrow> n | None \<Rightarrow> 1);
               c' = oput ''message_capture'' (capture_doc
                 ((normalize_message_capture (oget c ''message_capture''))\<lparr>cp_keep_last := next_keep_last\<rparr>)) c;
               w1 = put_messages c' (slice_to next_keep_last (consumer_messages_for (cw_messages w) c')) (put_current c' w);
               w2 = persist_messages env (w1\<lparr>cw_messages := drop_legacy_key c' (cw_messages w1)\<rparr>)
           in on_panel (\<lambda>p. p\<lparr>pn_keep_last := next_keep_last\<rparr>) w2))"

definition edit_headers :: "(header_row list \<Rightarrow> header_row list) \<Rightarrow> ('n, 's) cons_world \<Rightarrow> ('n, 's) cons_world" where
  "edit_headers f w = apply_response_state_to_current (on_panel (\<lambda>p. p\<lparr>pn_headers := f (pn_headers p)\<rparr>) w)"

definition update_nth :: "nat \<Rightarrow> ('a \<Rightarrow> 'a) \<Rightarrow> 'a list \<Rightarrow> 'a list" where
  "update_nth i f xs = (if i < length xs then xs[i := f (xs ! i)] else xs)"

definition remove_nth :: "nat \<Rightarrow> 'a list \<Rightarrow> 'a list" where
  "remove_nth i xs = take i xs @ drop (Suc i) xs"

definition add_consumer_response_header :: "('n, 's) cons_world \<Rightarrow> ('n, 's) cons_world" where
  "add_consumer_response_header w =
     edit_headers (\<lambda>rows. rows @ [\<lparr>hr_id = cw_next_row w, hr_key = [], hr_value = [], hr_enabled = True\<rparr>])
       (w\<lparr>cw_next_row := cw_next_row w + 1\<rparr>)"

datatype row_field = Row_key | Row_value

definition set_row_field :: "row_field \<Rightarrow> string \<Rightarrow> header_row \<Rightarrow> header_row" where
  "set_row_field f s r = (case f of Row_key \<Rightarrow> r\<lparr>hr_key := s\<rparr> | Row_value \<Rightarrow> r\<lparr>hr_value := s\<rparr>)"

definition update_consumer_response_header ::
    "nat \<Rightarrow> row_field \<Rightarrow> string \<Rightarrow> ('n, 's) cons_world \<Rightarrow> ('n, 's) cons_world" where
  "update_consumer_response_header i f s w = edit_headers (update_nth i (set_row_field f s)) w"

definition toggle_consumer_response_header :: "nat \<Rightarrow> bool \<Rightarrow> ('n, 's) cons_world \<Rightarrow> ('n, 's) cons_world" where
  "toggle_consumer_response_header i enabled w = edit_headers (update_nth i (\<lambda>r. r\<lparr>hr_enabled := enabled\<rparr>)) w"

definition remove_consumer_response_header :: "nat \<Rightarrow> ('n, 's) cons_world \<Rightarrow> ('n, 's) cons_world" where
  "remove_consumer_response_header i w = edit_headers (remove_nth i) w"

definition update_consumer_response_payload :: "string \<Rightarrow> ('n, 's) cons_world \<Rightarrow> ('n, 's) cons_world" where
  "update_consumer_response_payload s w = apply_response_state_to_current (on_panel (\<lambda>p. p\<lparr>pn_payload := s\<rparr>) w)"

definition show_consumer_message_details :: "('n, 's) cons_env \<Rightarrow> int \<Rightarrow> ('n, 's) cons_world \<Rightarrow> ('n, 's) cons_world" where
  "show_consumer_message_details env i w = render_selected_consumer env (on_panel (\<lambda>p. p\<lparr>pn_message := i\<rparr>) w)"

definition clear_active_consumer_history :: "('n, 's) cons_env \<Rightarrow> ('n, 's) cons_world \<Rightarrow> ('n, 's) cons_world" where
  "clear_active_consumer_history env w =
     (case current_consumer w of
        None \<Rightarrow> w
      | Some c \<Rightarrow> render_selected_consumer env
          (persist_messages env (on_panel (\<lambda>p. p\<lparr>pn_message := -1\<rparr>) (put_messages c [] w))))"

end
