(* ===== verification/ConsumerRuntime.thy ===== *)
theory ConsumerRuntime
  imports ConsumerActions
begin

text \<open>
  The actions of the consumers panel that reach beyond it (last part of \<open>consumers-view.ts\<close>): copying
  to a publisher, cloning, exporting, deleting, saving, starting and stopping, the capture of
  messages, imports, and the start of the panel.
\<close>

section \<open>Copies\<close>

definition copy_current_consumer :: "('n, 's) cons_env \<Rightarrow> string option \<Rightarrow> ('n, 's) cons_world \<Rightarrow> ('n, 's) cons_world" where
  "copy_current_consumer env answer w =
     (case (current_consumer w, answer) of
        (Some c, Some publisher_name) \<Rightarrow>
          (if publisher_name = [] then w
           else let publisher = [(''id'', JStr (ce_fresh env ''publisher'' (cw_ids w))), (''name'', JStr publisher_name),
                      (''endpoint'', JObj (publisher_endpoint_from_consumer (ua_parse (ce_urls env)) (endpoint_of c))),
                      (''headers'', JArr [])];
                    w1 = put_rows ''publishers'' (publishers_of w @ [publisher]) (take_id w);
                    n = length (publishers_of w1)
                in w1\<lparr>cw_nav := switch_main Publishers
                     ((cw_nav w1)\<lparr>n_publishers := n, pending_publisher_restore := Some (int n - 1, ''definition'')\<rparr>)\<rparr>)
      | _ \<Rightarrow> w)"

definition clone_name :: "('n, 's) cons_env \<Rightarrow> obj \<Rightarrow> string list \<Rightarrow> string" where
  "clone_name env consumer names =
     next_unique_name (sanitize_consumer_name (ce_strip env) (str_or (oget consumer ''name'') ''consumer'') @ ''_copy'') names"

definition names_in :: "('n, 's) cons_world \<Rightarrow> string list" where
  "names_in w = map (\<lambda>c. str_or (oget c ''name'') []) (consumers_of w)"

definition clone_current_consumer :: "('n, 's) cons_env \<Rightarrow> ('n, 's) cons_world \<Rightarrow> ('n, 's) cons_world" where
  "clone_current_consumer env w =
     (case current_consumer w of
        None \<Rightarrow> w
      | Some c \<Rightarrow>
          (let name = clone_name env c (names_in w);
               cloned = normalized_here env c w;
               w1 = id_used c w;
               cloned = oput ''name'' (JStr name) (oput ''id'' (JStr (fresh_consumer_id env w1)) cloned);
               w2 = push_consumer cloned (take_id w1)
           in restore_consumer_view env (int (length (consumers_of w2)) - 1) (cons_subtab (cw_nav w2)) w2))"

section \<open>Exports\<close>

definition scalar_endpoint :: "obj \<Rightarrow> obj" where
  "scalar_endpoint consumer =
     (let endpoint = endpoint_of consumer; t = get_endpoint_type endpoint
      in if t = ''static'' \<or> t = ''ref''
         then oput ''endpoint'' (JObj (oput t (normalize_scalar_endpoint_value t (oget endpoint t)) endpoint)) consumer
         else consumer)"

record config_variant =
  cv_id :: string
  cv_label :: string
  cv_value :: string

definition export_consumer :: "('n, 's) cons_env \<Rightarrow> obj \<Rightarrow> ('n, 's) cons_world \<Rightarrow> obj" where
  "export_consumer env consumer w =
     scalar_endpoint (oput ''output'' (oget consumer ''output'')
       (case draft_of w of
          Some draft \<Rightarrow> normalized_here env (ospread consumer (record_or_empty (clone_json (JObj draft)))) w
        | None \<Rightarrow> record_or_empty (clone_json (JObj consumer))))"

definition current_consumer_config_variants ::
    "('n, 's) cons_env \<Rightarrow> obj option \<Rightarrow> ('n, 's) cons_world \<Rightarrow> config_variant list option \<times> ('n, 's) cons_world" where
  "current_consumer_config_variants env pending w =
     (case current_consumer w of
        None \<Rightarrow> (None, w)
      | Some _ \<Rightarrow>
          (let w1 = flush_pending_form_draft env pending w
           in case current_consumer w1 of
                None \<Rightarrow> (None, w1)
              | Some consumer \<Rightarrow>
                  (let exported = export_consumer env consumer w1
                   in (Some [\<lparr>cv_id = ''publisher'', cv_label = ''Publisher.from_config'',
                             cv_value = pretty 0 (build_consumer_publisher_document exported)\<rparr>,
                             \<lparr>cv_id = ''route'', cv_label = ''Route.from_config'',
                              cv_value = pretty 0 (build_consumer_config_document exported (map JObj (publishers_of w1)))\<rparr>],
                       (case draft_of w1 of
                          Some draft \<Rightarrow> id_used (ospread consumer (record_or_empty (clone_json (JObj draft)))) w1
                        | None \<Rightarrow> w1)))))"

section \<open>Deleting\<close>

definition delete_current_consumer :: "('n, 's) cons_env \<Rightarrow> bool \<Rightarrow> ('n, 's) cons_world \<Rightarrow> ('n, 's) cons_world" where
  "delete_current_consumer env confirmed w =
     (case current_consumer w of
        None \<Rightarrow> w
      | Some c \<Rightarrow>
          (if \<not> confirmed then w
           else let i = selected_index w;
                    w1 = put_rows ''consumers'' (remove_nth (nat i) (consumers_of w)) w;
                    w2 = persist_messages env (w1\<lparr>cw_messages := odel (get_storage_key c) (cw_messages w1)\<rparr>)
                in if consumers_of w2 = [] then
                     (let w3 = select_at (-1) (on_panel (\<lambda>p. p\<lparr>pn_has := False, pn_items := [], pn_grouped := [],
                          pn_key := None, pn_message := -1, pn_log := []\<rparr>) w2)
                      in w3\<lparr>cw_nav := (cw_nav w3)\<lparr>hash := ''#consumers:0''\<rparr>\<rparr>)
                   else restore_consumer_view env (min i (int (length (consumers_of w2)) - 1)) (cons_subtab (cw_nav w2)) w2))"

section \<open>Saving\<close>

definition save_consumers_section :: "('n, 's) cons_env \<Rightarrow> ('n, 's) cons_world \<Rightarrow> jval \<times> ('n, 's) cons_world" where
  "save_consumers_section env w =
     (let (saved, page) = save_section (ce_save env) ''consumers'' (oget (live_config w) ''consumers'') False False (cw_page w);
          w1 = w\<lparr>cw_page := page\<rparr>
      in case jget saved ''consumers'' of
           JArr rows \<Rightarrow>
             (let w2 = normalize_live env (map record_or_empty rows) w1
              in (saved, w2\<lparr>cw_window_saved := Some (oput ''consumers'' (clone_json (JArr (map JObj (consumers_of w2))))
                    (ospread [] (case cw_window_saved w2 of Some s \<Rightarrow> s | None \<Rightarrow> [])))\<rparr>))
         | _ \<Rightarrow> (saved, w1))"

definition merge_draft :: "('n, 's) cons_env \<Rightarrow> ('n, 's) cons_world \<Rightarrow> ('n, 's) cons_world" where
  "merge_draft env w =
     (case (current_consumer w, draft_of w) of
        (Some c, Some draft) \<Rightarrow>
          (let input = ospread c (record_or_empty (clone_json (JObj draft)))
           in put_current (scalar_endpoint (keep_unedited c (normalized_here env input w))) (id_used input w))
      | _ \<Rightarrow> w)"

definition save_current_consumer ::
    "('n, 's) cons_env \<Rightarrow> obj option \<Rightarrow> ('n, 's) cons_world \<Rightarrow> jval \<times> ('n, 's) cons_world" where
  "save_current_consumer env pending w =
     (case current_consumer w of
        None \<Rightarrow> (Undef, w)
      | Some _ \<Rightarrow>
          (let (saved, w1) = save_consumers_section env (merge_draft env (flush_pending_form_draft env pending w))
           in (saved, if truthy saved then restore_consumer_view env (selected_index w1) (cons_subtab (cw_nav w1)) w1 else w1)))"

definition has_unsaved_consumers :: "('n, 's) cons_world \<Rightarrow> bool" where
  "has_unsaved_consumers w =
     (case cw_window_saved w of
        None \<Rightarrow> False
      | Some s \<Rightarrow> ohas s ''consumers''
          \<and> stringify (js_or (oget s ''consumers'') (JArr [])) \<noteq> stringify (oget (live_config w) ''consumers''))"

section \<open>Starting and stopping\<close>

text \<open>\<open>encodeURIComponent\<close>\<close>

definition uri_plain :: "char \<Rightarrow> bool" where
  "uri_plain c \<longleftrightarrow> (let n = (of_char c :: nat) in
     (48 \<le> n \<and> n \<le> 57) \<or> (65 \<le> n \<and> n \<le> 90) \<or> (97 \<le> n \<and> n \<le> 122) \<or> c \<in> set ''-_.!~*'' \<or> n = 39 \<or> n = 40 \<or> n = 41)"

definition percent_byte :: "8 word \<Rightarrow> string" where
  "percent_byte b = CHR ''%'' # map upper_char [hex_digit (unat b div 16), hex_digit (unat b mod 16)]"

definition encode_uri_component :: "string \<Rightarrow> string" where
  "encode_uri_component s =
     concat (map (\<lambda>c. if uri_plain c then [c] else concat (map percent_byte (utf8_char c))) s)"

definition on_page :: "('n save_world, 'a) promise \<Rightarrow> (('n, 's) cons_world, 'a) promise" where
  "on_page p w = (case p (cw_page w) of (r, page) \<Rightarrow> (r, w\<lparr>cw_page := page\<rparr>))"

definition ask :: "('n, 's) cons_env \<Rightarrow> request \<Rightarrow> (('n, 's) cons_world, response) promise" where
  "ask env rq = on_page (on_net (se_fetch (ce_save env) rq))"

definition toggle_request :: "bool \<Rightarrow> string \<Rightarrow> request" where
  "toggle_request running key =
     \<lparr>rq_path = ''/'' @ (if running then ''consumer-stop'' else ''consumer-start'') @ ''?consumer_id='' @ encode_uri_component key,
      rq_method = ''POST'', rq_body = None\<rparr>"

text \<open>\<open>onStatus\<close> of the poller, as far as this panel is concerned; the fetch of messages it sets off is a
  poll of its own.\<close>

definition status_published :: "('n, 's) cons_env \<Rightarrow> runtime_status \<Rightarrow> ('n, 's) cons_world \<Rightarrow> ('n, 's) cons_world" where
  "status_published env status w =
     render_selected_consumer env
       (w\<lparr>cw_runtime := map (\<lambda>(name, c). (name, consumer_json c)) (status_consumers status)\<rparr>)"

definition poll_runtime_status :: "('n, 's) cons_env \<Rightarrow> ('n, 's) cons_world \<Rightarrow> ('n, 's) cons_world" where
  "poll_runtime_status env w =
     (let (reply, w1) = ask env (get_request ''/runtime-status'') w
      in status_published env (case runtime_result reply of Some s \<Rightarrow> s | None \<Rightarrow> empty_runtime_status) w1)"

definition saved_runtime_key :: "jval \<Rightarrow> ('n, 's) cons_world \<Rightarrow> string \<Rightarrow> string" where
  "saved_runtime_key saved w key =
     (let raw = message_at (array_or_empty (jget saved ''consumers'')) (selected_index w);
          consumer = (case raw of Some c \<Rightarrow> c | None \<Rightarrow> Undef)
      in if truthy (jget consumer ''id'') then to_str (jget consumer ''id'') else str_or (jget consumer ''name'') key)"

text \<open>The save before a start. \<open>None\<close>: the consumer is gone and nothing is started.\<close>

definition save_before_start ::
    "('n, 's) cons_env \<Rightarrow> obj option \<Rightarrow> obj \<Rightarrow> ('n, 's) cons_world \<Rightarrow> string option \<times> ('n, 's) cons_world" where
  "save_before_start env pending consumer w =
     (let key = runtime_key env consumer
      in if has_unsaved_consumers w \<or> \<not> is_saved_consumer (cw_window_saved w) consumer then
           (let (saved, w1) = save_consumers_section env (flush_pending_form_draft env pending w)
            in if is_array (jget saved ''consumers'') then
                 (let key' = saved_runtime_key saved w1 key
                  in if current_consumer w1 = None then (None, w1) else (Some key', render_selected_consumer env w1))
               else (Some key, w1))
         else (Some key, w))"

definition toggle_answered ::
    "('n, 's) cons_env \<Rightarrow> bool \<Rightarrow> string \<Rightarrow> response \<Rightarrow> (('n, 's) cons_world, unit) promise" where
  "toggle_answered env running key r w =
     (if \<not> rs_ok r then
        (case rs_body r of
           None \<Rightarrow> (Inl Network_failure, w)
         | Some message \<Rightarrow>
             (Inr (), on_panel (\<lambda>p. p\<lparr>pn_status_text := message, pn_status_variant := ''danger'', pn_toggle_busy := False,
                    pn_toggle_label := (if running then ''Stop'' else ''Start'')\<rparr>)
                (notice message (w\<lparr>cw_errors := oput key message (cw_errors w)\<rparr>))))
      else (Inr (), render_selected_consumer env
             (poll_runtime_status env (w\<lparr>cw_errors := odel key (cw_errors w)\<rparr>))))"

text \<open>\<open>finally\<close>\<close>

definition finally_do :: "('w \<Rightarrow> 'w) \<Rightarrow> ('w, 'a) promise \<Rightarrow> ('w, 'a) promise" where
  "finally_do f p w = (case p w of (r, w') \<Rightarrow> (r, f w'))"

definition send_toggle ::
    "('n, 's) cons_env \<Rightarrow> bool \<Rightarrow> string option \<times> ('n, 's) cons_world \<Rightarrow> (js_error + unit) \<times> ('n, 's) cons_world" where
  "send_toggle env running prepared =
     (case prepared of
        (None, w) \<Rightarrow> (Inr (), w)
      | (Some key, w) \<Rightarrow> await (ask env (toggle_request running key)) (toggle_answered env running key) w)"

definition toggle_active_consumer :: "('n, 's) cons_env \<Rightarrow> obj option \<Rightarrow> (('n, 's) cons_world, unit) promise" where
  "toggle_active_consumer env pending w =
     (case current_consumer w of
        None \<Rightarrow> (Inr (), w)
      | Some consumer \<Rightarrow>
          (let running = truthy (jget (status_of env w consumer) ''running'');
               w1 = on_panel (\<lambda>p. p\<lparr>pn_toggle_busy := True,
                      pn_toggle_label := (if running then ''Stopping...'' else ''Starting...'')\<rparr>) w
           in finally_do (\<lambda>w. render_selected_consumer env (on_panel (\<lambda>p. p\<lparr>pn_toggle_busy := False\<rparr>) w))
                (\<lambda>w. send_toggle env running
                   (if running then (Some (runtime_key env consumer), w)
                    else save_before_start env pending consumer w)) w1))"

section \<open>Capturing messages\<close>

record poll_plan =
  pp_key :: string
  pp_sequence :: int
  pp_terminal :: "string option"
  pp_keep_last :: int

text \<open>
  Whether a consumer is to be asked for its messages, decided before the request. A finished consumer
  is asked once for every \<open>outcome:sequence\<close>, a running one when its sequence has advanced or
  nothing of it is held.
\<close>

definition terminal_key :: "jval \<Rightarrow> string option" where
  "terminal_key status =
     (if \<not> truthy (jget status ''running'') \<and> truthy (jget status ''outcome'')
      then Some (to_str (jget status ''outcome'') @ '':'' @ int_str (status_number status ''message_sequence'')) else None)"

definition plan_poll :: "('n, 's) cons_env \<Rightarrow> obj \<Rightarrow> ('n, 's) cons_world \<Rightarrow> poll_plan option" where
  "plan_poll env consumer w =
     (let key = runtime_key env consumer;
          status = oget (cw_runtime w) key;
          capture = normalize_message_capture (oget consumer ''message_capture'');
          seen = (case map_of (cw_last_sequence w) key of Some n \<Rightarrow> n | None \<Rightarrow> 0);
          sequence = status_number status ''message_sequence'';
          terminal = terminal_key status
      in if \<not> truthy (jget status ''running'') \<and> \<not> truthy (jget status ''outcome'') then None
         else if \<not> truthy (cp_enabled capture) then None
         else if terminal \<noteq> None \<and> map_of (cw_final_poll w) key = terminal then None
         else if terminal = None \<and> sequence \<le> seen \<and> consumer_messages_for (cw_messages w) consumer \<noteq> [] then None
         else Some \<lparr>pp_key = key, pp_sequence = sequence, pp_terminal = terminal, pp_keep_last = cp_keep_last capture\<rparr>)"

definition raw_rows :: "('n, 's) cons_env \<Rightarrow> obj \<Rightarrow> jval \<Rightarrow> jval list" where
  "raw_rows env consumer payload =
     (case List.find is_array (map (jget payload) (get_consumer_lookup_keys (ce_strip env) consumer)) of
        Some v \<Rightarrow> array_or_empty v | None \<Rightarrow> [])"

text \<open>The arrival of the answer; the messages held are those at that moment.\<close>

definition land_messages ::
    "('n, 's) cons_env \<Rightarrow> poll_plan \<Rightarrow> obj \<Rightarrow> jval \<Rightarrow> ('n, 's) cons_world \<Rightarrow> ('n, 's) cons_world" where
  "land_messages env plan consumer payload w =
     (let merged = map (normalize_consumer_message (ce_now_iso env)) (raw_rows env consumer payload)
            @ consumer_messages_for (cw_messages w) consumer;
          w1 = put_messages consumer (slice_to (pp_keep_last plan) merged) w
      in persist_messages env (w1\<lparr>
           cw_last_sequence := oput (pp_key plan) (pp_sequence plan) (cw_last_sequence w1),
           cw_final_poll := (case pp_terminal plan of Some k \<Rightarrow> oput (pp_key plan) k (cw_final_poll w1) | None \<Rightarrow> cw_final_poll w1)\<rparr>))"

definition messages_request :: "string \<Rightarrow> request" where
  "messages_request key = get_request (''/messages?consumer_id='' @ encode_uri_component key)"

definition poll_consumer :: "('n, 's) cons_env \<Rightarrow> obj \<Rightarrow> (('n, 's) cons_world, unit) promise" where
  "poll_consumer env consumer w =
     (case plan_poll env consumer w of
        None \<Rightarrow> (Inr (), w)
      | Some plan \<Rightarrow>
          await (ask env (messages_request (pp_key plan)))
            (\<lambda>r. if \<not> rs_ok r then resolved (Inr ())
              else await (resolved (response_json r))
                (\<lambda>payload. doing (land_messages env plan consumer payload))) w)"

definition fetch_new_messages :: "('n, 's) cons_env \<Rightarrow> (('n, 's) cons_world, unit) promise" where
  "fetch_new_messages env w = each (poll_consumer env) (consumers_of w) w"

text \<open>One turn of \<open>scheduleMessagePolling\<close>; a failure is logged and the timer set again.\<close>

definition message_poll_turn :: "('n, 's) cons_env \<Rightarrow> ('n, 's) cons_world \<Rightarrow> ('n, 's) cons_world" where
  "message_poll_turn env w = render_selected_consumer env (snd (fetch_new_messages env w))"

section \<open>Imports\<close>

text \<open>\<open>new URL\<close> of the request's address, or of the address put behind a local host.\<close>

definition imported_path :: "('n, 's) cons_env \<Rightarrow> jval \<Rightarrow> js_error + string" where
  "imported_path env request =
     (case ua_parse (ce_urls env) (str_or (jget request ''url'') ''http://localhost/'') of
        Some u \<Rightarrow> Inr (if u_pathname u \<noteq> [] then u_pathname u else ''/'')
      | None \<Rightarrow>
          (case ua_parse (ce_urls env) (''http://localhost'' @ str_or (jget request ''url'') ''/'') of
             Some u \<Rightarrow> Inr (if u_pathname u \<noteq> [] then u_pathname u else ''/'')
           | None \<Rightarrow> Inl Type_failure))"

definition import_one_request ::
    "('n, 's) cons_env \<Rightarrow> jval \<Rightarrow> (('n, 's) cons_world, unit) promise" where
  "import_one_request env request w =
     (case imported_path env request of
        Inl e \<Rightarrow> (Inl e, w)
      | Inr path \<Rightarrow>
          (let base_name = to_lower (sanitize_consumer_name (ce_strip env) (str_or (jget request ''name'') ''imported_consumer''));
               name = next_unique_name base_name (names_in w);
               endpoint = JObj [(''middlewares'', JArr []),
                 (''http'', JObj [(''url'', JStr ''0.0.0.0:8080''), (''path'', JStr path)])];
               input = new_consumer (fresh_consumer_id env w) name endpoint;
               w1 = take_id w
           in (Inr (), push_consumer (normalized_here env input w1) (id_used input w1))))"

definition import_async_api_to_consumer :: "('n, 's) cons_env \<Rightarrow> string \<Rightarrow> (('n, 's) cons_world, unit) promise" where
  "import_async_api_to_consumer env source =
     await (resolved (extract_imported_requests source))
       (\<lambda>imported. await (each (import_one_request env) (ri_requests imported))
         (\<lambda>_. doing (render_selected_consumer env)))"

text \<open>A row that is no object cannot be given an identifier: the language throws.\<close>

definition import_one_consumer :: "('n, 's) cons_env \<Rightarrow> jval \<Rightarrow> (('n, 's) cons_world, unit) promise" where
  "import_one_consumer env raw w =
     (case raw of
        JObj row \<Rightarrow>
          (let next = normalized_here env row w;
               name = next_unique_name (str_or (oget next ''name'') ''consumer'') (names_in w)
           in (Inr (), push_consumer (oput ''name'' (JStr name) next) (id_used row w)))
      | _ \<Rightarrow> (Inl Type_failure, w))"

definition import_mqb_to_consumer :: "('n, 's) cons_env \<Rightarrow> string \<Rightarrow> (('n, 's) cons_world, unit) promise" where
  "import_mqb_to_consumer env source w =
     (case parse_json source of
        None \<Rightarrow> (Inl Syntax_failure, w)
      | Some parsed \<Rightarrow>
          await (each (import_one_consumer env) (array_or_empty (jget (jget parsed ''config'') ''consumers'')))
            (\<lambda>_. doing (render_selected_consumer env)) w)"

section \<open>The start of the panel\<close>

definition read_stored_messages :: "('n, 's) cons_env \<Rightarrow> ('n, 's) cons_world \<Rightarrow> ('n, 's) cons_world" where
  "read_stored_messages env w =
     (case cw_cached_messages w of
        JObj es \<Rightarrow> w\<lparr>cw_messages := es\<rparr>
      | _ \<Rightarrow>
          (let security = (if truthy (sw_security (cw_page w)) then normalize_storage_security_info (sw_security (cw_page w))
                 else empty_storage_security);
               (v, s) = get_stored_json (ce_backend env) (ce_aead env) (cw_store w) ''mqb_consumer_messages'' (JObj []) security None
           in w\<lparr>cw_messages := obj_entries v, cw_store := s\<rparr>))"

definition forget_session :: "('n, 's) cons_world \<Rightarrow> ('n, 's) cons_world" where
  "forget_session w =
     w\<lparr>cw_errors := [], cw_drafts := [], cw_signature := None, cw_next_row := 1,
       cw_last_sequence := [], cw_final_poll := []\<rparr>"

definition remember_as_saved :: "('n, 's) cons_world \<Rightarrow> (js_error + unit) \<times> ('n, 's) cons_world" where
  "remember_as_saved w =
     (if truthy (case cw_window_saved w of Some s \<Rightarrow> oget s ''consumers'' | None \<Rightarrow> Undef) then (Inr (), w)
      else on_page (mark_saved ''consumers'' (clone_json (JArr (map JObj (consumers_of w))))) w)"

definition init_selection :: "('n, 's) cons_env \<Rightarrow> ('n, 's) cons_world \<Rightarrow> ('n, 's) cons_world" where
  "init_selection env w =
     (let nav = cw_nav w;
          selected = (case index_in_hash Consumers (hash nav) of
              Some i \<Rightarrow> i
            | None \<Rightarrow> min (value_or 0 (last_consumer_idx nav)) (max (int (length (consumers_of w)) - 1) 0));
          w1 = on_panel (\<lambda>p. (show_items env w p)\<lparr>pn_message := -1, pn_log := []\<rparr>)
            (w\<lparr>cw_nav := nav\<lparr>cons_selected := selected, cons_subtab := ''messages''\<rparr>\<rparr>)
      in render_selected_consumer env (restore_consumer_view env selected
           (if last_consumer_tab nav \<noteq> [] then last_consumer_tab nav else ''messages'') w1))"

definition init_consumers :: "('n, 's) cons_env \<Rightarrow> (('n, 's) cons_world, unit) promise" where
  "init_consumers env w =
     (let w1 = forget_session (read_stored_messages env w);
          w2 = normalize_live env (consumers_of w1) w1;
          w3 = w2\<lparr>cw_page := (cw_page w2)\<lparr>sw_config := oput ''publishers'' (JArr (array_or_empty (oget (live_config w2) ''publishers''))) (live_config w2)\<rparr>\<rparr>
      in await remember_as_saved (\<lambda>_. doing (init_selection env)) w3)"

end
