(* ===== verification/PublisherRequest.thy ===== *)
theory PublisherRequest
  imports ConsumerRuntime
begin

text \<open>
  What a publisher's request bar stands for (the pure part of \<open>publishers-view.ts\<close>): the address shown
  for an HTTP endpoint and its way back into the endpoint, the request that is posted, its entry in the
  history and the state shown for an answer, and the command line the panel offers for copying.
  A publisher is the configuration object; \<open>d\<close> is the state of the kind registry's derived collections
  and \<open>parse\<close> the constructor of addresses.
\<close>

section \<open>The endpoint of a publisher\<close>

definition publisher_type :: "obj \<Rightarrow> string" where
  "publisher_type publisher = get_endpoint_type (endpoint_of publisher)"

definition endpoint_config :: "obj \<Rightarrow> jval" where
  "endpoint_config publisher = oget (endpoint_of publisher) (publisher_type publisher)"

definition bar_of :: "derived \<Rightarrow> string \<Rightarrow> bar_layout" where
  "bar_of d t =
     (case map_of (request_bar_layouts d) t of Some b \<Rightarrow> b | None \<Rightarrow> \<lparr>show_method = None, bar_fields = []\<rparr>)"

definition shows_method :: "bar_layout \<Rightarrow> bool" where
  "shows_method bar \<longleftrightarrow> show_method bar = Some True"

text \<open>
  Assignments to members of the endpoint's own object. A text cannot take them: the language throws.
  A list takes them, where no document shows them.
\<close>

definition assign_at :: "string \<Rightarrow> (string \<times> jval) list \<Rightarrow> obj \<Rightarrow> js_error + obj" where
  "assign_at t changes endpoint =
     (if changes = [] then Inr endpoint
      else case oget endpoint t of
        JObj es \<Rightarrow> Inr (oput t (JObj (fold (\<lambda>(k, v). oput k v) changes es)) endpoint)
      | JArr _ \<Rightarrow> Inr endpoint
      | _ \<Rightarrow> Inl Type_failure)"

definition assign_fields :: "(string \<times> jval) list \<Rightarrow> obj \<Rightarrow> js_error + obj" where
  "assign_fields changes publisher =
     (case assign_at (publisher_type publisher) changes (endpoint_of publisher) of
        Inl e \<Rightarrow> Inl e
      | Inr endpoint \<Rightarrow> Inr (oput ''endpoint'' (JObj endpoint) publisher))"

section \<open>Addresses\<close>

definition compose_http_request_url :: "jval \<Rightarrow> string" where
  "compose_http_request_url config =
     (let url = member_str config ''url''; raw_path = member_str config ''path''
      in if raw_path = [] \<or> raw_path = ''/'' then url
         else if ends_with raw_path url then url
         else drop_trailing (\<lambda>c. c = CHR ''/'') url
           @ (if starts_with ''/'' raw_path then raw_path else CHR ''/'' # raw_path))"

definition path_or_root :: "string \<Rightarrow> string" where
  "path_or_root p = (if p = [] then ''/'' else p)"

definition apply_http_url_to_endpoint :: "(string \<Rightarrow> url option) \<Rightarrow> string \<Rightarrow> (string \<times> jval) list" where
  "apply_http_url_to_endpoint parse v =
     (case parse v of
        Some u \<Rightarrow> [(''url'', JStr (u_protocol u @ ''//'' @ u_host u)),
                   (''path'', JStr (path_or_root (u_pathname u) @ u_search u))]
      | None \<Rightarrow> [(''url'', JStr v), (''path'', JStr ''/'')])"

fun text_position :: "string \<Rightarrow> string \<Rightarrow> nat option" where
  "text_position p [] = (if p = [] then Some 0 else None)"
| "text_position p (c # s) = (if starts_with p (c # s) then Some 0 else map_option Suc (text_position p s))"

definition parse_path_and_query :: "(string \<Rightarrow> url option) \<Rightarrow> string \<Rightarrow> string \<times> string" where
  "parse_path_and_query parse v =
     (case parse v of
        Some u \<Rightarrow> (path_or_root (u_pathname u), if 1 < length (u_search u) then drop 1 (u_search u) else [])
      | None \<Rightarrow>
          (let start = (case text_position ''//'' v of Some i \<Rightarrow> i + 2 | None \<Rightarrow> 1);
               path_with_query = dropWhile (\<lambda>c. c \<noteq> CHR ''/'') (drop start v);
               parts = split_on CHR ''?'' path_with_query
           in if path_with_query = [] then (''/'', [])
              else (path_or_root (hd parts), if length parts < 2 then [] else parts ! 1)))"

section \<open>The request bar\<close>

definition value_at :: "(string \<times> string) list \<Rightarrow> string \<Rightarrow> string" where
  "value_at vs k = (case map_of vs k of Some s \<Rightarrow> s | None \<Rightarrow> [])"

definition no_values :: "(string \<times> string) list" where
  "no_values = [(''pub-extra-1'', []), (''pub-extra-2'', []), (''pub-url'', [])]"

definition bar_value :: "string \<Rightarrow> jval \<Rightarrow> bar_field \<Rightarrow> string" where
  "bar_value t config f =
     (if t = ''http'' \<and> bf_field f = ''url'' then compose_http_request_url config else member_str config (bf_field f))"

definition current_request_bar_values :: "derived \<Rightarrow> obj \<Rightarrow> (string \<times> string) list" where
  "current_request_bar_values d publisher =
     fold (\<lambda>f. oput (bf_input f) (bar_value (publisher_type publisher) (endpoint_config publisher) f))
       (bar_fields (bar_of d (publisher_type publisher))) no_values"

definition field_named :: "string \<Rightarrow> bar_layout \<Rightarrow> bar_field option" where
  "field_named input_id bar = List.find (\<lambda>f. bf_input f = input_id) (bar_fields bar)"

definition bar_metadata :: "string \<Rightarrow> bar_field \<Rightarrow> (string \<times> string) list \<Rightarrow> (string \<times> string) list" where
  "bar_metadata v f m = oput (''request_bar.'' @ bf_input f) v (oput (''request_bar.'' @ bf_field f) v m)"

definition request_method :: "jval \<Rightarrow> string" where
  "request_method config = js_trim (str_or (jget config ''method'') ''POST'')"

definition build_publisher_request_rows ::
    "bar_layout \<Rightarrow> string \<Rightarrow> jval \<Rightarrow> (string \<times> string) list \<Rightarrow> (string \<times> string) list" where
  "build_publisher_request_rows bar t config vs =
     (let shown = (\<lambda>f. (if bf_label f \<noteq> [] then bf_label f else bf_field f, js_trim (value_at vs (bf_input f))));
          rows = (if shows_method bar \<and> request_method config \<noteq> [] then [(''Method'', request_method config)] else [])
            @ filter (\<lambda>r. snd r \<noteq> []) (map shown (bar_fields bar));
          url = js_trim (value_at vs ''pub-url'')
      in rows @ (if t = ''http'' \<and> list_all (\<lambda>r. fst r \<noteq> ''URL'') rows \<and> url \<noteq> [] then [(''URL'', url)] else []))"

section \<open>The request that is posted\<close>

record publish_details =
  pd_request :: jval
  pd_rows :: "(string \<times> string) list"
  pd_headers :: "(string \<times> string) list"
  pd_metadata :: "(string \<times> string) list"

definition sent_headers :: "header_row list \<Rightarrow> (string \<times> string) list" where
  "sent_headers rows =
     map (\<lambda>r. (js_trim (hr_key r), hr_value r)) (filter (\<lambda>r. hr_enabled r \<and> js_trim (hr_key r) \<noteq> []) rows)"

definition bar_entries :: "bar_layout \<Rightarrow> (string \<times> string) list \<Rightarrow> (string \<times> string) list" where
  "bar_entries bar vs =
     fold (\<lambda>f m. let v = js_trim (value_at vs (bf_input f)) in if v = [] then m else bar_metadata v f m)
       (bar_fields bar) []"

definition http_entries ::
    "(string \<Rightarrow> url option) \<Rightarrow> jval \<Rightarrow> (string \<times> string) list \<Rightarrow> (string \<times> string) list \<Rightarrow> (string \<times> string) list" where
  "http_entries parse config vs m =
     (let m1 = (if request_method config \<noteq> [] then oput ''http_method'' (request_method config) m else m);
          request_url = js_trim (value_at vs ''pub-url'');
          (path, query) = parse_path_and_query parse request_url
      in if request_url = [] then m1
         else let m2 = (if path \<noteq> [] then oput ''http_path'' path m1 else m1)
              in if query \<noteq> [] then oput ''http_query'' query m2 else m2)"

definition http_members :: "string list" where
  "http_members = [''http_method'', ''http_path'', ''http_query'']"

definition request_metadata :: "(string \<Rightarrow> url option) \<Rightarrow> derived \<Rightarrow> obj \<Rightarrow> (string \<times> string) list" where
  "request_metadata parse d publisher =
     (let t = publisher_type publisher; vs = current_request_bar_values d publisher; m = bar_entries (bar_of d t) vs
      in if t = ''http'' then http_entries parse (endpoint_config publisher) vs m else m)"

definition sent_metadata :: "header_row list \<Rightarrow> (string \<times> string) list \<Rightarrow> (string \<times> string) list" where
  "sent_metadata rows metadata =
     ospread (from_entries (sent_headers rows)) (filter (\<lambda>(k, _). k \<in> set http_members) metadata)"

definition text_members :: "(string \<times> string) list \<Rightarrow> jval" where
  "text_members es = JObj (map (\<lambda>(k, v). (k, JStr v)) es)"

definition publish_document :: "obj \<Rightarrow> (string \<times> string) list \<Rightarrow> jval" where
  "publish_document publisher metadata =
     JObj [(''name'', JStr (str_or (oget publisher ''name'') [])),
           (''publisher_id'', js_or (oget publisher ''id'') Null),
           (''payload'', JStr (str_or (oget publisher ''payload'') [])),
           (''metadata'', text_members metadata),
           (''endpoint'', clone_json (oget publisher ''endpoint''))]"

definition build_publish_request_details ::
    "(string \<Rightarrow> url option) \<Rightarrow> derived \<Rightarrow> header_row list \<Rightarrow> obj \<Rightarrow> publish_details" where
  "build_publish_request_details parse d rows publisher =
     (let t = publisher_type publisher; metadata = request_metadata parse d publisher
      in \<lparr>pd_request = publish_document publisher (sent_metadata rows metadata),
          pd_rows = build_publisher_request_rows (bar_of d t) t (endpoint_config publisher)
            (current_request_bar_values d publisher),
          pd_headers = sent_headers rows, pd_metadata = metadata\<rparr>)"

section \<open>Answers\<close>

text \<open>\<open>PublisherResponseState\<close>; whoever makes one sets every member.\<close>

record response_state =
  rt_visible :: bool
  rt_tab :: string
  rt_status :: string
  rt_status_text :: string
  rt_color :: string
  rt_duration :: string
  rt_size :: string
  rt_rows :: "(string \<times> string) list"
  rt_request_headers :: "(string \<times> string) list"
  rt_response_headers :: "(string \<times> string) list"
  rt_payload :: string

definition parse_json_if_possible :: "string \<Rightarrow> jval" where
  "parse_json_if_possible s = (case parse_json s of Some v \<Rightarrow> v | None \<Rightarrow> JStr s)"

definition extract_publisher_response_headers ::
    "(string \<Rightarrow> string \<Rightarrow> int) \<Rightarrow> jval \<Rightarrow> (string \<times> string) list" where
  "extract_publisher_response_headers lc response_data =
     (case response_data of
        JObj es \<Rightarrow>
          (case oget es ''metadata'' of
             JObj ms \<Rightarrow> js_sort (\<lambda>a b. lc (fst a) (fst b)) (map (\<lambda>(k, v). (k, str_nullish v [])) (own_entries ms))
           | _ \<Rightarrow> [])
      | _ \<Rightarrow> [])"

definition acknowledged_note :: string where
  "acknowledged_note = ''// ACKNOWLEDGED: The backend processed the message successfully.''"

definition extract_publisher_response_payload :: "jval \<Rightarrow> jval" where
  "extract_publisher_response_payload response_data =
     (case response_data of
        JObj es \<Rightarrow>
          (if str_or (oget es ''status'') [] = ''Ack'' then JStr acknowledged_note
           else if ohas es ''payload'' then coalesce (oget es ''payload'') (JStr [])
           else response_data)
      | _ \<Rightarrow> response_data)"

definition payload_text :: "jval \<Rightarrow> string" where
  "payload_text payload = (case payload of JStr s \<Rightarrow> s | _ \<Rightarrow> pretty 0 (coalesce payload (JStr [])))"

definition two_digits :: "int \<Rightarrow> string" where
  "two_digits n = (if n < 10 then CHR ''0'' # int_str n else int_str n)"

text \<open>\<open>(n / 1024).toFixed(2)\<close>: the quotient is exact in binary, and half a hundredth is rounded up.\<close>

definition size_label :: "int \<Rightarrow> string" where
  "size_label n =
     (let hundredths = js_round (100 * n) 1024
      in if 1024 < n then int_str (hundredths div 100) @ ''.'' @ two_digits (hundredths mod 100) @ '' KB''
         else int_str n @ '' B'')"

definition text_size :: "string \<Rightarrow> int" where
  "text_size s = int (length (utf8_encode s))"

definition status_color :: "bool \<Rightarrow> string" where
  "status_color ok = (if ok then ''var(--accent-http)'' else ''var(--accent-kafka)'')"

text \<open>\<open>mark\<close> is the mark the label carries, which is no character of the model.\<close>

definition answer_state ::
    "string \<Rightarrow> (string \<Rightarrow> string \<Rightarrow> int) \<Rightarrow> response \<Rightarrow> int \<Rightarrow> jval \<Rightarrow> publish_details \<Rightarrow> response_state" where
  "answer_state mark lc r duration response_data details =
     (let status_label = (if rs_ok r then (if rs_status r = 0 then ''OK'' else nat_str (rs_status r)) else ''Error'');
          payload = payload_text (extract_publisher_response_payload response_data)
      in \<lparr>rt_visible = True, rt_tab = ''Response '' @ mark @ '' '' @ status_label, rt_status = status_label,
          rt_status_text = rs_status_text r, rt_color = status_color (rs_ok r),
          rt_duration = int_str duration @ ''ms'', rt_size = size_label (text_size payload),
          rt_rows = pd_rows details, rt_request_headers = pd_headers details,
          rt_response_headers = extract_publisher_response_headers lc response_data, rt_payload = payload\<rparr>)"

definition pending_state :: response_state where
  "pending_state =
     \<lparr>rt_visible = True, rt_tab = ''Response'', rt_status = ''Sending'', rt_status_text = [],
      rt_color = ''var(--text-primary)'', rt_duration = [], rt_size = [], rt_rows = [], rt_request_headers = [],
      rt_response_headers = [], rt_payload = ''Sending...''\<rparr>"

definition failed_state :: "string \<Rightarrow> publish_details \<Rightarrow> string \<Rightarrow> response_state" where
  "failed_state mark details message =
     \<lparr>rt_visible = True, rt_tab = ''Response '' @ mark @ '' Error'', rt_status = ''Error'', rt_status_text = [],
      rt_color = status_color False, rt_duration = [], rt_size = [], rt_rows = pd_rows details,
      rt_request_headers = pd_headers details, rt_response_headers = [], rt_payload = message\<rparr>"

section \<open>History\<close>

definition header_doc :: "header_row \<Rightarrow> jval" where
  "header_doc r = JObj [(''key'', JStr (hr_key r)), (''value'', JStr (hr_value r)), (''enabled'', JBool (hr_enabled r))]"

definition header_enabled :: "jval \<Rightarrow> bool" where
  "header_enabled row \<longleftrightarrow> jget row ''enabled'' \<noteq> JBool False"

definition plain_header :: "jval \<Rightarrow> jval" where
  "plain_header row =
     JObj [(''key'', JStr (member_str row ''key'')), (''value'', JStr (member_str row ''value'')),
           (''enabled'', JBool (header_enabled row))]"

definition sent_fields :: "bar_layout \<Rightarrow> (string \<times> string) list \<Rightarrow> (string \<times> string) list" where
  "sent_fields bar vs =
     fold (\<lambda>f m. if value_at vs (bf_input f) = [] then m else oput (bf_field f) (value_at vs (bf_input f)) m)
       (bar_fields bar) []"

definition shown_metadata :: "bar_layout \<Rightarrow> (string \<times> string) list \<Rightarrow> (string \<times> string) list" where
  "shown_metadata bar vs =
     fold (\<lambda>f m. if value_at vs (bf_input f) = [] then m else bar_metadata (value_at vs (bf_input f)) f m)
       (bar_fields bar) []"

definition build_history_entry ::
    "derived \<Rightarrow> int \<Rightarrow> obj \<Rightarrow> nat \<Rightarrow> string \<Rightarrow> int \<Rightarrow> jval \<Rightarrow> (string \<times> string) list \<Rightarrow> jval" where
  "build_history_entry d now publisher status status_text duration response_data metadata =
     (let t = publisher_type publisher; bar = bar_of d t; vs = current_request_bar_values d publisher;
          request_fields = sent_fields bar vs;
          headers = array_or_empty (oget publisher ''headers'')
      in JObj [(''publisher_id'', oget publisher ''id''),
               (''name'', JStr (str_or (oget publisher ''name'') [])),
               (''payload'', JStr (str_or (oget publisher ''payload'') [])),
               (''headers'', JArr (map plain_header headers)),
               (''metadata'', JArr (map (\<lambda>r. JObj [(''k'', jget r ''key''), (''v'', jget r ''value'')])
                  (filter (\<lambda>r. header_enabled r \<and> truthy (jget r ''key'')) headers))),
               (''endpoint_type'', JStr t),
               (''method'', JStr (member_str (endpoint_config publisher) ''method'')),
               (''url'', JStr (value_at request_fields ''url'')),
               (''request_fields'', text_members request_fields),
               (''requestMetadata'', text_members (ospread (shown_metadata bar vs) metadata)),
               (''status'', JNum (int status)), (''statusText'', JStr status_text),
               (''duration'', JNum duration), (''time'', JNum now),
               (''ok'', JBool (200 \<le> status \<and> status < 300)), (''responseData'', response_data)])"

text \<open>The first of several members that is truthy, as a text.\<close>

definition first_truthy_text :: "jval list \<Rightarrow> string" where
  "first_truthy_text vs = to_str (foldr js_or vs (JStr []))"

definition entry_field :: "jval \<Rightarrow> bar_field \<Rightarrow> string" where
  "entry_field entry f =
     first_truthy_text [jget (jget entry ''requestMetadata'') (''request_bar.'' @ bf_field f),
                 jget (jget entry ''requestMetadata'') (''request_bar.'' @ bf_input f),
                 jget (jget entry ''request_fields'') (bf_field f)]"

definition entry_url :: "jval \<Rightarrow> string" where
  "entry_url entry =
     first_truthy_text [jget (jget entry ''requestMetadata'') ''request_bar.url'',
                 jget (jget entry ''requestMetadata'') ''request_bar.pub-url'',
                 jget (jget entry ''request_fields'') ''url'', jget entry ''url'']"

definition request_values_from_history_entry :: "jval \<Rightarrow> bar_field list \<Rightarrow> (string \<times> string) list" where
  "request_values_from_history_entry entry fs =
     (let vs = fold (\<lambda>f. oput (bf_input f) (entry_field entry f)) fs []
      in if value_at vs ''pub-url'' = [] then oput ''pub-url'' (entry_url entry) vs else vs)"

definition entry_rows :: "jval \<Rightarrow> (string \<times> string) list" where
  "entry_rows entry = map (\<lambda>r. (to_str (jget r ''k''), to_str (jget r ''v''))) (array_or_empty (jget entry ''metadata''))"

definition entry_ok :: "jval \<Rightarrow> bool" where
  "entry_ok entry =
     truthy (coalesce (jget entry ''ok'')
       (JBool (200 \<le> status_number entry ''status'' \<and> status_number entry ''status'' < 300)))"

definition entry_status_label :: "jval \<Rightarrow> string" where
  "entry_status_label entry =
     str_or (jget entry ''displayStatus'')
       (if entry_ok entry then str_or (jget entry ''status'') ''OK'' else ''Error'')"

definition build_history_response_state ::
    "string \<Rightarrow> (string \<Rightarrow> string \<Rightarrow> int) \<Rightarrow> derived \<Rightarrow> obj \<Rightarrow> jval \<Rightarrow> response_state" where
  "build_history_response_state mark lc d publisher entry =
     (let t = publisher_type publisher; bar = bar_of d t;
          payload = payload_text (extract_publisher_response_payload (jget entry ''responseData''))
      in \<lparr>rt_visible = True, rt_tab = ''Response '' @ mark @ '' '' @ entry_status_label entry,
          rt_status = entry_status_label entry,
          rt_status_text = first_truthy_text [jget entry ''displayStatusText'', jget entry ''statusText''],
          rt_color = status_color (entry_ok entry),
          rt_duration = (case jget entry ''duration'' of JNum n \<Rightarrow> int_str n @ ''ms'' | _ \<Rightarrow> []),
          rt_size = size_label (text_size payload),
          rt_rows = build_publisher_request_rows bar t (endpoint_config publisher)
            (request_values_from_history_entry entry (bar_fields bar)),
          rt_request_headers = entry_rows entry,
          rt_response_headers = extract_publisher_response_headers lc (jget entry ''responseData''),
          rt_payload = payload\<rparr>)"

text \<open>What choosing an entry of the history writes back into the endpoint.\<close>

definition http_history_fields :: "(string \<Rightarrow> url option) \<Rightarrow> jval \<Rightarrow> (string \<times> jval) list" where
  "http_history_fields parse entry =
     (let history_method = first_truthy_text [jget entry ''method'', jget (jget entry ''requestMetadata'') ''http_method''];
          v = entry_url entry; path = jget (jget entry ''requestMetadata'') ''http_path''
      in (if history_method \<noteq> [] then [(''method'', JStr history_method)] else [])
         @ (if v \<noteq> [] then apply_http_url_to_endpoint parse v
            else if truthy path then [(''path'', path)] else [])
         @ (if entry_rows entry \<noteq> [] then [(''custom_headers'', text_members (from_entries (entry_rows entry)))] else []))"

definition history_fields :: "(string \<Rightarrow> url option) \<Rightarrow> derived \<Rightarrow> string \<Rightarrow> jval \<Rightarrow> (string \<times> jval) list" where
  "history_fields parse d t entry =
     (if t = ''http'' then http_history_fields parse entry
      else map (\<lambda>f. (bf_field f, JStr (entry_field entry f)))
        (filter (\<lambda>f. entry_field entry f \<noteq> []) (bar_fields (bar_of d t))))"

definition apply_history_request_fields_to_publisher ::
    "(string \<Rightarrow> url option) \<Rightarrow> derived \<Rightarrow> obj \<Rightarrow> jval \<Rightarrow> js_error + obj" where
  "apply_history_request_fields_to_publisher parse d publisher entry =
     assign_fields (history_fields parse d (publisher_type publisher) entry) publisher"

section \<open>The command line for copying\<close>

definition quote_mark :: char where
  "quote_mark = CHR 0x27"

definition backslash :: char where
  "backslash = CHR 0x5C"

definition shell_quote :: "string \<Rightarrow> string" where
  "shell_quote v =
     quote_mark # concat (map (\<lambda>c. if c = quote_mark then [quote_mark, backslash, quote_mark, quote_mark] else [c]) v)
       @ [quote_mark]"

definition curl_command :: "string \<Rightarrow> string \<Rightarrow> header_row list \<Rightarrow> string \<Rightarrow> string" where
  "curl_command method url rows payload =
     join ('' '' @ [backslash, CHR 0x0A] @ ''  '')
       ([''curl -X '' @ method @ '' '' @ shell_quote url]
        @ map (\<lambda>h. ''-H '' @ shell_quote (fst h @ '': '' @ snd h)) (sent_headers rows)
        @ (if payload \<noteq> [] then [''-d '' @ shell_quote payload] else []))"

definition curl_method :: "jval \<Rightarrow> string" where
  "curl_method config = (if request_method config = [] then ''POST'' else request_method config)"

end
