(* ===== verification/PublisherActions.thy ===== *)
theory PublisherActions
  imports PublishersView
begin

text \<open>
  The actions of the publishers panel (\<open>publishers-view.ts\<close>): selecting, editing, saving, the references the
  consumers hold, and deleting. The answers of dialogs and what a focused form field reports when it loses
  the focus are arguments. An exception ends the action and leaves the state as it is then.
\<close>

section \<open>The form\<close>

definition schema_config_endpoint_types :: "(string \<times> string) list" where
  "schema_config_endpoint_types =
     [(''HttpConfig'', ''http''), (''WebSocketConfig'', ''websocket''), (''KafkaConfig'', ''kafka''),
      (''MqttConfig'', ''mqtt''), (''GrpcConfig'', ''grpc''), (''AmqpConfig'', ''amqp''), (''IbmMqConfig'', ''ibmmq''),
      (''RedisStreamsConfig'', ''redis_streams''), (''NatsConfig'', ''nats''), (''MongoDbConfig'', ''mongodb''),
      (''ZeroMqConfig'', ''zeromq''), (''SqlxConfig'', ''sqlx''), (''FileConfig'', ''file''),
      (''MemoryConfig'', ''memory''), (''SledConfig'', ''sled'')]"

definition hide_at :: "string list \<Rightarrow> jval \<Rightarrow> jval" where
  "hide_at path = modify_at path (\<lambda>v. if truthy v then set_member ''hidden'' (JBool True) v else v)"

definition not_required :: "string list \<Rightarrow> string \<Rightarrow> jval \<Rightarrow> jval" where
  "not_required path k =
     modify_at (path @ [''required'']) (\<lambda>v. case v of JArr ks \<Rightarrow> JArr (filter (\<lambda>x. x \<noteq> JStr k) ks) | _ \<Rightarrow> v)"

definition hide_bar_fields :: "derived \<Rightarrow> string \<times> string \<Rightarrow> jval \<Rightarrow> jval" where
  "hide_bar_fields d e schema =
     (if \<not> truthy (path_get schema [''$defs'', fst e, ''properties'']) then schema
      else fold (\<lambda>f s. not_required [''$defs'', fst e] (bf_field f)
             (hide_at [''$defs'', fst e, ''properties'', bf_field f] s))
           (bar_fields (bar_of d (snd e))) schema)"

definition create_publisher_form_schema :: "'n pub_env \<Rightarrow> obj \<Rightarrow> jval" where
  "create_publisher_form_schema env publisher =
     (let s1 = hide_unused_deprecated_properties
            (name_mapping_rule_branches (force_ref_only_endpoints (apply_endpoint_schema_defaults
              (JObj (resolve_root_array_item_schema (pe_schema env) ''publishers''))))) (JObj publisher);
          s2 = fold (hide_bar_fields (pe_kinds env)) schema_config_endpoint_types s1;
          s3 = hide_at [''$defs'', ''HttpConfig'', ''properties'', ''custom_headers''] s2
      in not_required [] ''name'' (hide_at [''properties'', ''id''] s3))"

definition render_publisher_form :: "'n pub_env \<Rightarrow> 'n pub_world \<Rightarrow> 'n pub_world" where
  "render_publisher_form env w =
     (case current_publisher w of
        None \<Rightarrow> w
      | Some p \<Rightarrow>
          (let signature = stringify (JObj p)
           in if \<not> pe_form_container env \<or> (pw_form w \<noteq> None \<and> pw_signature w = Some signature) then w
              else w\<lparr>pw_signature := Some signature,
                     pw_form := Some (create_publisher_form_schema env p, clone_json (JObj p))\<rparr>))"

definition form_reports :: "'n pub_env \<Rightarrow> obj \<Rightarrow> 'n pub_world \<Rightarrow> 'n pub_world" where
  "form_reports env updated w =
     (let w1 = w\<lparr>pw_drafts := AList.update (pub_index w) updated (pw_drafts w)\<rparr>
      in case current_publisher w1 of
           None \<Rightarrow> w1
         | Some current \<Rightarrow>
             (let input = ospread current updated;
                  changed = ospread current (normal_here env input w1)
              in render_selected_publisher env
                   ((put_publisher changed (id_drawn input w1))\<lparr>pw_signature := Some (stringify (JObj changed))\<rparr>)))"

text \<open>\<open>blurred\<close>: what the form reports when its field loses the focus; \<open>typed\<close>: the text in its name field.\<close>

definition flush_publisher_draft ::
    "'n pub_env \<Rightarrow> obj option \<Rightarrow> string option \<Rightarrow> 'n pub_world \<Rightarrow> 'n pub_world" where
  "flush_publisher_draft env blurred typed w =
     (let w1 = (case blurred of Some updated \<Rightarrow> form_reports env updated w | None \<Rightarrow> w);
          existing = (case map_of (pw_drafts w1) (pub_index w1) of Some d \<Rightarrow> d
            | None \<Rightarrow> (case current_publisher w1 of Some p \<Rightarrow> p | None \<Rightarrow> []))
      in case typed of
           None \<Rightarrow> w1
         | Some name \<Rightarrow> w1\<lparr>pw_drafts := AList.update (pub_index w1)
             (oput ''name'' (JStr name) (record_or_empty (clone_json (JObj existing)))) (pw_drafts w1)\<rparr>)"

section \<open>Selecting\<close>

definition restore_publisher_view :: "'n pub_env \<Rightarrow> int \<Rightarrow> string \<Rightarrow> 'n pub_world \<Rightarrow> 'n pub_world" where
  "restore_publisher_view env idx tab w =
     (let w1 = pub_panel_do (\<lambda>p. p\<lparr>ps_history_index := -1\<rparr>)
            (w\<lparr>pw_nav := restore_publisher_state idx tab ((pw_nav w)\<lparr>n_publishers := length (pub_rows w)\<rparr>)\<rparr>)
      in render_selected_publisher env (render_publisher_form env (render_selected_publisher env w1)))"

definition select_publisher_subtab :: "string \<Rightarrow> 'n pub_world \<Rightarrow> 'n pub_world" where
  "select_publisher_subtab tab w =
     w\<lparr>pw_nav := (pw_nav w)\<lparr>last_publisher_tab := tab, pub_subtab := tab, win_last_publisher_tab := Some tab\<rparr>\<rparr>"

definition last_index :: "'n pub_world \<Rightarrow> int" where
  "last_index w = int (length (pub_rows w)) - 1"

definition add_publisher_action :: "'n pub_env \<Rightarrow> string \<Rightarrow> 'n pub_world \<Rightarrow> 'n pub_world" where
  "add_publisher_action env t w =
     (let input = [(''id'', JStr (fresh_publisher_id env w)), (''name'', JStr []),
            (''endpoint'', JObj (create_default_publisher_endpoint t)), (''comment'', JStr []),
            (''payload'', JStr ''{}''), (''headers'', JArr [])];
          w1 = draw_id w;
          w2 = push_publisher (normal_here env input w1) (id_drawn input w1)
      in restore_publisher_view env (last_index w2) ''definition'' w2)"

section \<open>Editing\<close>

definition with_current :: "(obj \<Rightarrow> ('n pub_world, unit) promise) \<Rightarrow> ('n pub_world, unit) promise" where
  "with_current f w = (case current_publisher w of Some p \<Rightarrow> f p w | None \<Rightarrow> (Inr (), w))"

definition update_publisher_payload :: "'n pub_env \<Rightarrow> string \<Rightarrow> ('n pub_world, unit) promise" where
  "update_publisher_payload env v =
     with_current (\<lambda>p. let p' = oput ''payload'' (JStr v) p
       in await (doing (put_publisher p'))
            (\<lambda>_. await (set_local_publisher_state env p' (JStr v) Undef)
              (\<lambda>_. doing (pub_panel_do (\<lambda>s. s\<lparr>ps_payload := v\<rparr>)))))"

text \<open>Assignments to the current publisher's endpoint.\<close>

definition change_endpoint :: "(string \<times> jval) list \<Rightarrow> obj \<Rightarrow> ('n pub_world, unit) promise" where
  "change_endpoint changes p =
     (case assign_fields changes p of
        Inl e \<Rightarrow> resolved (Inl e)
      | Inr p' \<Rightarrow> doing (put_publisher p'))"

definition update_publisher_method :: "string \<Rightarrow> ('n pub_world, unit) promise" where
  "update_publisher_method v =
     with_current (\<lambda>p. await (change_endpoint [(''method'', JStr v)] p)
       (\<lambda>_. doing (pub_panel_do (\<lambda>s. s\<lparr>ps_method := v\<rparr>))))"

definition field_changes :: "(string \<Rightarrow> url option) \<Rightarrow> string \<Rightarrow> bar_field \<Rightarrow> string \<Rightarrow> (string \<times> jval) list" where
  "field_changes parse t f v =
     (if t = ''http'' \<and> bf_field f = ''url'' then apply_http_url_to_endpoint parse v else [(bf_field f, JStr v)])"

definition update_publisher_request_field ::
    "'n pub_env \<Rightarrow> string \<Rightarrow> string \<Rightarrow> ('n pub_world, unit) promise" where
  "update_publisher_request_field env field_id v =
     with_current (\<lambda>p.
       case field_named field_id (bar_of (pe_kinds env) (publisher_type p)) of
         None \<Rightarrow> doing id
       | Some f \<Rightarrow> await (change_endpoint (field_changes (ua_parse (pe_urls env)) (publisher_type p) f v) p)
           (\<lambda>_. doing (render_selected_publisher env)))"

text \<open>The desktop's file dialog: \<open>None\<close> when it is cancelled.\<close>

definition browse_publisher_file_path :: "'n pub_env \<Rightarrow> string option \<Rightarrow> ('n pub_world, unit) promise" where
  "browse_publisher_file_path env selected =
     with_current (\<lambda>p. case selected of Some path \<Rightarrow> update_publisher_request_field env ''pub-url'' path | None \<Rightarrow> doing id)"

definition sync_metadata_rows_to_publisher :: "'n pub_env \<Rightarrow> ('n pub_world, unit) promise" where
  "sync_metadata_rows_to_publisher env w =
     with_current (\<lambda>p.
       let rows = ps_rows (pw_panel w); p1 = oput ''headers'' (JArr (map header_doc rows)) p;
           changes = (if publisher_type p1 = ''http''
             then [(''custom_headers'', text_members (from_entries (sent_headers rows)))] else [])
       in await (doing (put_publisher p1))
            (\<lambda>_. await (change_endpoint changes p1)
              (\<lambda>_. with_current (\<lambda>p2. set_local_publisher_state env p2 Undef (JArr (map row_doc rows)))))) w"

definition edit_metadata_rows ::
    "'n pub_env \<Rightarrow> (header_row list \<Rightarrow> header_row list) \<Rightarrow> ('n pub_world, unit) promise" where
  "edit_metadata_rows env f w =
     sync_metadata_rows_to_publisher env (pub_panel_do (\<lambda>p. p\<lparr>ps_rows := f (ps_rows p)\<rparr>) w)"

definition add_publisher_metadata_row :: "'n pub_env \<Rightarrow> ('n pub_world, unit) promise" where
  "add_publisher_metadata_row env w =
     edit_metadata_rows env
       (\<lambda>rows. rows @ [\<lparr>hr_id = pw_next_row w, hr_key = [], hr_value = [], hr_enabled = True\<rparr>])
       (w\<lparr>pw_next_row := pw_next_row w + 1\<rparr>)"

definition update_publisher_metadata_row ::
    "'n pub_env \<Rightarrow> nat \<Rightarrow> row_field \<Rightarrow> string \<Rightarrow> ('n pub_world, unit) promise" where
  "update_publisher_metadata_row env i f v = edit_metadata_rows env (update_nth i (set_row_field f v))"

definition toggle_publisher_metadata_row :: "'n pub_env \<Rightarrow> nat \<Rightarrow> bool \<Rightarrow> ('n pub_world, unit) promise" where
  "toggle_publisher_metadata_row env i enabled = edit_metadata_rows env (update_nth i (\<lambda>r. r\<lparr>hr_enabled := enabled\<rparr>))"

definition remove_publisher_metadata_row :: "'n pub_env \<Rightarrow> nat \<Rightarrow> ('n pub_world, unit) promise" where
  "remove_publisher_metadata_row env i = edit_metadata_rows env (remove_nth i)"

definition pub_notice :: "string \<Rightarrow> 'n pub_world \<Rightarrow> 'n pub_world" where
  "pub_notice s w = w\<lparr>pw_notices := pw_notices w @ [s]\<rparr>"

definition beautify_publisher_payload :: "'n pub_env \<Rightarrow> 'n pub_world \<Rightarrow> 'n pub_world" where
  "beautify_publisher_payload env w =
     (case current_publisher w of
        None \<Rightarrow> w
      | Some p \<Rightarrow>
          (case parse_json (str_or (oget p ''payload'') []) of
             Some v \<Rightarrow> render_selected_publisher env (put_publisher (oput ''payload'' (JStr (pretty 0 v)) p) w)
           | None \<Rightarrow> pub_notice ''Invalid JSON'' w))"

section \<open>The references of consumers\<close>

text \<open>A name met a second time is dropped, and a third time taken again.\<close>

fun names_once :: "(string \<times> obj) list \<Rightarrow> obj list \<Rightarrow> (string \<times> obj) list" where
  "names_once m [] = m"
| "names_once m (p # ps) =
     (let name = trimmed_member p ''name''
      in names_once (if name = [] then m else if ohas m name then odel name m else oput name p m) ps)"

definition publishers_by_id :: "obj list \<Rightarrow> (string \<times> obj) list" where
  "publishers_by_id publishers =
     filter (\<lambda>e. fst e \<noteq> []) (rev (map (\<lambda>p. (trimmed_member p ''id'', p)) publishers))"

definition first_some :: "'a option list \<Rightarrow> 'a option" where
  "first_some xs = foldr (\<lambda>x r. case x of Some y \<Rightarrow> Some y | None \<Rightarrow> r) xs None"

definition referenced_publisher :: "obj list \<Rightarrow> string \<Rightarrow> string \<Rightarrow> jval \<Rightarrow> obj option" where
  "referenced_publisher publishers previous_name previous_id output =
     (let by_id = map_of (publishers_by_id publishers); by_name = map_of (names_once [] publishers);
          output_id = js_trim (member_str output ''publisher_id'');
          output_name = js_trim (member_str output ''publisher'')
      in first_some
           [by_id output_id, by_name output_name,
            if previous_id \<noteq> [] \<and> output_id = previous_id then by_id previous_id else None,
            if previous_name \<noteq> [] \<and> output_name = js_trim previous_name
            then first_some [by_id (js_trim previous_id), by_name (js_trim previous_name)] else None])"

definition sync_reference :: "obj list \<Rightarrow> string \<Rightarrow> string \<Rightarrow> obj \<Rightarrow> obj" where
  "sync_reference publishers previous_name previous_id consumer =
     (case oget consumer ''output'' of
        JObj output \<Rightarrow>
          (if oget output ''mode'' \<noteq> JStr ''publisher'' then consumer
           else case referenced_publisher publishers previous_name previous_id (JObj output) of
             None \<Rightarrow> consumer
           | Some p \<Rightarrow> oput ''output'' (JObj (oput ''publisher_id'' (oget p ''id'')
               (oput ''publisher'' (JStr (str_or (oget p ''name'') [])) output))) consumer)
      | _ \<Rightarrow> consumer)"

definition sync_consumer_publisher_references :: "string \<Rightarrow> string \<Rightarrow> 'n pub_world \<Rightarrow> 'n pub_world" where
  "sync_consumer_publisher_references previous_name previous_id w =
     (case oget (pub_config w) ''consumers'' of
        JArr _ \<Rightarrow> set_rows ''consumers''
          (map (sync_reference (pub_rows w) previous_name previous_id) (rows_at (pub_config w) ''consumers'')) w
      | _ \<Rightarrow> w)"

section \<open>Saving\<close>

definition save_publishers_section :: "'n pub_env \<Rightarrow> 'n pub_world \<Rightarrow> jval \<times> 'n pub_world" where
  "save_publishers_section env w =
     (let (saved, page) = save_section (pe_save env) ''publishers'' (oget (pub_config w) ''publishers'') False False (pw_page w);
          w1 = w\<lparr>pw_page := page\<rparr>
      in case jget saved ''publishers'' of
           JArr rows \<Rightarrow> (saved, normalize_rows env (map record_or_empty rows) w1)
         | _ \<Rightarrow> (saved, w1))"

text \<open>\<open>xs[i] = x\<close> and \<open>xs.splice(i, 1)\<close>: a negative index writes no element, and splices from the end.\<close>

definition put_at :: "int \<Rightarrow> 'a \<Rightarrow> 'a list \<Rightarrow> 'a list" where
  "put_at i x xs = (if i < 0 then xs else xs[nat i := x])"

definition splice_one :: "int \<Rightarrow> 'a list \<Rightarrow> 'a list" where
  "splice_one i xs = remove_nth (nat (if i < 0 then max 0 (int (length xs) + i) else i)) xs"

definition drafted_publisher :: "'n pub_env \<Rightarrow> obj \<Rightarrow> obj \<Rightarrow> 'n pub_world \<Rightarrow> obj" where
  "drafted_publisher env publisher draft w =
     normal_here env (ospread publisher (record_or_empty (clone_json (JObj draft)))) w"

definition merge_publisher_draft :: "'n pub_env \<Rightarrow> obj \<Rightarrow> 'n pub_world \<Rightarrow> 'n pub_world" where
  "merge_publisher_draft env publisher w =
     (case map_of (pw_drafts w) (pub_index w) of
        None \<Rightarrow> w
      | Some draft \<Rightarrow>
          (let next = oput ''headers'' (JArr (map header_doc (ps_rows (pw_panel w))))
                 (oput ''payload'' (oget publisher ''payload'') (drafted_publisher env publisher draft w));
               w1 = id_drawn (ospread publisher (record_or_empty (clone_json (JObj draft)))) w
           in set_rows ''publishers'' (put_at (pub_index w1) next (pub_rows w1)) w1))"

definition save_current_publisher ::
    "'n pub_env \<Rightarrow> obj option \<Rightarrow> string option \<Rightarrow> 'n pub_world \<Rightarrow> jval \<times> 'n pub_world" where
  "save_current_publisher env blurred typed w =
     (case current_publisher w of
        None \<Rightarrow> (Null, w)
      | Some _ \<Rightarrow>
          (let w1 = flush_publisher_draft env blurred typed w;
               publisher = (case current_publisher w1 of Some p \<Rightarrow> p | None \<Rightarrow> []);
               w2 = merge_publisher_draft env publisher w1;
               w3 = sync_consumer_publisher_references (str_or (oget publisher ''name'') [])
                 (str_or (oget publisher ''id'') []) w2;
               (saved, w4) = save_publishers_section env w3
           in (saved, restore_publisher_view env (pub_index w1) (pub_subtab (pw_nav w4)) w4)))"

section \<open>Deleting\<close>

definition forget_publisher :: "obj \<Rightarrow> 'n pub_world \<Rightarrow> 'n pub_world" where
  "forget_publisher publisher w =
     (let ks = publisher_storage_keys_for publisher
      in (put_history (fold odel ks (history_table w)) w)
           \<lparr>pw_local := fold odel ks (pw_local w), pw_responses := fold odel ks (pw_responses w)\<rparr>)"

definition mark_publishers_saved :: "('n pub_world, unit) promise" where
  "mark_publishers_saved w =
     (case mark_saved ''publishers'' (oget (pub_config w) ''publishers'') (pw_page w) of (r, page) \<Rightarrow> (r, w\<lparr>pw_page := page\<rparr>))"

definition after_delete :: "'n pub_env \<Rightarrow> int \<Rightarrow> 'n pub_world \<Rightarrow> 'n pub_world" where
  "after_delete env i w =
     (if pub_rows w = [] then
        (let w1 = pub_panel_do (\<lambda>p. p\<lparr>ps_has := False, ps_items := [], ps_grouped := [], ps_history_index := -1\<rparr>) w
         in w1\<lparr>pw_nav := (pw_nav w1)\<lparr>pub_selected := -1, hash := ''#publishers:0''\<rparr>\<rparr>)
      else restore_publisher_view env (min i (last_index w)) ''definition'' w)"

definition delete_current_publisher :: "'n pub_env \<Rightarrow> bool \<Rightarrow> ('n pub_world, unit) promise" where
  "delete_current_publisher env confirmed w =
     with_current (\<lambda>p.
       if \<not> confirmed then doing id
       else let i = pub_index w in
         await (doing (\<lambda>w. forget_publisher p (set_rows ''publishers'' (splice_one i (pub_rows w)) w)))
           (\<lambda>_. await (persist_local_state env) (\<lambda>_. await (persist_history env)
             (\<lambda>_. await (doing (\<lambda>w. snd (save_publishers_section env w)))
               (\<lambda>_. await mark_publishers_saved (\<lambda>_. doing (after_delete env i))))))) w"

end
