(* ===== verification/PublisherRuntime.thy ===== *)
theory PublisherRuntime
  imports PublisherActions
begin

text \<open>
  The actions of the publishers panel that reach beyond it (\<open>publishers-view.ts\<close>): publishing a message and
  its history, copies to the clipboard, copies of publishers, exports, imports, and the start of the
  panel. Publishing is split into what happens before the request and what happens when its outcome arrives.
\<close>

section \<open>Publishing\<close>

definition publish_request :: "publish_details \<Rightarrow> request" where
  "publish_request details = post_request ''/publish'' (stringify (pd_request details))"

definition show_response :: "obj \<Rightarrow> response_state \<Rightarrow> 'n pub_world \<Rightarrow> 'n pub_world" where
  "show_response publisher st w =
     pub_panel_do (\<lambda>p. p\<lparr>ps_response := st\<rparr>) (set_publisher_response_state publisher st w)"

definition details_to_send :: "'n pub_env \<Rightarrow> obj \<Rightarrow> 'n pub_world \<Rightarrow> publish_details" where
  "details_to_send env publisher w =
     build_publish_request_details (ua_parse (pe_urls env)) (pe_kinds env) (ps_rows (pw_panel w)) publisher"

definition record_history :: "'n pub_env \<Rightarrow> obj \<Rightarrow> jval \<Rightarrow> 'n pub_world \<Rightarrow> 'n pub_world" where
  "record_history env publisher entry w =
     (let k = history_bucket_key_for publisher;
          w1 = put_history (oput k (JArr (entry # array_or_empty (oget (history_table w) k))) (history_table w)) w
      in w1\<lparr>pw_history := oput ''updated_at'' (JNum (pe_later env)) (pw_history w1)\<rparr>)"

definition schedule_history_sync :: "'n pub_world \<Rightarrow> 'n pub_world" where
  "schedule_history_sync w = w\<lparr>pw_sync := True\<rparr>"

text \<open>\<open>publisher\<close> is the object that was current when the message was sent, as it is when the answer arrives.\<close>

definition publish_answered ::
    "'n pub_env \<Rightarrow> obj \<Rightarrow> publish_details \<Rightarrow> response \<Rightarrow> ('n pub_world, unit) promise" where
  "publish_answered env publisher details r w =
     (case rs_body r of
        None \<Rightarrow> (Inl Network_failure, w)
      | Some body \<Rightarrow>
          (let duration = pe_later env - pe_now env; response_data = parse_json_if_possible body;
               entry = build_history_entry (pe_kinds env) (pe_later env) publisher (rs_status r)
                 (if rs_status_text r = [] then ''OK'' else rs_status_text r) duration response_data (pd_metadata details)
           in await (doing (show_response publisher
                  (answer_state (pe_mark env) (pe_lc env) r duration response_data details)))
                (\<lambda>_. await (doing (record_history env publisher entry))
                  (\<lambda>_. await (persist_history env)
                    (\<lambda>_. doing (\<lambda>w. schedule_history_sync (render_selected_publisher env w))))) w))"

definition publish_failed :: "'n pub_env \<Rightarrow> obj \<Rightarrow> publish_details \<Rightarrow> string \<Rightarrow> 'n pub_world \<Rightarrow> 'n pub_world" where
  "publish_failed env publisher details why w =
     show_response publisher (failed_state (pe_mark env) details (''Error: '' @ why)) w"

definition publish_settled ::
    "'n pub_env \<Rightarrow> obj \<Rightarrow> publish_details \<Rightarrow> publish_outcome \<Rightarrow> 'n pub_world \<Rightarrow> 'n pub_world" where
  "publish_settled env publisher details outcome w =
     (case outcome of
        Timed_out \<Rightarrow> publish_failed env publisher details ''Publish request timed out after 10s'' w
      | Rejected e \<Rightarrow> publish_failed env publisher details (pe_message env e) w
      | Answered r \<Rightarrow>
          (case publish_answered env publisher details r w of
             (Inr (), w') \<Rightarrow> w'
           | (Inl e, w') \<Rightarrow> publish_failed env publisher details (pe_message env e) w'))"

definition send_publisher :: "'n pub_env \<Rightarrow> 'n pub_world \<Rightarrow> 'n pub_world" where
  "send_publisher env w =
     (case current_publisher w of
        None \<Rightarrow> w
      | Some p \<Rightarrow>
          (let details = details_to_send env p w;
               w1 = show_response p pending_state w;
               (outcome, n) = pe_publish env (publish_request details) (sw_net (pw_page w1))
           in publish_settled env p details outcome (w1\<lparr>pw_page := (pw_page w1)\<lparr>sw_net := n\<rparr>\<rparr>)))"

text \<open>The timer of \<open>scheduleHistorySync\<close> firing.\<close>

definition history_sync :: "'n pub_env \<Rightarrow> 'n pub_world \<Rightarrow> 'n pub_world" where
  "history_sync env w =
     (if \<not> pw_sync w then w
      else w\<lparr>pw_page := snd (save_section (pe_save env) ''history'' (JObj (pw_history w)) True False (pw_page w)),
             pw_sync := False\<rparr>)"

section \<open>The history\<close>

definition clear_active_publisher_history :: "'n pub_env \<Rightarrow> ('n pub_world, unit) promise" where
  "clear_active_publisher_history env =
     with_current (\<lambda>p.
       await (doing (\<lambda>w. pub_panel_do (\<lambda>s. s\<lparr>ps_history_index := -1\<rparr>)
           (put_history (odel (history_bucket_key_for p) (history_table w)) w)))
         (\<lambda>_. await (persist_history env)
           (\<lambda>_. doing (\<lambda>w. schedule_history_sync (render_selected_publisher env w)))))"

definition entry_header_rows :: "int \<Rightarrow> jval \<Rightarrow> header_row list" where
  "entry_header_rows n entry = numbered_rows n (entry_rows entry)"

definition take_rows :: "nat \<Rightarrow> 'n pub_world \<Rightarrow> 'n pub_world" where
  "take_rows n w = w\<lparr>pw_next_row := pw_next_row w + int n\<rparr>"

definition show_history_entry ::
    "'n pub_env \<Rightarrow> int \<Rightarrow> jval \<Rightarrow> obj \<Rightarrow> ('n pub_world, unit) promise" where
  "show_history_entry env i entry p =
     (let p1 = oput ''payload'' (jget entry ''payload'') p
      in await (doing (put_publisher p1))
        (\<lambda>_. case apply_history_request_fields_to_publisher (ua_parse (pe_urls env)) (pe_kinds env) p1 entry of
            Inl e \<Rightarrow> resolved (Inl e)
          | Inr p2 \<Rightarrow>
              (let st = build_history_response_state (pe_mark env) (pe_lc env) (pe_kinds env) p2 entry
               in await (doing (put_publisher p2))
                 (\<lambda>_ w. await (doing (take_rows (length (entry_rows entry))))
                   (\<lambda>_. await (set_local_publisher_state env p2 (jget entry ''payload'')
                       (JArr (map row_doc (entry_header_rows (pw_next_row w) entry))))
                     (\<lambda>_. doing (\<lambda>w. render_selected_publisher env
                       (pub_panel_do (\<lambda>s. s\<lparr>ps_history_index := i\<rparr>) (show_response p2 st w))))) w))))"

definition entry_at :: "int \<Rightarrow> 'n pub_world \<Rightarrow> jval option" where
  "entry_at i w = message_at (current_history_entries w) i"

definition show_publisher_history_entry :: "'n pub_env \<Rightarrow> int \<Rightarrow> ('n pub_world, unit) promise" where
  "show_publisher_history_entry env i w =
     (case entry_at i w of None \<Rightarrow> (Inr (), w) | Some entry \<Rightarrow> with_current (show_history_entry env i entry) w)"

definition resend_publisher_history :: "'n pub_env \<Rightarrow> int \<Rightarrow> ('n pub_world, unit) promise" where
  "resend_publisher_history env i w =
     (case entry_at i w of
        None \<Rightarrow> (Inr (), w)
      | Some _ \<Rightarrow> await (show_publisher_history_entry env i) (\<lambda>_. doing (send_publisher env)) w)"

section \<open>The clipboard\<close>

definition write_clipboard_text :: "'n pub_env \<Rightarrow> string \<Rightarrow> 'n pub_world \<Rightarrow> 'n pub_world" where
  "write_clipboard_text env text w =
     (if pe_clipboard env then w\<lparr>pw_clip := Some text\<rparr> else pub_notice ''Failed to copy to clipboard'' w)"

definition response_payload_of :: "obj \<Rightarrow> 'n pub_world \<Rightarrow> string" where
  "response_payload_of p w = (case get_publisher_response_state p w of Some st \<Rightarrow> rt_payload st | None \<Rightarrow> [])"

definition copy_publisher_response :: "'n pub_env \<Rightarrow> 'n pub_world \<Rightarrow> 'n pub_world" where
  "copy_publisher_response env w =
     (case current_publisher w of Some p \<Rightarrow> write_clipboard_text env (response_payload_of p w) w | None \<Rightarrow> w)"

definition copy_publisher_response_json :: "'n pub_env \<Rightarrow> 'n pub_world \<Rightarrow> 'n pub_world" where
  "copy_publisher_response_json env w =
     (case current_publisher w of
        None \<Rightarrow> w
      | Some p \<Rightarrow>
          (let payload = response_payload_of p w; parsed = parse_json_if_possible payload
           in write_clipboard_text env (if is_string parsed then payload else pretty 0 parsed) w))"

definition copy_publisher_as_curl :: "'n pub_env \<Rightarrow> 'n pub_world \<Rightarrow> 'n pub_world" where
  "copy_publisher_as_curl env w =
     (case current_publisher w of
        None \<Rightarrow> w
      | Some p \<Rightarrow>
          (if publisher_type p \<noteq> ''http'' then pub_notice ''Copy as curl is only available for HTTP publishers.'' w
           else write_clipboard_text env
             (curl_command (curl_method (endpoint_config p))
               (js_trim (value_at (current_request_bar_values (pe_kinds env) p) ''pub-url''))
               (ps_rows (pw_panel w)) (str_or (oget p ''payload'') [])) w))"

section \<open>Copies\<close>

definition renamed_copy :: "'n pub_env \<Rightarrow> string option \<Rightarrow> obj \<Rightarrow> 'n pub_world \<Rightarrow> obj \<times> 'n pub_world" where
  "renamed_copy env name p w =
     (let copied = normal_here env p w; w1 = id_drawn p w;
          copied = oput ''id'' (JStr (fresh_publisher_id env w1)) copied
      in ((case name of Some s \<Rightarrow> oput ''name'' (JStr s) copied | None \<Rightarrow> copied), draw_id w1))"

definition given_name :: "string option \<Rightarrow> string option" where
  "given_name answer = (case answer of Some s \<Rightarrow> if s = [] then None else Some s | None \<Rightarrow> None)"

definition save_current_publisher_variant :: "'n pub_env \<Rightarrow> string option \<Rightarrow> 'n pub_world \<Rightarrow> 'n pub_world" where
  "save_current_publisher_variant env answer w =
     (case (current_publisher w, given_name answer) of
        (Some p, Some name) \<Rightarrow>
          (let (copied, w1) = renamed_copy env (Some name) p w
           in render_selected_publisher env (push_publisher copied w1))
      | _ \<Rightarrow> w)"

definition clone_current_publisher :: "'n pub_env \<Rightarrow> 'n pub_world \<Rightarrow> 'n pub_world" where
  "clone_current_publisher env w =
     (case current_publisher w of
        None \<Rightarrow> w
      | Some p \<Rightarrow>
          (let (copied, w1) = renamed_copy env None p w; w2 = push_publisher copied w1
           in restore_publisher_view env (last_index w2) (pub_subtab (pw_nav w2)) w2))"

definition save_publisher_history_as_publisher ::
    "'n pub_env \<Rightarrow> int \<Rightarrow> string option \<Rightarrow> ('n pub_world, unit) promise" where
  "save_publisher_history_as_publisher env i answer w =
     (case (current_publisher w, entry_at i w, given_name answer) of
        (Some p, Some entry, Some name) \<Rightarrow>
          (let (copied, w1) = renamed_copy env (Some name) p w;
               next_headers = map (\<lambda>r. r\<lparr>hr_enabled := True\<rparr>) (entry_header_rows (pw_next_row w1) entry);
               next = oput ''headers'' (JArr (map header_doc next_headers))
                 (oput ''payload'' (jget entry ''payload'') copied)
           in case apply_history_request_fields_to_publisher (ua_parse (pe_urls env)) (pe_kinds env) next entry of
                Inl e \<Rightarrow> (Inl e, w1)
              | Inr created \<Rightarrow>
                  await (doing (\<lambda>w. take_rows (length next_headers) (push_publisher created w)))
                    (\<lambda>_. await (set_local_publisher_state env created (jget entry ''payload'')
                        (JArr (map row_doc next_headers)))
                      (\<lambda>_. doing (\<lambda>w. restore_publisher_view env (last_index w) ''payload'' w))) w1)
      | _ \<Rightarrow> (Inr (), w))"

text \<open>A copy to a consumer; the saved consumers are remembered when no save has done so.\<close>

definition remember_consumers :: "jval \<Rightarrow> 'n pub_world \<Rightarrow> 'n pub_world" where
  "remember_consumers previous w =
     (case pw_window_saved w of
        Some s \<Rightarrow> if ohas s ''consumers'' then w
          else w\<lparr>pw_window_saved := Some (oput ''consumers'' previous (ospread [] s)),
                 pw_page := (pw_page w)\<lparr>sw_dirty := (sw_dirty (pw_page w))
                   \<lparr>saved_sections := oput ''consumers'' previous (saved_sections (sw_dirty (pw_page w)))\<rparr>\<rparr>\<rparr>
      | None \<Rightarrow> w\<lparr>pw_window_saved := Some [(''consumers'', previous)],
                 pw_page := (pw_page w)\<lparr>sw_dirty := (sw_dirty (pw_page w))
                   \<lparr>saved_sections := oput ''consumers'' previous (saved_sections (sw_dirty (pw_page w)))\<rparr>\<rparr>\<rparr>)"

definition copy_current_publisher :: "'n pub_env \<Rightarrow> 'n pub_world \<Rightarrow> 'n pub_world" where
  "copy_current_publisher env w =
     (case current_publisher w of
        None \<Rightarrow> w
      | Some p \<Rightarrow>
          (let consumers = rows_at (pub_config w) ''consumers'';
               consumer = [(''id'', JStr (pe_fresh env ''consumer'' (pw_ids w))), (''name'', JStr []),
                 (''endpoint'', JObj (consumer_endpoint_from_publisher (ua_parse (pe_urls env)) (endpoint_of p))),
                 (''output'', no_output), (''response'', Null)];
               w1 = set_rows ''consumers'' (consumers @ [consumer]) (draw_id w);
               w2 = remember_consumers (clone_json (JArr (map JObj consumers))) w1
           in w2\<lparr>pw_nav := switch_main Consumers ((pw_nav w2)\<lparr>n_consumers := length consumers + 1,
                  pending_consumer_restore := Some (int (length consumers), ''definition'')\<rparr>)\<rparr>))"

section \<open>Exports\<close>

definition current_publisher_config_variants ::
    "'n pub_env \<Rightarrow> obj option \<Rightarrow> string option \<Rightarrow> 'n pub_world \<Rightarrow> config_variant list option \<times> 'n pub_world" where
  "current_publisher_config_variants env blurred typed w =
     (case current_publisher w of
        None \<Rightarrow> (None, w)
      | Some _ \<Rightarrow>
          (let w1 = flush_publisher_draft env blurred typed w;
               publisher = (case current_publisher w1 of Some p \<Rightarrow> p | None \<Rightarrow> []);
               draft = map_of (pw_drafts w1) (pub_index w1);
               exported = (case draft of
                   Some d \<Rightarrow> drafted_publisher env publisher d w1
                 | None \<Rightarrow> record_or_empty (clone_json (JObj publisher)));
               w2 = (case draft of Some d \<Rightarrow> id_drawn (ospread publisher (record_or_empty (clone_json (JObj d)))) w1 | None \<Rightarrow> w1)
           in (Some [\<lparr>cv_id = ''publisher'', cv_label = ''Publisher.from_config'',
                      cv_value = pretty 0 (build_publisher_config_document exported)\<rparr>,
                     \<lparr>cv_id = ''route'', cv_label = ''Route.from_config'',
                      cv_value = pretty 0 (build_publisher_config_route_document exported)\<rparr>], w2)))"

section \<open>Imports\<close>

definition imported_fields :: "(string \<Rightarrow> url option) \<Rightarrow> string \<Rightarrow> jval \<Rightarrow> (string \<times> jval) list" where
  "imported_fields parse t request =
     (if t = ''http'' then
        (if truthy (jget request ''url'') then apply_http_url_to_endpoint parse (to_str (jget request ''url'')) else [])
        @ (if truthy (jget request ''method'') then [(''method'', jget request ''method'')] else [])
      else [])
     @ filter (\<lambda>(_, v). truthy v) (obj_entries (js_or (jget request ''request_fields'') (JObj [])))"

definition import_request_to_publisher :: "'n pub_env \<Rightarrow> jval \<Rightarrow> ('n pub_world, unit) promise" where
  "import_request_to_publisher env request w =
     (let t = str_or (jget request ''endpoint_type'') ''http''
      in case assign_at t (imported_fields (ua_parse (pe_urls env)) t request) (create_default_publisher_endpoint t) of
           Inl e \<Rightarrow> (Inl e, w)
         | Inr endpoint \<Rightarrow>
             (let input = [(''id'', JStr (fresh_publisher_id env w)),
                    (''name'', JStr (str_or (jget request ''name'') ''Imported request'')), (''endpoint'', JObj endpoint),
                    (''payload'', JStr (member_str request ''payload'')),
                    (''headers'', JArr (array_or_empty (jget request ''headers''))), (''comment'', JStr [])];
                  w1 = draw_id w; publisher = normal_here env input w1; w2 = push_publisher publisher (id_drawn input w1);
                  headers = map row_of_doc (array_or_empty (oget publisher ''headers''));
                  numbered = map2 (\<lambda>i r. r\<lparr>hr_id := pw_next_row w2 + int i\<rparr>) [0..<length headers] headers
              in set_local_publisher_state env publisher (oget publisher ''payload'') (JArr (map row_doc numbered))
                   (take_rows (length headers) w2)))"

definition import_requests_to_publishers :: "'n pub_env \<Rightarrow> string \<Rightarrow> 'n pub_world \<Rightarrow> 'n pub_world" where
  "import_requests_to_publishers env source w =
     render_selected_publisher env
       (case await (resolved (extract_imported_requests source))
            (\<lambda>imported. each (import_request_to_publisher env) (ri_requests imported)) w of
          (Inr (), w') \<Rightarrow> w'
        | (Inl e, w') \<Rightarrow> pub_notice (''Import failed: '' @ pe_message env e) w')"

text \<open>A migrated preset draws at most two identifiers, so none of them is drawn again.\<close>

definition not_presets :: string where
  "not_presets = ''Selected file is not a valid mq-bridge export/presets file.''"

definition import_mqb_to_publisher :: "'n pub_env \<Rightarrow> string \<Rightarrow> ('n pub_world, unit) promise" where
  "import_mqb_to_publisher env source w =
     (case parse_json source of
        None \<Rightarrow> (Inl Syntax_failure, w)
      | Some parsed \<Rightarrow>
          (if jget parsed ''type'' \<noteq> JStr ''mqb-presets'' then (Inl (Js_error not_presets), w)
           else let imported = ensure_workspace_collections (se_origin (pe_save env))
                      (\<lambda>i. pe_fresh env ''publisher'' (pw_ids w + i))
                      [(''publishers'', oget (pub_config w) ''publishers''),
                       (''consumers'', js_or (oget (pub_config w) ''consumers'') (JArr [])),
                       (''routes'', js_or (oget (pub_config w) ''routes'') (JObj [])),
                       (''presets'', jget parsed ''presets'')];
                    rows = rows_at imported ''publishers''
                in (Inr (), render_selected_publisher env
                     (set_rows ''publishers'' rows (w\<lparr>pw_ids := pw_ids w + 2 * length rows\<rparr>)))))"

section \<open>The start of the panel\<close>

definition forget_publisher_session :: "'n pub_world \<Rightarrow> 'n pub_world" where
  "forget_publisher_session w =
     w\<lparr>pw_drafts := [], pw_responses := [], pw_next_row := 1, pw_signature := None\<rparr>"

definition remember_publishers :: "'n pub_world \<Rightarrow> 'n pub_world" where
  "remember_publishers w =
     (let snapshot = clone_json (JArr (map JObj (pub_rows w)))
      in w\<lparr>pw_page := (pw_page w)\<lparr>sw_dirty := (sw_dirty (pw_page w))
             \<lparr>saved_sections := oput ''publishers'' snapshot (saved_sections (sw_dirty (pw_page w)))\<rparr>\<rparr>,
           pw_window_saved := Some (oput ''publishers'' snapshot
             (ospread [] (case pw_window_saved w of Some s \<Rightarrow> s | None \<Rightarrow> [])))\<rparr>)"

definition init_publisher_selection :: "'n pub_env \<Rightarrow> 'n pub_world \<Rightarrow> 'n pub_world" where
  "init_publisher_selection env w =
     (let nav = pw_nav w;
          selected = (case index_in_hash Publishers (hash nav) of
              Some i \<Rightarrow> i
            | None \<Rightarrow> min (value_or 0 (win_last_publisher_idx nav)) (max (last_index w) 0));
          tab = (case win_last_publisher_tab nav of Some t \<Rightarrow> t | None \<Rightarrow> []);
          w1 = pub_panel_do (\<lambda>p. p\<lparr>ps_has := (pub_rows w \<noteq> []), ps_items := publisher_items (pub_rows w),
                 ps_grouped := grouped_publishers env w, ps_history_index := -1\<rparr>)
            (w\<lparr>pw_nav := nav\<lparr>pub_selected := selected\<rparr>\<rparr>)
      in restore_publisher_view env selected (if tab = [] then ''payload'' else tab) w1)"

definition init_publishers :: "'n pub_env \<Rightarrow> ('n pub_world, unit) promise" where
  "init_publishers env w =
     (let w1 = w\<lparr>pw_page := (pw_page w)\<lparr>sw_config := ensure_workspace_collections (se_origin (pe_save env))
            (\<lambda>i. pe_fresh env ''publisher'' (pw_ids w + i)) (pub_config w)\<rparr>\<rparr>;
          w2 = load_local_state (forget_publisher_session (w1\<lparr>pw_ids := pw_ids w + 2 * length (pub_rows w1)\<rparr>))
      in await (hydrate_history env)
           (\<lambda>_. doing (\<lambda>w. init_publisher_selection env (remember_publishers
              (sync_consumer_publisher_references [] [] (normalize_rows env (pub_rows w) w))))) w2)"

end
