(* ===== verification/ConsumerFacts.thy ===== *)
theory ConsumerFacts
  imports ConsumerRuntime
begin

text \<open>What the consumers panel guarantees.\<close>

section \<open>What drawing leaves alone\<close>

lemma rows_at_put_rows [simp]:
  "rows_at (live_config (put_rows k rows w)) j = (if j = k then rows else rows_at (live_config w) j)"
  by (simp add: put_rows_def rows_at_def o_def)

lemma put_rows_frame [simp]:
  "cw_nav (put_rows k rows w) = cw_nav w" "cw_panel (put_rows k rows w) = cw_panel w"
  "cw_messages (put_rows k rows w) = cw_messages w" "cw_runtime (put_rows k rows w) = cw_runtime w"
  "cw_final_poll (put_rows k rows w) = cw_final_poll w" "cw_last_sequence (put_rows k rows w) = cw_last_sequence w"
  "cw_drafts (put_rows k rows w) = cw_drafts w" "cw_next_row (put_rows k rows w) = cw_next_row w"
  "cw_window_saved (put_rows k rows w) = cw_window_saved w" "cw_errors (put_rows k rows w) = cw_errors w"
  "sw_net (cw_page (put_rows k rows w)) = sw_net (cw_page w)"
  by (simp_all add: put_rows_def)

lemma on_panel_frame [simp]:
  "cw_nav (on_panel f w) = cw_nav w" "cw_page (on_panel f w) = cw_page w" "cw_panel (on_panel f w) = f (cw_panel w)"
  "cw_messages (on_panel f w) = cw_messages w" "cw_runtime (on_panel f w) = cw_runtime w"
  "cw_final_poll (on_panel f w) = cw_final_poll w" "cw_last_sequence (on_panel f w) = cw_last_sequence w"
  "cw_drafts (on_panel f w) = cw_drafts w" "cw_next_row (on_panel f w) = cw_next_row w"
  "cw_window_saved (on_panel f w) = cw_window_saved w" "cw_errors (on_panel f w) = cw_errors w"
  by (simp_all add: on_panel_def)

text \<open>What the panel works on, apart from what it draws and the identifiers it hands out.\<close>

definition work :: "('n, 's) cons_world \<Rightarrow> obj list \<times> nav_state \<times> obj \<times> obj \<times> (string \<times> string) list \<times> (string \<times> int) list \<times> (int \<times> obj) list" where
  "work w = (consumers_of w, cw_nav w, cw_messages w, cw_runtime w, cw_final_poll w, cw_last_sequence w, cw_drafts w)"

lemma work_options [simp]: "work (snd (next_publisher_options env w)) = work w"
  by (simp add: next_publisher_options_def work_def Let_def split: prod.split)

lemma work_show [simp]: "work (show_consumer env options c w) = work w"
  by (simp add: show_consumer_def work_def Let_def on_panel_def split: prod.split)

lemma work_details [simp]: "work (render_message_details env w) = work w"
  by (simp add: render_message_details_def work_def Let_def on_panel_def split: option.split)

lemma work_render [simp]: "work (render_selected_consumer env w) = work w"
proof (cases "current_consumer w")
  case None
  then show ?thesis by (simp add: render_selected_consumer_def work_def on_panel_def)
next
  case (Some c)
  obtain options w' where o: "next_publisher_options env w = (options, w')" by force
  with work_options [of env w] have "work w' = work w" by simp
  with Some o show ?thesis by (simp add: render_selected_consumer_def)
qed

lemma consumer_render_frame [simp]:
  "consumers_of (render_selected_consumer env w) = consumers_of w"
  "cw_nav (render_selected_consumer env w) = cw_nav w"
  "cw_messages (render_selected_consumer env w) = cw_messages w"
  "cw_runtime (render_selected_consumer env w) = cw_runtime w"
  "cw_final_poll (render_selected_consumer env w) = cw_final_poll w"
  "cw_last_sequence (render_selected_consumer env w) = cw_last_sequence w"
  "cw_drafts (render_selected_consumer env w) = cw_drafts w"
  using work_render [of env w] by (simp_all add: work_def)

lemma current_consumer_cong:
  "consumers_of v = consumers_of w \<Longrightarrow> cw_nav v = cw_nav w \<Longrightarrow> current_consumer v = current_consumer w"
  by (simp add: current_consumer_def Let_def)

lemma current_on_panel [simp]: "current_consumer (on_panel f w) = current_consumer w"
  by (rule current_consumer_cong) simp_all

lemma current_render [simp]: "current_consumer (render_selected_consumer env w) = current_consumer w"
  by (rule current_consumer_cong) simp_all

lemma persist_frame [simp]:
  "cw_messages (persist_messages env w) = cw_messages w" "cw_page (persist_messages env w) = cw_page w"
  "cw_nav (persist_messages env w) = cw_nav w" "cw_runtime (persist_messages env w) = cw_runtime w"
  "cw_final_poll (persist_messages env w) = cw_final_poll w" "cw_last_sequence (persist_messages env w) = cw_last_sequence w"
  "cw_panel (persist_messages env w) = cw_panel w"
  by (simp_all add: persist_messages_def Let_def)

section \<open>The published status\<close>

lemma status_member: "oget (map (\<lambda>(name, c). (name, consumer_json c)) cs) key \<noteq> Undef \<Longrightarrow>
    \<exists>c. oget (map (\<lambda>(name, c). (name, consumer_json c)) cs) key = consumer_json c"
  by (induction cs) (auto simp: oget_def split: if_splits option.splits)

lemma no_outcome: "jget (consumer_json c) ''outcome'' = Undef"
  by (simp add: consumer_json_def oget_def)

lemma outcome_lost:
  assumes run: "cw_runtime w = map (\<lambda>(name, c). (name, consumer_json c)) cs"
  shows "jget (status_of env w consumer) ''outcome'' = Undef"
    and "\<not> truthy (jget (status_of env w consumer) ''running'') \<Longrightarrow> plan_poll env consumer w = None"
proof -
  let ?s = "oget (cw_runtime w) (runtime_key env consumer)"
  have out: "jget ?s ''outcome'' = Undef"
    using status_member [of cs "runtime_key env consumer"] no_outcome unfolding run by (metis jget.simps(4))
  have st: "status_of env w consumer = js_or ?s empty_status"
    by (simp add: status_of_def get_consumer_status_def runtime_key_def)
  then show "jget (status_of env w consumer) ''outcome'' = Undef"
    using out by (simp add: js_or_def empty_status_def oget_def)
  assume "\<not> truthy (jget (status_of env w consumer) ''running'')"
  then have "\<not> truthy (jget ?s ''running'')"
    using st by (cases ?s) (auto simp: js_or_def split: if_splits)
  with out show "plan_poll env consumer w = None" by (simp add: plan_poll_def Let_def)
qed

text \<open>C23: How a finished consumer ended is lost on the way from the server to the panel: whatever the server
  reports, the status the poller has published has no outcome for any consumer. So no panel shows
  how a consumer ended, and a consumer that does not run is never asked for its last messages.\<close>

theorem outcome_never_reaches_panel:
  "terminal_key (status_of env (status_published env (normalize_status raw) w) consumer) = None
    \<and> finished_status_text (status_of env (status_published env (normalize_status raw) w) consumer) = []
    \<and> (truthy (jget (status_of env (status_published env (normalize_status raw) w) consumer) ''running'')
       \<or> plan_poll env consumer (status_published env (normalize_status raw) w) = None)"
proof -
  let ?w = "status_published env (normalize_status raw) w"
  have "cw_runtime ?w = map (\<lambda>(name, c). (name, consumer_json c)) (status_consumers (normalize_status raw))"
    by (simp add: status_published_def)
  note lost = outcome_lost [OF this, of env consumer]
  have "terminal_key (status_of env ?w consumer) = None" "finished_status_text (status_of env ?w consumer) = []"
    using lost(1) by (simp_all add: terminal_key_def finished_status_text_def)
  then show ?thesis using lost(2) by (intro conjI) (simp_all, metis)
qed

section \<open>A panel to run\<close>

text \<open>One consumer that has completed, and a server that answers every request with one message.\<close>

definition answering_server :: "string \<Rightarrow> nat fetch" where
  "answering_server body rq n =
     (Inr \<lparr>rs_ok = True, rs_status = 200, rs_status_text = [], rs_body = Some body\<rparr>, Suc n)"

abbreviation message_server :: "nat fetch" where
  "message_server \<equiv> answering_server ''{\"c1\":[7]}''"

definition sample_cons_env :: "'n fetch \<Rightarrow> ('n, browser) cons_env" where
  "sample_cons_env f = \<lparr>ce_save = sample_save_env f, ce_strip = id, ce_lc = (\<lambda>_ _. 0),
     ce_urls = \<lparr>ua_parse = (\<lambda>_. None), ua_plain = (\<lambda>_. None), ua_root = (\<lambda>_. None)\<rparr>,
     ce_kinds = \<lparr>known_root_keys = [], publisher_options = [], consumer_options = [], structural_kinds = [],
       response_capable = [], basic_endpoint_fields = [], request_bar_layouts = []\<rparr>,
     ce_fresh = (\<lambda>prefix n. prefix @ ''-'' @ nat_str n), ce_now = 0, ce_now_iso = ''now'', ce_millis = (\<lambda>_. None),
     ce_local_time = int_str, ce_backend = local_storage_backend, ce_aead = framing_aead, ce_nonce = [],
     ce_schema = JObj [], ce_form_container = False\<rparr>"

definition sample_nav :: nav_state where
  "sample_nav = \<lparr>hash = [], active_tab = Consumers, consumers_initialized = True, publishers_initialized = True,
     config_initialized = False, pending_consumer_restore = None, pending_publisher_restore = None,
     last_consumer_idx = None, last_publisher_idx = None, last_consumer_tab = [], last_publisher_tab = [],
     win_last_publisher_idx = None, win_last_publisher_tab = None, cons_selected = 0, cons_subtab = [],
     pub_selected = 0, pub_subtab = [], n_consumers = 1, n_publishers = 1\<rparr>"

definition sample_cons_panel :: cons_panel where
  "sample_cons_panel = \<lparr>pn_has = True, pn_key = Some ''c1'', pn_items = [], pn_grouped = [], pn_message = -1,
     pn_new = False, pn_delete_label = [], pn_capture_enabled = True, pn_keep_last = 100, pn_output_mode = ''response'',
     pn_options = [], pn_publisher = [], pn_response_supported = True,
     pn_headers = [\<lparr>hr_id = 1, hr_key = ''a'', hr_value = ''b'', hr_enabled = True\<rparr>], pn_payload = [],
     pn_status_text = [], pn_status_variant = [], pn_toggle_label = [], pn_toggle_variant = [], pn_toggle_busy = False,
     pn_log = [], pn_detail = \<lparr>dt_info = [], dt_request_payload = [], dt_request_headers = [], dt_response_payload = [],
       dt_response_headers = [], dt_request_type = [], dt_response_type = [], dt_has_response = False\<rparr>\<rparr>"

definition sample_consumer :: obj where
  "sample_consumer = [(''id'', JStr ''c1''), (''name'', JStr ''orders''), (''message_capture'', JObj [(''keep_last'', JNum 2)])]"

definition sample_cons_world :: "'n \<Rightarrow> ('n, browser) cons_world" where
  "sample_cons_world n = \<lparr>cw_page = (sample_page n)\<lparr>sw_config := [(''consumers'', JArr [JObj sample_consumer])]\<rparr>,
     cw_nav = sample_nav, cw_panel = sample_cons_panel, cw_drafts = [],
     cw_messages = [(''c1'', JArr [JNum 1, JNum 2])], cw_next_row = 2, cw_last_sequence = [], cw_final_poll = [],
     cw_errors = [], cw_form = None, cw_signature = None,
     cw_runtime = [(''c1'', JObj [(''running'', JBool False), (''outcome'', JStr ''completed'')])],
     cw_window_saved = Some [(''consumers'', JArr [])], cw_cached_messages = JObj [], cw_store = Without_storage,
     cw_ids = 0, cw_notices = []\<rparr>"

lemmas sample_cons_defs = sample_cons_env_def sample_cons_world_def sample_nav_def sample_cons_panel_def
  sample_consumer_def sample_page_def sample_save_env_def

lemma sample_current: "current_consumer (sample_cons_world n) = Some sample_consumer"
  by (simp add: current_consumer_def sample_cons_world_def sample_nav_def rows_at_def oget_def)

lemma sample_key: "runtime_key (sample_cons_env f) sample_consumer = ''c1''"
  by (simp add: runtime_key_def get_runtime_key_def sample_consumer_def oget_def)

lemma sample_plan:
  "plan_poll (sample_cons_env f) sample_consumer (sample_cons_world n)
    = Some \<lparr>pp_key = ''c1'', pp_sequence = 0, pp_terminal = Some ''completed:0'', pp_keep_last = 2\<rparr>"
proof -
  have "int_str 0 = ''0''" by code_simp
  then show ?thesis
    unfolding plan_poll_def sample_key
    by (simp add: sample_cons_world_def sample_consumer_def terminal_key_def status_number_def oget_def
      normalize_message_capture_def coalesce_def)
qed

lemma sample_answer:
  "\<exists>w1. ask (sample_cons_env message_server) rq (sample_cons_world 0)
    = (Inr \<lparr>rs_ok = True, rs_status = 200, rs_status_text = [], rs_body = Some ''{\"c1\":[7]}''\<rparr>, w1)"
  by (simp add: ask_def on_page_def on_net_def sample_cons_env_def sample_save_env_def answering_server_def)

lemma sample_body: "parse_json ''{\"c1\":[7]}'' = Some (JObj [(''c1'', JArr [JNum 7])])"
  by code_simp

section \<open>Capturing messages\<close>

lemma ask_frame:
  assumes "ask env rq w = (r, w')"
  shows "consumers_of w' = consumers_of w" "cw_runtime w' = cw_runtime w" "cw_messages w' = cw_messages w"
    "cw_final_poll w' = cw_final_poll w" "cw_last_sequence w' = cw_last_sequence w" "cw_panel w' = cw_panel w"
  using assms by (auto simp: ask_def on_page_def on_net_def split: prod.splits)

lemma plan_poll_cong:
  "cw_runtime w' = cw_runtime w \<Longrightarrow> cw_messages w' = cw_messages w \<Longrightarrow> cw_final_poll w' = cw_final_poll w
    \<Longrightarrow> cw_last_sequence w' = cw_last_sequence w \<Longrightarrow> plan_poll env c w' = plan_poll env c w"
  by (simp add: plan_poll_def Let_def)

lemma plan_pollD:
  assumes "plan_poll env c w = Some plan"
  shows "pp_key plan = runtime_key env c"
    "pp_terminal plan = terminal_key (oget (cw_runtime w) (runtime_key env c))"
    "pp_keep_last plan = cp_keep_last (normalize_message_capture (oget c ''message_capture''))"
    "pp_terminal plan = None \<or> map_of (cw_final_poll w) (runtime_key env c) \<noteq> pp_terminal plan"
  using assms by (auto simp: plan_poll_def Let_def split: if_splits)

lemma poll_consumer_cases:
  assumes "poll_consumer env c w = (res, w')"
  obtains (quiet) "plan_poll env c w = None" "w' = w"
  | (missed) plan r w1 where "plan_poll env c w = Some plan" "ask env (messages_request (pp_key plan)) w = (r, w1)" "w' = w1"
      "\<nexists>x payload. r = Inr x \<and> rs_ok x \<and> response_json x = Inr payload"
  | (landed) plan r payload w1 where "plan_poll env c w = Some plan"
      "ask env (messages_request (pp_key plan)) w = (Inr r, w1)" "rs_ok r" "response_json r = Inr payload"
      "w' = land_messages env plan c payload w1"
proof (cases "plan_poll env c w")
  case None
  then have "w' = w" using assms by (simp add: poll_consumer_def)
  with None show ?thesis by (rule quiet)
next
  case (Some plan)
  obtain r w1 where a: "ask env (messages_request (pp_key plan)) w = (r, w1)" by force
  show ?thesis
  proof (cases "\<exists>x payload. r = Inr x \<and> rs_ok x \<and> response_json x = Inr payload")
    case True
    then obtain x payload where x: "r = Inr x" "rs_ok x" "response_json x = Inr payload" by blast
    have "w' = land_messages env plan c payload w1"
      using assms a x Some by (simp add: poll_consumer_def await_def resolved_def doing_def)
    with Some a x(2,3) show ?thesis unfolding x(1) by (rule landed)
  next
    case False
    then have "w' = w1"
      using assms a Some by (auto simp: poll_consumer_def await_def resolved_def split: sum.splits if_splits)
    with Some a show ?thesis using False by (rule missed)
  qed
qed

lemma land_frame [simp]:
  "cw_runtime (land_messages env plan c payload w) = cw_runtime w"
  "consumers_of (land_messages env plan c payload w) = consumers_of w"
  "cw_final_poll (land_messages env plan c payload w)
    = (case pp_terminal plan of Some k \<Rightarrow> oput (pp_key plan) k (cw_final_poll w) | None \<Rightarrow> cw_final_poll w)"
  "cw_messages (land_messages env plan c payload w) = oput (get_storage_key c) (JArr (slice_to (pp_keep_last plan)
      (map (normalize_consumer_message (ce_now_iso env)) (raw_rows env c payload) @ consumer_messages_for (cw_messages w) c)))
      (cw_messages w)"
  by (simp_all add: land_messages_def put_messages_def Let_def split: option.split)

text \<open>The last messages of the consumers under a key have been taken.\<close>

definition settled :: "string \<Rightarrow> ('n, 's) cons_world \<Rightarrow> bool" where
  "settled key w \<longleftrightarrow> terminal_key (oget (cw_runtime w) key) \<noteq> None
     \<and> map_of (cw_final_poll w) key = terminal_key (oget (cw_runtime w) key)"

lemma settled_quiet: "settled (runtime_key env c) w \<Longrightarrow> plan_poll env c w = None"
  by (auto simp: settled_def plan_poll_def Let_def)

lemma settled_poll: "settled key w \<Longrightarrow> settled key (snd (poll_consumer env c w))"
proof -
  assume s: "settled key w"
  obtain res w' where p: "poll_consumer env c w = (res, w')" by force
  then show ?thesis
  proof (cases rule: poll_consumer_cases)
    case quiet
    with s p show ?thesis by simp
  next
    case (missed plan r w1)
    with s p ask_frame [OF missed(2)] show ?thesis by (simp add: settled_def)
  next
    case (landed plan r payload w1)
    have "runtime_key env c \<noteq> key" using settled_quiet [of env c w] s landed(1) by auto
    with s p ask_frame [OF landed(2)] landed(5) plan_pollD(1) [OF landed(1)] show ?thesis
      by (auto simp: settled_def update_conv' split: option.split)
  qed
qed

lemma settled_each: "settled key w \<Longrightarrow> settled key (snd (each (poll_consumer env) cs w))"
proof (induction cs arbitrary: w)
  case Nil
  then show ?case by (simp add: doing_def)
next
  case (Cons c cs)
  obtain res w1 where p: "poll_consumer env c w = (res, w1)" by force
  with settled_poll [OF Cons.prems, of env c] have "settled key w1" by simp
  with Cons.IH [OF this] p show ?case by (auto simp: await_def split: sum.split)
qed

lemma settled_turn: "settled key w \<Longrightarrow> settled key (message_poll_turn env w)"
  using settled_each [of key w env "consumers_of w"]
  by (simp add: message_poll_turn_def fetch_new_messages_def settled_def)

lemma settled_turns: "settled key w \<Longrightarrow> settled key ((message_poll_turn env ^^ n) w)"
  by (induction n) (simp_all add: settled_turn)



lemma keep_last_pos: "1 \<le> cp_keep_last (normalize_message_capture v)"
  by (simp add: normalize_message_capture_def default_keep_last_def split: jval.split)

lemma messages_for_put [simp]: "consumer_messages_for (oput (get_storage_key c) (JArr rows) m) c = rows"
  by (simp add: consumer_messages_for_def)

lemma messages_for_put_other:
  "get_storage_key d \<noteq> k \<Longrightarrow> legacy_name_key d \<noteq> k \<Longrightarrow> consumer_messages_for (oput k v m) d = consumer_messages_for m d"
  by (auto simp: consumer_messages_for_def split: jval.split)

text \<open>C6: The capture is bounded and loses nothing it need not lose: after an answer has arrived the
  panel holds the newest \<open>keep_last\<close> of the messages received followed by those it held, so at most
  \<open>keep_last\<close>, which is at least one. The messages of a consumer known under other keys are untouched.\<close>

theorem captured_messages_bounded:
  assumes "plan_poll env c w = Some plan"
    and "ask env (messages_request (runtime_key env c)) w = (Inr r, w1)" and "rs_ok r" and "response_json r = Inr payload"
    and "poll_consumer env c w = (res, w')"
    and "k = cp_keep_last (normalize_message_capture (oget c ''message_capture''))"
  shows "consumer_messages_for (cw_messages w') c
      = take (nat k) (map (normalize_consumer_message (ce_now_iso env)) (raw_rows env c payload)
          @ consumer_messages_for (cw_messages w) c)
    \<and> 1 \<le> k \<and> length (consumer_messages_for (cw_messages w') c) \<le> nat k
    \<and> (get_storage_key c \<in> {get_storage_key d, legacy_name_key d}
       \<or> consumer_messages_for (cw_messages w') d = consumer_messages_for (cw_messages w) d)"
proof -
  have k: "1 \<le> k" unfolding assms(6) by (rule keep_last_pos)
  note plan = plan_pollD [OF assms(1)]
  have "w' = land_messages env plan c payload w1"
    using assms(1-5) plan(1) by (simp add: poll_consumer_def await_def resolved_def doing_def)
  moreover have "get_storage_key c \<in> {get_storage_key d, legacy_name_key d}
      \<or> consumer_messages_for (oput (get_storage_key c) v m) d = consumer_messages_for m d" for v m
    using messages_for_put_other [of d "get_storage_key c" v m] by (metis insert_iff)
  ultimately show ?thesis
    using ask_frame [OF assms(2)] k plan(3) assms(6) by (simp add: slice_to_def)
qed

theorem captured_messages_bounded_witness:
  "length (consumer_messages_for (cw_messages (snd (poll_consumer (sample_cons_env message_server) sample_consumer
      (sample_cons_world 0)))) sample_consumer) \<le> 2"
proof -
  let ?env = "sample_cons_env message_server"
  obtain w1 where a: "ask ?env (messages_request (runtime_key ?env sample_consumer)) (sample_cons_world 0)
      = (Inr \<lparr>rs_ok = True, rs_status = 200, rs_status_text = [], rs_body = Some ''{\"c1\":[7]}''\<rparr>, w1)"
    using sample_answer by blast
  obtain res w' where p: "poll_consumer ?env sample_consumer (sample_cons_world 0) = (res, w')" by force
  have k: "2 = cp_keep_last (normalize_message_capture (oget sample_consumer ''message_capture''))"
    by (simp add: sample_consumer_def normalize_message_capture_def oget_def)
  from captured_messages_bounded [OF sample_plan a _ _ p k, of _ sample_consumer] show ?thesis
    by (simp add: p response_json_def sample_body)
qed

section \<open>The rows of the response\<close>

lemma current_put_current: "current_consumer w = Some c \<Longrightarrow> current_consumer (put_current c' w) = Some c'"
  by (auto simp: current_consumer_def put_current_def Let_def split: if_splits)

lemma rows_match_applied:
  "response_rows_match_consumer (pn_headers p) (apply_response_state p c)"
proof -
  let ?hs = "headers_from_response_rows (pn_headers p)"
  have d: "distinct (map fst ?hs)" by (simp add: headers_from_response_rows_def)
  have "obj_entries (JObj (map (\<lambda>(k, v). (k, JStr v)) ?hs)) = map (\<lambda>(k, v). (k, JStr v)) (own_entries ?hs)"
    by (simp add: own_entries_map_snd)
  moreover have "map_option JStr (map_of ?hs k) = Some (JStr v)" if "(k, v) \<in> set (own_entries ?hs)" for k v
    using that d by simp
  ultimately show ?thesis
    by (auto simp: response_rows_match_consumer_def apply_response_state_def response_json_doc_def Let_def list_all_iff)
qed

lemma apply_keeps_key: "runtime_key env (apply_response_state p c) = runtime_key env c"
  by (simp add: runtime_key_def get_runtime_key_def apply_response_state_def Let_def)

lemma options_frame [simp]:
  "cw_panel (snd (next_publisher_options env w)) = cw_panel w"
  "cw_next_row (snd (next_publisher_options env w)) = cw_next_row w"
  by (simp_all add: next_publisher_options_def Let_def split: prod.split)

lemma render_keeps_rows:
  assumes "current_consumer w = Some c" "pn_key (cw_panel w) = Some (runtime_key env c)"
    and "response_rows_match_consumer (pn_headers (cw_panel w)) c"
  shows "pn_headers (cw_panel (render_selected_consumer env w)) = pn_headers (cw_panel w)
    \<and> pn_key (cw_panel (render_selected_consumer env w)) = pn_key (cw_panel w)
    \<and> cw_next_row (render_selected_consumer env w) = cw_next_row w"
proof -
  obtain options w' where o: "next_publisher_options env w = (options, w')" by force
  then have w': "cw_panel w' = cw_panel w" "cw_next_row w' = cw_next_row w" by (metis options_frame snd_conv)+
  have "pn_headers (cw_panel (show_consumer env options c w')) = pn_headers (cw_panel w)
    \<and> pn_key (cw_panel (show_consumer env options c w')) = pn_key (cw_panel w)
    \<and> cw_next_row (show_consumer env options c w') = cw_next_row w"
    using assms w' by (simp add: show_consumer_def show_items_def Let_def)
  with assms(1) o show ?thesis
    by (auto simp: render_selected_consumer_def render_message_details_def Let_def split: option.split)
qed

text \<open>C20: An edit of the response headers in progress survives every redrawing: after any change of the
  rows (a new blank row, a row switched off, a key or value half typed) the panel redraws with the
  same rows, identifiers included, although blank and disabled rows are not stored in the consumer.\<close>

theorem header_rows_survive_redraw:
  assumes "current_consumer w = Some c" and "pn_key (cw_panel w) = Some (runtime_key env c)"
  shows "pn_headers (cw_panel ((render_selected_consumer env ^^ n) (edit_headers f w))) = f (pn_headers (cw_panel w))"
proof -
  let ?w = "edit_headers f w" and ?p = "(cw_panel w)\<lparr>pn_headers := f (pn_headers (cw_panel w))\<rparr>"
  let ?c = "apply_response_state ?p c"
  have cur: "current_consumer (on_panel (\<lambda>p. p\<lparr>pn_headers := f (pn_headers p)\<rparr>) w) = Some c"
    using assms(1) by simp
  then have e: "?w = put_current ?c (on_panel (\<lambda>p. p\<lparr>pn_headers := f (pn_headers p)\<rparr>) w)"
    by (simp add: edit_headers_def apply_response_state_to_current_def)
  have "current_consumer ((render_selected_consumer env ^^ n) ?w) = Some ?c
    \<and> pn_headers (cw_panel ((render_selected_consumer env ^^ n) ?w)) = pn_headers ?p
    \<and> pn_key (cw_panel ((render_selected_consumer env ^^ n) ?w)) = Some (runtime_key env c)"
  proof (induction n)
    case 0
    show ?case using current_put_current [OF cur] assms(2) by (simp add: e) (simp add: put_current_def)
  next
    case (Suc n)
    let ?v = "(render_selected_consumer env ^^ n) ?w"
    have "response_rows_match_consumer (pn_headers (cw_panel ?v)) ?c"
      using rows_match_applied [of ?p c] Suc by simp
    with render_keeps_rows [of ?v ?c env] Suc show ?case by (simp add: apply_keeps_key)
  qed
  then show ?thesis by simp
qed

theorem header_rows_survive_redraw_witness:
  "length (pn_headers (cw_panel ((render_selected_consumer (sample_cons_env message_server) ^^ 3)
      (add_consumer_response_header (sample_cons_world 0))))) = 2"
proof -
  let ?w = "(sample_cons_world 0)\<lparr>cw_next_row := 3\<rparr>" and ?env = "sample_cons_env message_server"
  have c: "current_consumer ?w = Some sample_consumer"
    by (rule trans [OF current_consumer_cong sample_current]) simp_all
  have "pn_key (cw_panel ?w) = Some (runtime_key ?env sample_consumer)"
    unfolding sample_key by (simp add: sample_cons_world_def sample_cons_panel_def)
  from header_rows_survive_redraw [OF c this, of 3] show ?thesis
    by (simp add: add_consumer_response_header_def sample_cons_world_def sample_cons_panel_def)
qed

end
