(* ===== verification/PanelRuns.thy ===== *)
theory PanelRuns
  imports ConsumersView
begin

text \<open>
  What the two panels have in common: each edits one list of entities of the live configuration, is started
  once and then takes any sequence of actions. The interface \<open>panel_actions\<close> collects what its provider
  proves of the start and of a single action; the lemma inside it is about every state that is reached.
\<close>

definition entity_rows :: "(obj \<Rightarrow> bool) \<Rightarrow> jval \<Rightarrow> bool" where
  "entity_rows ok v \<longleftrightarrow> (case v of JArr xs \<Rightarrow> \<forall>x \<in> set xs. is_record x \<and> ok (record_or_empty x) | _ \<Rightarrow> False)"

lemma entity_rows_map [simp]: "entity_rows ok (JArr (map JObj rows)) \<longleftrightarrow> (\<forall>r \<in> set rows. ok r)"
  by (auto simp: entity_rows_def)

lemma entity_rows_at: "entity_rows ok (oget config k) \<Longrightarrow> \<forall>r \<in> set (rows_at config k). ok r"
  by (auto simp: entity_rows_def rows_at_def split: jval.splits)

lemma entity_rows_list:
  assumes "entity_rows ok v"
  shows "\<exists>rows. v = JArr (map JObj rows) \<and> (\<forall>r \<in> set rows. ok r)"
proof -
  from assms obtain xs where xs: "v = JArr xs" "\<forall>x \<in> set xs. is_record x \<and> ok (record_or_empty x)"
    by (auto simp: entity_rows_def split: jval.splits)
  have "x = JObj (record_or_empty x)" if "x \<in> set xs" for x
    using xs(2) that by (cases x) auto
  then have "map JObj (map record_or_empty xs) = xs" by (simp add: map_idI)
  with xs show ?thesis by (intro exI [of _ "map record_or_empty xs"]) auto
qed

inductive panel_run :: "('w \<Rightarrow> bool) \<Rightarrow> ('w \<Rightarrow> 'w \<Rightarrow> bool) \<Rightarrow> 'w \<Rightarrow> bool" for started next_state where
  start: "started w \<Longrightarrow> panel_run started next_state w"
| step: "panel_run started next_state w \<Longrightarrow> next_state w w' \<Longrightarrow> panel_run started next_state w'"

locale panel_actions =
  fixes sound :: bool and started :: "'w \<Rightarrow> bool" and next_state :: "'w \<Rightarrow> 'w \<Rightarrow> bool"
    and live :: "'w \<Rightarrow> jval" and ok :: "obj \<Rightarrow> bool"
  assumes start_ok: "sound \<Longrightarrow> started w \<Longrightarrow> entity_rows ok (live w)"
    and action_ok: "sound \<Longrightarrow> next_state w w' \<Longrightarrow> entity_rows ok (live w) \<Longrightarrow> entity_rows ok (live w')"
begin

lemma reached_ok:
  assumes "panel_run started next_state w" and sound
  shows "entity_rows ok (live w)"
  using assms by (induction rule: panel_run.induct) (use start_ok action_ok in blast)+

lemma reached_rows:
  "panel_run started next_state w \<Longrightarrow> sound \<Longrightarrow> \<exists>rows. live w = JArr (map JObj rows) \<and> (\<forall>r \<in> set rows. ok r)"
  by (rule entity_rows_list [OF reached_ok])

end

end
