(* ===== verification/ConsumerInvariant.thy ===== *)
theory ConsumerInvariant
  imports ConsumerFacts PanelRuns
begin

text \<open>Every consumer the panel works on is well formed, whatever the user and the server do.\<close>

section \<open>What the parser accepts\<close>

definition sound_values :: "nat \<Rightarrow> bool" where
  "sound_values n \<longleftrightarrow> (\<forall>s v r. parse_value n s = Some (v, r) \<longrightarrow> wf_jval v \<and> v \<noteq> Undef)"

definition sound_lists :: "nat \<Rightarrow> bool" where
  "sound_lists n \<longleftrightarrow> (\<forall>s vs r. parse_elems n s = Some (vs, r) \<longrightarrow> (\<forall>v \<in> set vs. wf_jval v))
     \<and> (\<forall>s es r. parse_members n s = Some (es, r) \<longrightarrow> (\<forall>(k, v) \<in> set es. wf_jval v))"

lemma sound_number: "parse_number t = Some (v, r) \<Longrightarrow> wf_jval v \<and> v \<noteq> Undef"
  by (auto simp: parse_number_def Let_def split: if_splits)

lemma sound_values_Suc:
  assumes l: "sound_lists n"
  shows "sound_values (Suc n)"
proof -
  have elems: "parse_elems n t = Some (vs, q) \<Longrightarrow> wf_jval (JArr vs)" for t vs q
    using l unfolding sound_lists_def by auto
  have members: "parse_members n t = Some (es, q) \<Longrightarrow> wf_jval (JObj (own_entries (from_entries es)))" for t es q
    using l set_from_entries [of es] unfolding sound_lists_def by fastforce
  have "wf_jval v \<and> v \<noteq> Undef" if p: "parse_value (Suc n) s = Some (v, r)" for s v r
  proof -
    obtain c t where s: "skip_space s = c # t" using p by (cases "skip_space s") simp_all
    consider "c = CHR 0x22" | "c = CHR ''[''" | "c = CHR ''{''"
      | "c \<noteq> CHR 0x22" "c \<noteq> CHR ''[''" "c \<noteq> CHR ''{''" by blast
    then show ?thesis
    proof cases
      case 1
      with p show ?thesis by (auto simp: s)
    next
      case 2
      with p obtain d r' where d: "skip_space t = d # r'" by (cases "skip_space t") (simp_all add: s)
      have "v = JArr [] \<or> (\<exists>vs. parse_elems n t = Some (vs, r) \<and> v = JArr vs)"
        using p 2 by (auto simp: s d split: if_splits)
      then show ?thesis using elems by auto
    next
      case 3
      with p obtain d r' where d: "skip_space t = d # r'" by (cases "skip_space t") (simp_all add: s)
      have "v = JObj [] \<or> (\<exists>es. parse_members n t = Some (es, r) \<and> v = JObj (own_entries (from_entries es)))"
        using p 3 by (auto simp: s d split: if_splits)
      then show ?thesis using members by auto
    next
      case 4
      with p have "v \<in> {Null, JBool True, JBool False} \<or> parse_number (c # t) = Some (v, r)"
        by (auto simp: s split: if_splits)
      then show ?thesis using sound_number by auto
    qed
  qed
  then show ?thesis unfolding sound_values_def by blast
qed

lemma sound_lists_Suc:
  assumes v: "sound_values n" and l: "sound_lists n"
  shows "sound_lists (Suc n)"
proof -
  have value_sound: "parse_value n t = Some (x, q) \<Longrightarrow> wf_jval x" for t x q
    using v unfolding sound_values_def by blast
  have elems_sound: "parse_elems n t = Some (vs, q) \<Longrightarrow> x \<in> set vs \<Longrightarrow> wf_jval x" for t vs q x
    using l unfolding sound_lists_def by blast
  have members_sound: "parse_members n t = Some (es, q) \<Longrightarrow> (k, x) \<in> set es \<Longrightarrow> wf_jval x" for t es q k x
    using l unfolding sound_lists_def by blast
  have "wf_jval x" if p: "parse_elems (Suc n) s = Some (vs, r)" and x: "x \<in> set vs" for s vs r x
  proof -
    obtain y r' where y: "parse_value n s = Some (y, r')" using p by (cases "parse_value n s") auto
    obtain d r'' where d: "skip_space r' = d # r''" using p by (cases "skip_space r'") (auto simp: y)
    have "vs = [y] \<or> (\<exists>vs' q. parse_elems n r'' = Some (vs', q) \<and> vs = y # vs')"
      using p by (auto simp: y d split: if_splits)
    then show ?thesis using x value_sound [OF y] elems_sound by auto
  qed
  moreover have "wf_jval x" if p: "parse_members (Suc n) s = Some (es, r)" and x: "(k, x) \<in> set es" for s es r k x
  proof -
    obtain c t where s: "skip_space s = c # t" using p by (cases "skip_space s") simp_all
    obtain k' q where k: "c = CHR 0x22" "parse_chars t = Some (k', q)"
      using p by (cases "parse_chars t") (auto simp: s split: if_splits)
    obtain e q' where q: "skip_space q = e # q'" "e = CHR '':''"
      using p by (cases "skip_space q") (auto simp: s k split: if_splits)
    obtain y r' where y: "parse_value n q' = Some (y, r')"
      using p by (cases "parse_value n q'") (auto simp: s k q)
    obtain d r'' where d: "skip_space r' = d # r''"
      using p by (cases "skip_space r'") (auto simp: s k q y)
    have "es = [(k', y)] \<or> (\<exists>es' q. parse_members n r'' = Some (es', q) \<and> es = (k', y) # es')"
      using p by (auto simp: s k q y d split: if_splits)
    then show ?thesis using x value_sound [OF y] members_sound by auto
  qed
  ultimately show ?thesis unfolding sound_lists_def by blast
qed

lemma parse_sound: "sound_values n \<and> sound_lists n"
proof (induction n)
  case 0
  show ?case by (simp add: sound_values_def sound_lists_def)
next
  case (Suc n)
  then show ?case using sound_values_Suc sound_lists_Suc by blast
qed

lemma parse_json_wf: "parse_json s = Some v \<Longrightarrow> wf_jval v \<and> v \<noteq> Undef"
proof -
  assume "parse_json s = Some v"
  then obtain r where "parse_value (Suc (length s)) s = Some (v, r)"
    unfolding parse_json_def by (simp del: parse_value.simps split: option.splits prod.splits if_splits)
  then show ?thesis using parse_sound [of "Suc (length s)"] unfolding sound_values_def by blast
qed

section \<open>Well-formed consumers\<close>

definition capture_ok :: "jval \<Rightarrow> bool" where
  "capture_ok v \<longleftrightarrow> (case v of JObj es \<Rightarrow>
     oget es ''enabled'' \<noteq> Undef \<and> oget es ''enabled'' \<noteq> Null
     \<and> (case oget es ''keep_last'' of JNum n \<Rightarrow> 1 \<le> n | _ \<Rightarrow> False) | _ \<Rightarrow> False)"

definition output_ok :: "jval \<Rightarrow> bool" where
  "output_ok v \<longleftrightarrow> is_record v \<and> jget v ''mode'' \<in> {JStr ''none'', JStr ''publisher'', JStr ''response''}
     \<and> (jget v ''mode'' = JStr ''publisher'' \<longrightarrow> is_string (jget v ''publisher''))"

definition consumer_ok :: "obj \<Rightarrow> bool" where
  "consumer_ok c \<longleftrightarrow> distinct (map fst c)
     \<and> (case oget c ''id'' of JStr ident \<Rightarrow> ident \<noteq> [] | _ \<Rightarrow> False)
     \<and> is_string (oget c ''name'') \<and> is_record (oget c ''endpoint'')
     \<and> capture_ok (oget c ''message_capture'') \<and> output_ok (oget c ''output'')
     \<and> (oget c ''response'' = Null \<or> is_record (oget c ''response''))"

lemma capture_ok_doc: "capture_ok (capture_doc (normalize_message_capture v))"
  by (auto simp: capture_ok_def capture_doc_def normalize_message_capture_def coalesce_def default_keep_last_def oget_def
      split: jval.split)

lemma capture_ok_edit:
  "capture_ok (capture_doc ((normalize_message_capture v)\<lparr>cp_enabled := JBool b\<rparr>))"
  "1 \<le> n \<Longrightarrow> capture_ok (capture_doc ((normalize_message_capture v)\<lparr>cp_keep_last := n\<rparr>))"
  using keep_last_pos [of v]
  by (auto simp: capture_ok_def capture_doc_def normalize_message_capture_def coalesce_def oget_def)

lemma output_ok_normal: "output_ok (normalize_output v)"
  by (simp add: output_ok_def normalize_output_def no_output_def Let_def oget_def)

lemma output_ok_publisher: "output_ok (create_consumer_publisher_output ps v)"
  by (simp add: output_ok_def create_consumer_publisher_output_def Let_def oget_def)

lemma output_ok_none [simp]: "output_ok no_output"
  by (simp add: output_ok_def no_output_def oget_def)

lemma response_or_null_ok: "response_or_null v = Null \<or> is_record (response_or_null v)"
  by (simp add: response_or_null_def response_document_def split: option.split)

lemma distinct_clone: "distinct (map fst es) \<Longrightarrow> distinct (map fst (record_or_empty (clone_json (JObj es))))"
proof -
  assume d: "distinct (map fst es)"
  have "distinct (map fst (filter (\<lambda>e. snd e \<noteq> Undef) (map (\<lambda>(k, v). (k, clone_json v)) es)))"
    by (rule distinct_map_filter) (simp add: d)
  then show ?thesis by simp
qed

lemma consumer_ok_set:
  assumes "consumer_ok c"
  shows "output_ok v \<Longrightarrow> consumer_ok (oput ''output'' v c)"
    and "capture_ok v \<Longrightarrow> consumer_ok (oput ''message_capture'' v c)"
    and "consumer_ok (oput ''name'' (JStr s) c)"
    and "s \<noteq> [] \<Longrightarrow> consumer_ok (oput ''id'' (JStr s) c)"
    and "is_record v \<Longrightarrow> consumer_ok (oput ''endpoint'' v c)"
    and "v = Null \<or> is_record v \<Longrightarrow> consumer_ok (oput ''response'' v c)"
  using assms by (simp_all add: consumer_ok_def distinct_update)

lemma normalize_ok:
  assumes "distinct (map fst input)" "fresh \<noteq> []"
  shows "consumer_ok (normalize_consumer_config fresh input)"
proof -
  have "given_id fresh e \<noteq> []" for e
    using assms(2) by (simp add: given_id_def lacks_id_def)
  then show ?thesis
    using distinct_clone [OF assms(1)] capture_ok_doc output_ok_normal response_or_null_ok
    by (simp add: consumer_ok_def normalize_consumer_config_def Let_def distinct_update)
qed

lemma keep_unedited_ok: "consumer_ok c \<Longrightarrow> consumer_ok n \<Longrightarrow> consumer_ok (keep_unedited c n)"
  unfolding keep_unedited_def by (intro consumer_ok_set) (simp_all add: consumer_ok_def)

lemma consumer_ok_has: "consumer_ok c \<Longrightarrow> k \<in> {''id'', ''name'', ''endpoint'', ''message_capture'', ''output'', ''response''} \<Longrightarrow> ohas c k"
  by (auto simp: consumer_ok_def ohas_map_of oget_def capture_ok_def output_ok_def split: option.splits)

lemma consumer_ok_spread: "distinct (map fst c) \<Longrightarrow> consumer_ok n \<Longrightarrow> consumer_ok (ospread c n)"
  using consumer_ok_has [of n] unfolding consumer_ok_def by (simp add: oget_ospread)

lemma scalar_endpoint_ok: "consumer_ok c \<Longrightarrow> consumer_ok (scalar_endpoint c)"
  unfolding scalar_endpoint_def Let_def by (auto intro: consumer_ok_set)

lemma apply_response_ok: "consumer_ok c \<Longrightarrow> consumer_ok (apply_response_state p c)"
  unfolding apply_response_state_def Let_def
  by (intro consumer_ok_set) (simp_all add: output_ok_def response_json_doc_def oget_def)

section \<open>The invariant\<close>

definition consumers_ok :: "('n, 's) cons_world \<Rightarrow> bool" where
  "consumers_ok w \<longleftrightarrow> entity_rows consumer_ok (oget (live_config w) ''consumers'')"

lemma consumers_ok_put [simp]:
  "consumers_ok (put_rows ''consumers'' rows w) \<longleftrightarrow> (\<forall>c \<in> set rows. consumer_ok c)"
  "consumers_ok (put_rows ''publishers'' rows w) \<longleftrightarrow> consumers_ok w"
  by (simp_all add: consumers_ok_def put_rows_def)

lemma consumers_ok_all: "consumers_ok w \<Longrightarrow> \<forall>c \<in> set (consumers_of w). consumer_ok c"
  by (simp add: consumers_ok_def entity_rows_at)

lemma current_in: "current_consumer w = Some c \<Longrightarrow> c \<in> set (consumers_of w)"
  by (auto simp: current_consumer_def Let_def split: if_splits)

lemma current_ok: "consumers_ok w \<Longrightarrow> current_consumer w = Some c \<Longrightarrow> consumer_ok c"
  using consumers_ok_all current_in by blast

lemma consumers_ok_put_current: "consumers_ok w \<Longrightarrow> consumer_ok c \<Longrightarrow> consumers_ok (put_current c w)"
  using consumers_ok_all [of w] set_update_subset_insert [of "consumers_of w"] by (auto simp: put_current_def)

lemma consumers_ok_push: "consumers_ok w \<Longrightarrow> consumer_ok c \<Longrightarrow> consumers_ok (push_consumer c w)"
  using consumers_ok_all [of w] by (auto simp: push_consumer_def)

lemma consumers_ok_frame [simp]:
  "consumers_ok (on_panel f w) = consumers_ok w" "consumers_ok (id_used c w) = consumers_ok w"
  "consumers_ok (take_id w) = consumers_ok w" "consumers_ok (notice s w) = consumers_ok w"
  "consumers_ok (persist_messages env w) = consumers_ok w" "consumers_ok (put_messages c rows w) = consumers_ok w"
  "consumers_ok (mark_remembered_selection i t w) = consumers_ok w" "consumers_ok (select_at i w) = consumers_ok w"
  "consumers_ok (w\<lparr>cw_nav := nav\<rparr>) = consumers_ok w" "consumers_ok (w\<lparr>cw_drafts := ds\<rparr>) = consumers_ok w"
  "consumers_ok (w\<lparr>cw_signature := sig\<rparr>) = consumers_ok w" "consumers_ok (w\<lparr>cw_next_row := i\<rparr>) = consumers_ok w"
  "consumers_ok (w\<lparr>cw_messages := ms\<rparr>) = consumers_ok w" "consumers_ok (w\<lparr>cw_runtime := rt\<rparr>) = consumers_ok w"
  "consumers_ok (w\<lparr>cw_errors := errs\<rparr>) = consumers_ok w" "consumers_ok (w\<lparr>cw_window_saved := ws\<rparr>) = consumers_ok w"
  "consumers_ok (w\<lparr>cw_ids := n\<rparr>) = consumers_ok w"
  by (simp_all add: consumers_ok_def id_used_def take_id_def notice_def persist_messages_def put_messages_def
      mark_remembered_selection_def select_at_def Let_def)

lemma consumers_ok_options [simp]: "consumers_ok (snd (next_publisher_options env w)) = consumers_ok w"
  by (simp add: next_publisher_options_def Let_def split: prod.split)

lemma consumers_ok_render [simp]: "consumers_ok (render_selected_consumer env w) = consumers_ok w"
proof (cases "current_consumer w")
  case None
  then show ?thesis by (simp add: render_selected_consumer_def)
next
  case (Some c)
  obtain options w' where o: "next_publisher_options env w = (options, w')" by force
  with consumers_ok_options [of env w] have "consumers_ok w' = consumers_ok w" by simp
  with Some o show ?thesis
    by (simp add: render_selected_consumer_def render_message_details_def show_consumer_def Let_def split: option.split prod.split)
qed

lemma consumers_ok_form [simp]: "consumers_ok (render_consumer_form env w) = consumers_ok w"
  by (simp add: render_consumer_form_def Let_def consumers_ok_def split: option.split)

lemma consumers_ok_restore [simp]: "consumers_ok (restore_consumer_view env i t w) = consumers_ok w"
  by (simp add: restore_consumer_view_def Let_def)

text \<open>Identifiers handed out are not empty.\<close>

definition names_ids :: "('n, 's) cons_env \<Rightarrow> bool" where
  "names_ids env \<longleftrightarrow> (\<forall>prefix n. ce_fresh env prefix n \<noteq> [])"

lemma normalized_here_ok: "names_ids env \<Longrightarrow> distinct (map fst input) \<Longrightarrow> consumer_ok (normalized_here env input w)"
  by (simp add: normalized_here_def names_ids_def normalize_ok)

lemma consumer_ok_distinct: "consumer_ok c \<Longrightarrow> distinct (map fst c)"
  by (simp add: consumer_ok_def)

lemma form_changed_ok:
  assumes "names_ids env" "consumers_ok w"
  shows "consumers_ok (form_changed env updated w)"
proof (cases "current_consumer (w\<lparr>cw_drafts := AList.update (selected_index w) updated (cw_drafts w)\<rparr>)")
  case None
  with assms show ?thesis by (simp add: form_changed_def Let_def)
next
  case (Some c)
  have "consumer_ok c" using Some assms(2) by (intro current_ok [OF _ Some]) simp
  then have "consumer_ok (ospread c (keep_unedited c (normalized_here env (ospread c updated) v)))" for v
    using normalized_here_ok [OF assms(1), of "ospread c updated" v]
    by (intro consumer_ok_spread keep_unedited_ok) (simp_all add: consumer_ok_distinct)
  with Some assms(2) show ?thesis
    by (simp add: form_changed_def Let_def consumers_ok_put_current)
qed

lemma flush_ok: "names_ids env \<Longrightarrow> consumers_ok w \<Longrightarrow> consumers_ok (flush_pending_form_draft env pending w)"
  by (simp add: flush_pending_form_draft_def form_changed_ok split: option.split)

lemma new_consumer_ok:
  assumes "names_ids env" "consumers_ok w"
  shows "consumers_ok (push_consumer (normalized_here env (new_consumer i n e) v) w)"
  using assms by (intro consumers_ok_push normalized_here_ok) (simp_all add: new_consumer_def)

lemma add_ok: "names_ids env \<Longrightarrow> consumers_ok w \<Longrightarrow> consumers_ok (add_consumer_action env t w)"
  by (simp add: add_consumer_action_def Let_def new_consumer_ok)

lemma set_member_ok:
  assumes "consumers_ok w" "\<And>c. consumer_ok c \<Longrightarrow> consumer_ok (oput k v c)"
  shows "consumers_ok (set_member_of_current k v w)"
  using assms by (auto simp: set_member_of_current_def intro!: consumers_ok_put_current dest: current_ok split: option.split)

lemma output_mode_ok: "consumers_ok w \<Longrightarrow> consumers_ok (set_consumer_output_mode env mode w)"
proof -
  assume ok: "consumers_ok w"
  obtain options w1 where o: "next_publisher_options env w = (options, w1)" by force
  with ok consumers_ok_options [of env w] have w1: "consumers_ok w1" by simp
  have resp: "consumers_ok (apply_response_state_to_current w)"
    using ok by (auto simp: apply_response_state_to_current_def intro!: consumers_ok_put_current apply_response_ok
        dest: current_ok split: option.split)
  have set: "consumers_ok v \<Longrightarrow> output_ok x \<Longrightarrow> consumers_ok (set_member_of_current ''output'' x v)" for v :: "('a, 'b) cons_world" and x
    by (intro set_member_ok consumer_ok_set)
  show ?thesis
    using ok w1 resp by (simp add: set_consumer_output_mode_def o Let_def set output_ok_publisher split: option.split output_mode.split)
qed

lemma headers_ok: "consumers_ok w \<Longrightarrow> consumers_ok (apply_response_state_to_current w)"
  by (auto simp: apply_response_state_to_current_def intro!: consumers_ok_put_current apply_response_ok
        dest: current_ok split: option.split)

lemma edit_headers_ok: "consumers_ok w \<Longrightarrow> consumers_ok (edit_headers f w)"
  by (simp add: edit_headers_def headers_ok)

lemma set_publisher_ok: "consumers_ok w \<Longrightarrow> consumers_ok (set_consumer_output_publisher p w)"
  by (auto simp: set_consumer_output_publisher_def intro!: set_member_ok consumer_ok_set output_ok_publisher split: option.split)

lemma set_capture_enabled_ok: "consumers_ok w \<Longrightarrow> consumers_ok (set_capture_enabled b w)"
  by (auto simp: set_capture_enabled_def intro!: set_member_ok consumer_ok_set capture_ok_edit split: option.split)

lemma set_keep_last_ok: "consumers_ok w \<Longrightarrow> consumers_ok (set_capture_keep_last env n w)"
  by (auto simp: set_capture_keep_last_def Let_def intro!: consumers_ok_put_current consumer_ok_set capture_ok_edit
      dest: current_ok split: option.split)

lemma copy_ok: "consumers_ok w \<Longrightarrow> consumers_ok (copy_current_consumer env answer w)"
  by (simp add: copy_current_consumer_def Let_def split: option.split)

lemma clone_ok: "names_ids env \<Longrightarrow> consumers_ok w \<Longrightarrow> consumers_ok (clone_current_consumer env w)"
proof (cases "current_consumer w")
  case (Some c)
  assume n: "names_ids env" and w: "consumers_ok w"
  have "consumer_ok (normalized_here env c w)"
    using current_ok [OF w Some] by (intro normalized_here_ok n) (simp add: consumer_ok_distinct)
  then have "consumer_ok (oput ''name'' (JStr x) (oput ''id'' (JStr (fresh_consumer_id env v)) (normalized_here env c w)))" for x v
    using n by (intro consumer_ok_set) (simp_all add: names_ids_def fresh_consumer_id_def)
  with Some w show ?thesis by (simp add: clone_current_consumer_def Let_def consumers_ok_push)
qed (simp add: clone_current_consumer_def)

lemma variants_ok:
  "names_ids env \<Longrightarrow> consumers_ok w \<Longrightarrow> consumers_ok (snd (current_consumer_config_variants env pending w))"
  by (simp add: current_consumer_config_variants_def Let_def flush_ok split: option.split)

lemma delete_ok: "consumers_ok w \<Longrightarrow> consumers_ok (delete_current_consumer env confirmed w)"
proof -
  assume w: "consumers_ok w"
  then have "consumers_ok (put_rows ''consumers'' (remove_nth i (consumers_of w)) w)" for i
    using consumers_ok_all [OF w] by (auto simp: remove_nth_def dest: in_set_takeD in_set_dropD)
  then show ?thesis using w by (simp add: delete_current_consumer_def Let_def split: option.split)
qed

section \<open>The server's part\<close>

text \<open>The configuration the server sends has a list of consumer objects, as its type says.\<close>

definition typed_rows :: "string \<Rightarrow> 'n fetch \<Rightarrow> bool" where
  "typed_rows k fetch \<longleftrightarrow> (\<forall>n r n' v. fetch (get_request ''/config'') n = (Inr r, n') \<and> response_json r = Inr v
     \<longrightarrow> (\<exists>rows. jget v k = JArr (map JObj rows)))"

abbreviation typed_server :: "'n fetch \<Rightarrow> bool" where
  "typed_server \<equiv> typed_rows ''consumers''"

lemma wf_elements: "wf_jval (JArr (map JObj rows)) \<Longrightarrow> c \<in> set rows \<Longrightarrow> distinct (map fst c)"
  by auto

lemma wf_jget: "wf_jval v \<Longrightarrow> wf_jval (jget v k)"
proof (cases v)
  case (JObj es)
  assume "wf_jval v"
  with JObj show ?thesis by (auto simp: oget_def split: option.split dest!: map_of_SomeD)
next
  case (JArr xs)
  assume "wf_jval v"
  with JArr show ?thesis by auto
qed auto

lemma save_section_rows:
  assumes "typed_rows k (se_fetch env)" and s: "save_section env k v False False p = (saved, p')"
  obtains "saved = Null" "oget (sw_config p') k = oget (sw_config p) k"
  | rows where "jget saved k = JArr (map JObj rows)" "\<And>c. c \<in> set rows \<Longrightarrow> distinct (map fst c)"
proof -
  obtain r n where f: "save_config_section (se_marks env) (se_owners env) (se_fetch env) (sw_config p) k v (sw_net p) = (r, n)"
    by force
  show thesis
  proof (cases r)
    case (Inl e)
    with s f have "saved = Null" "sw_config p' = sw_config p"
      by (auto simp: save_section_def run_save_action_def press_def await_def on_net_def Let_def)
    with that(1) show ?thesis by simp
  next
    case (Inr ref)
    obtain n1 where "fetch_config_from_server (se_fetch env) n1 = (Inr ref, n)"
      using f Inr by (auto simp: save_config_section_def await_def Let_def split: prod.splits sum.splits)
    then obtain x n2 where x: "se_fetch env (get_request ''/config'') n1 = (Inr x, n2)" "response_json x = Inr ref"
      by (auto simp: fetch_config_from_server_def await_def resolved_def split: prod.splits sum.splits)
    then obtain rows where rows: "jget ref k = JArr (map JObj rows)"
      using assms(1) unfolding typed_rows_def by blast
    have wf: "wf_jval ref" using x(2) parse_json_wf by (auto simp: response_json_def split: option.splits)
    then have wr: "wf_jval (JArr (map JObj rows))" using wf_jget [OF wf, of k] rows by simp
    have ref: "ref \<noteq> Null" using rows by auto
    let ?p = "p\<lparr>sw_net := n, sw_config := oput k (JArr (map JObj rows)) (sw_config p)\<rparr>"
    obtain d where d: "mark_saved k (JArr (map JObj rows)) ?p = (Inr (), ?p\<lparr>sw_dirty := d\<rparr>)"
      using mark_saved_ok [OF wr, of k ?p] by blast
    have "saved = ref"
      using s f Inr ref rows d by (auto simp: save_section_def run_save_action_def press_def await_def on_net_def doing_def resolved_def Let_def)
    with rows that(2) wf_elements [OF wr] show ?thesis by blast
  qed
qed

lemma normalize_consumers_ok:
  "(\<And>n. fresh n \<noteq> []) \<Longrightarrow> \<forall>c \<in> set cs. distinct (map fst c) \<Longrightarrow> \<forall>c \<in> set (fst (normalize_consumers fresh n cs)). consumer_ok c"
  by (induction cs arbitrary: n) (auto simp: Let_def normalize_ok)

lemma normalize_live_ok:
  "names_ids env \<Longrightarrow> \<forall>c \<in> set rows. distinct (map fst c) \<Longrightarrow> consumers_ok (normalize_live env rows w)"
  using normalize_consumers_ok [of "ce_fresh env ''consumer''" rows "cw_ids w"]
  by (simp add: normalize_live_def Let_def names_ids_def)

lemma save_consumers_ok:
  assumes "names_ids env" "typed_server (se_fetch (ce_save env))" "consumers_ok w"
  shows "consumers_ok (snd (save_consumers_section env w))"
proof -
  obtain saved p where s: "save_section (ce_save env) ''consumers'' (oget (live_config w) ''consumers'') False False (cw_page w) = (saved, p)"
    by force
  from assms(2) s show ?thesis
  proof (cases rule: save_section_rows)
    case 1
    with s assms(3) show ?thesis by (simp add: save_consumers_section_def consumers_ok_def)
  next
    case (2 rows)
    have "record_or_empty \<circ> JObj = id" by (rule ext) simp
    with 2 s normalize_live_ok [OF assms(1), of rows] show ?thesis
      by (simp add: save_consumers_section_def Let_def)
  qed
qed

lemma merge_draft_ok: "names_ids env \<Longrightarrow> consumers_ok w \<Longrightarrow> consumers_ok (merge_draft env w)"
proof -
  assume n: "names_ids env" and w: "consumers_ok w"
  have "consumer_ok (scalar_endpoint (keep_unedited c (normalized_here env (ospread c d) v)))" if "current_consumer w = Some c" for c d v
    using current_ok [OF w that] by (intro scalar_endpoint_ok keep_unedited_ok normalized_here_ok n) (simp_all add: consumer_ok_distinct)
  with w show ?thesis by (auto simp: merge_draft_def Let_def intro!: consumers_ok_put_current split: option.split)
qed

lemma save_current_ok:
  assumes "names_ids env" "typed_server (se_fetch (ce_save env))" "consumers_ok w"
  shows "consumers_ok (snd (save_current_consumer env pending w))"
  using save_consumers_ok [OF assms(1,2) merge_draft_ok [OF assms(1) flush_ok [OF assms(1,3)]], of pending] assms(3)
  by (auto simp: save_current_consumer_def split: option.split prod.split)

lemma ask_ok: "ask env rq w = (r, w') \<Longrightarrow> consumers_ok w' = consumers_ok w"
  by (auto simp: ask_def on_page_def on_net_def consumers_ok_def split: prod.splits)

lemma status_published_ok [simp]: "consumers_ok (status_published env s w) = consumers_ok w"
  by (simp add: status_published_def)

lemma poll_status_ok [simp]: "consumers_ok (poll_runtime_status env w) = consumers_ok w"
proof -
  obtain r w1 where a: "ask env (get_request ''/runtime-status'') w = (r, w1)" by force
  with ask_ok [OF a] show ?thesis by (simp add: poll_runtime_status_def)
qed

lemma snd_finally [simp]: "snd (finally_do f p w) = f (snd (p w))"
  by (simp add: finally_do_def split: prod.split)

lemma send_toggle_ok: "consumers_ok (snd (send_toggle env running (k, w))) = consumers_ok w"
proof (cases k)
  case (Some key)
  obtain r w1 where a: "ask env (toggle_request running key) w = (r, w1)" by force
  from ask_ok [OF a] Some a show ?thesis
    by (auto simp: send_toggle_def await_def toggle_answered_def split: sum.split option.split)
qed (simp add: send_toggle_def)

lemma save_before_ok:
  assumes "names_ids env" "typed_server (se_fetch (ce_save env))" "consumers_ok w"
  shows "consumers_ok (snd (save_before_start env pending c w))"
  using save_consumers_ok [OF assms(1,2) flush_ok [OF assms(1,3)], of pending] assms(3)
  by (auto simp: save_before_start_def Let_def split: prod.split)

lemma toggle_ok:
  assumes "names_ids env" "typed_server (se_fetch (ce_save env))" "consumers_ok w"
  shows "consumers_ok (snd (toggle_active_consumer env pending w))"
proof (cases "current_consumer w")
  case (Some c)
  let ?w = "\<lambda>f. on_panel f w"
  have "consumers_ok (snd (send_toggle env b (if b then (Some k, ?w f) else save_before_start env pending c (?w f))))" for b k f
    using save_before_ok [OF assms(1,2), of "?w f" pending c] assms(3)
    by (cases "save_before_start env pending c (?w f)") (auto simp: send_toggle_ok)
  with Some show ?thesis by (simp add: toggle_active_consumer_def Let_def)
qed (use assms in \<open>simp add: toggle_active_consumer_def\<close>)

section \<open>Every run\<close>

lemma poll_consumer_ok: "consumers_ok (snd (poll_consumer env c w)) = consumers_ok w"
proof -
  obtain res w' where p: "poll_consumer env c w = (res, w')" by force
  then show ?thesis
  proof (cases rule: poll_consumer_cases)
    case quiet
    with p show ?thesis by simp
  next
    case (missed plan r w1)
    with p ask_ok [OF missed(2)] show ?thesis by simp
  next
    case (landed plan r payload w1)
    have "cw_page w' = cw_page w1" unfolding landed(5) by (simp add: land_messages_def put_messages_def Let_def)
    with p ask_ok [OF landed(2)] show ?thesis by (simp add: consumers_ok_def)
  qed
qed

lemma each_ok:
  "(\<And>x w. x \<in> set xs \<Longrightarrow> P w \<Longrightarrow> P (snd (f x w))) \<Longrightarrow> P w \<Longrightarrow> P (snd (each f xs w))"
proof (induction xs arbitrary: w)
  case Nil
  then show ?case by (simp add: doing_def)
next
  case (Cons x xs)
  obtain res w1 where p: "f x w = (res, w1)" by force
  with Cons.prems(1) [of x w] Cons.prems(2) have "P w1" by simp
  with Cons.IH [OF Cons.prems(1) this] p show ?case by (auto simp: await_def split: sum.split)
qed

lemma turn_ok: "consumers_ok w \<Longrightarrow> consumers_ok (message_poll_turn env w)"
  unfolding message_poll_turn_def fetch_new_messages_def
  by (simp, rule each_ok) (simp_all add: poll_consumer_ok)

lemma import_request_ok: "names_ids env \<Longrightarrow> consumers_ok w \<Longrightarrow> consumers_ok (snd (import_one_request env r w))"
  by (simp add: import_one_request_def Let_def new_consumer_ok split: sum.split)

lemma await_ok: "P (snd (p w)) \<Longrightarrow> (\<And>x u. P u \<Longrightarrow> P (snd (f x u))) \<Longrightarrow> P (snd (await p f w))"
proof -
  assume p: "P (snd (p w))" and f: "\<And>x u. P u \<Longrightarrow> P (snd (f x u))"
  obtain r u where w: "p w = (r, u)" by force
  with p f [of u] show ?thesis by (cases r) (simp_all add: await_def)
qed

lemma render_after_ok:
  assumes "\<And>x w. x \<in> set xs \<Longrightarrow> consumers_ok w \<Longrightarrow> consumers_ok (snd (f x w))" and "consumers_ok w"
  shows "consumers_ok (snd (await (each f xs) (\<lambda>_. doing (render_selected_consumer env)) w))"
  by (rule await_ok [where P = consumers_ok], rule each_ok [where P = consumers_ok])
    (use assms in \<open>simp_all add: doing_def\<close>)

lemma import_api_ok: "names_ids env \<Longrightarrow> consumers_ok w \<Longrightarrow> consumers_ok (snd (import_async_api_to_consumer env s w))"
  unfolding import_async_api_to_consumer_def
  by (rule await_ok [where P = consumers_ok]) (auto simp: resolved_def intro: render_after_ok import_request_ok)

lemma import_row_ok:
  assumes "names_ids env" "wf_jval raw" "consumers_ok w"
  shows "consumers_ok (snd (import_one_consumer env raw w))"
proof (cases raw)
  case (JObj row)
  then have "consumer_ok (oput ''name'' (JStr s) (normalized_here env row w))" for s
    using assms(2) by (intro consumer_ok_set normalized_here_ok assms(1)) simp
  with JObj assms(3) show ?thesis by (simp add: import_one_consumer_def Let_def consumers_ok_push)
qed (use assms in \<open>simp_all add: import_one_consumer_def\<close>)

lemma import_mqb_ok: "names_ids env \<Longrightarrow> consumers_ok w \<Longrightarrow> consumers_ok (snd (import_mqb_to_consumer env s w))"
proof (cases "parse_json s")
  case (Some v)
  assume n: "names_ids env" and w: "consumers_ok w"
  let ?rows = "array_or_empty (jget (jget v ''config'') ''consumers'')"
  have "wf_jval (jget (jget v ''config'') ''consumers'')" using parse_json_wf [OF Some] by (intro wf_jget) simp
  then have rows: "wf_jval r" if "r \<in> set ?rows" for r
    using that by (cases "jget (jget v ''config'') ''consumers''") auto
  have "consumers_ok (snd (await (each (import_one_consumer env) ?rows) (\<lambda>_. doing (render_selected_consumer env)) w))"
    by (rule render_after_ok [OF import_row_ok [OF n rows] w])
  with Some show ?thesis by (simp add: import_mqb_to_consumer_def)
qed (simp add: import_mqb_to_consumer_def)

lemma init_ok:
  assumes "names_ids env" "\<forall>c \<in> set (consumers_of w). distinct (map fst c)" "init_consumers env w = (Inr (), w')"
  shows "consumers_ok w'"
proof -
  let ?w1 = "forget_session (read_stored_messages env w)"
  have page: "cw_page ?w1 = cw_page w"
    by (simp add: forget_session_def read_stored_messages_def Let_def split: jval.split prod.split)
  have 1: "consumers_ok (normalize_live env (consumers_of ?w1) ?w1)"
    using assms(1,2) page by (intro normalize_live_ok) simp_all
  have mark: "oget (sw_config p') ''consumers'' = oget (sw_config p) ''consumers''" if "mark_saved s v p = (r, p')" for s v p r p'
    using that by (auto simp: mark_saved_def split: option.splits)
  have 2: "consumers_ok u' = consumers_ok u" if "remember_as_saved u = (r, u')" for u r u'
    using that by (auto simp: remember_as_saved_def on_page_def consumers_ok_def split: if_splits prod.splits dest!: mark)
  have 3: "consumers_ok (init_selection env u) = consumers_ok u" for u
    by (simp add: init_selection_def Let_def)
  let ?w2 = "normalize_live env (consumers_of ?w1) ?w1"
  let ?w3 = "?w2\<lparr>cw_page := (cw_page ?w2)\<lparr>sw_config := oput ''publishers'' (JArr (array_or_empty (oget (live_config ?w2) ''publishers''))) (live_config ?w2)\<rparr>\<rparr>"
  have 4: "consumers_ok ?w3" using 1 by (simp add: consumers_ok_def)
  obtain r u where u: "remember_as_saved ?w3 = (r, u)" by force
  have "w' = init_selection env u"
    using assms(3) u by (cases r) (simp_all add: init_consumers_def Let_def await_def doing_def)
  with 2 [OF u] 3 4 show ?thesis by simp
qed

inductive cons_step :: "('n, 's) cons_env \<Rightarrow> ('n, 's) cons_world \<Rightarrow> ('n, 's) cons_world \<Rightarrow> bool" for env where
  restore: "cons_step env w (restore_consumer_view env idx tab w)"
| subtab: "cons_step env w (select_consumer_subtab env tab w)"
| form: "cons_step env w (form_changed env updated w)"
| add: "cons_step env w (add_consumer_action env t w)"
| mode: "cons_step env w (set_consumer_output_mode env mode w)"
| publisher: "cons_step env w (set_consumer_output_publisher publisher w)"
| capture: "cons_step env w (set_capture_enabled enabled w)"
| keep_last: "cons_step env w (set_capture_keep_last env n w)"
| add_header: "cons_step env w (add_consumer_response_header w)"
| update_header: "cons_step env w (update_consumer_response_header i field s w)"
| toggle_header: "cons_step env w (toggle_consumer_response_header i enabled w)"
| remove_header: "cons_step env w (remove_consumer_response_header i w)"
| payload: "cons_step env w (update_consumer_response_payload s w)"
| message: "cons_step env w (show_consumer_message_details env j w)"
| clear: "cons_step env w (clear_active_consumer_history env w)"
| copy: "cons_step env w (copy_current_consumer env answer w)"
| cloned: "cons_step env w (clone_current_consumer env w)"
| export: "cons_step env w (snd (current_consumer_config_variants env pending w))"
| delete: "cons_step env w (delete_current_consumer env confirmed w)"
| save: "cons_step env w (snd (save_current_consumer env pending w))"
| toggle: "cons_step env w (snd (toggle_active_consumer env pending w))"
| status: "cons_step env w (status_published env status w)"
| poll: "cons_step env w (message_poll_turn env w)"
| import_requests: "cons_step env w (snd (import_async_api_to_consumer env source w))"
| import_consumers: "cons_step env w (snd (import_mqb_to_consumer env source w))"

inductive cons_started :: "('n, 's) cons_env \<Rightarrow> ('n, 's) cons_world \<Rightarrow> bool" for env where
  "\<forall>c \<in> set (consumers_of w). distinct (map fst c) \<Longrightarrow> init_consumers env w = (Inr (), w') \<Longrightarrow> cons_started env w'"

abbreviation cons_run :: "('n, 's) cons_env \<Rightarrow> ('n, 's) cons_world \<Rightarrow> bool" where
  "cons_run env \<equiv> panel_run (cons_started env) (cons_step env)"

lemmas consumer_action_ok = form_changed_ok add_ok output_mode_ok set_publisher_ok set_capture_enabled_ok set_keep_last_ok
  edit_headers_ok headers_ok copy_ok clone_ok variants_ok delete_ok save_current_ok toggle_ok turn_ok import_api_ok import_mqb_ok

lemma subtab_ok: "consumers_ok w \<Longrightarrow> consumers_ok (select_consumer_subtab env tab w)"
  by (simp add: select_consumer_subtab_def Let_def)

lemma header_actions_ok:
  assumes "consumers_ok w"
  shows "consumers_ok (add_consumer_response_header w)" "consumers_ok (update_consumer_response_header i field s w)"
    "consumers_ok (toggle_consumer_response_header i enabled w)" "consumers_ok (remove_consumer_response_header i w)"
    "consumers_ok (update_consumer_response_payload s w)"
  using assms by (simp_all add: add_consumer_response_header_def update_consumer_response_header_def
      toggle_consumer_response_header_def remove_consumer_response_header_def update_consumer_response_payload_def
      edit_headers_ok headers_ok)

lemma message_actions_ok:
  assumes "consumers_ok w"
  shows "consumers_ok (show_consumer_message_details env j w)" "consumers_ok (clear_active_consumer_history env w)"
  using assms by (simp_all add: show_consumer_message_details_def clear_active_consumer_history_def split: option.split)

lemma consumer_step_ok:
  assumes "cons_step env w w'" "names_ids env" "typed_server (se_fetch (ce_save env))" "consumers_ok w"
  shows "consumers_ok w'"
  using assms by (cases rule: cons_step.cases) (simp_all add: consumer_action_ok subtab_ok header_actions_ok message_actions_ok)

interpretation consumer_panel: panel_actions "names_ids env \<and> typed_server (se_fetch (ce_save env))" "cons_started env"
    "cons_step env" "\<lambda>w. oget (live_config w) ''consumers''" consumer_ok for env :: "('n, 's) cons_env"
  by unfold_locales
    (auto simp: consumers_ok_def [symmetric] elim: cons_started.cases intro: init_ok consumer_step_ok)



end
