(* ===== verification/PublisherFacts.thy ===== *)
theory PublisherFacts
  imports PublisherRuntime ConsumerInvariant
begin

text \<open>What the publishers panel guarantees of header rows, addresses, copied command lines and references.\<close>

section \<open>Header rows\<close>

lemma first_free_unused: "first_free seen n \<notin> set seen \<and> n \<le> first_free seen n"
proof (induction seen n rule: first_free.induct)
  case (1 seen n)
  then show ?case by (subst (1 2) first_free.simps) auto
qed

lemma normalized_ids:
  "distinct (map hr_id (normalize_header_rows_from seen rows))
    \<and> hr_id ` set (normalize_header_rows_from seen rows) \<inter> set seen = {}
    \<and> (\<forall>r \<in> set (normalize_header_rows_from seen rows). 0 < hr_id r)"
proof (induction rows arbitrary: seen)
  case Nil
  then show ?case by simp
next
  case (Cons r rs)
  define i where "i = (if 0 < hr_id r \<and> hr_id r \<notin> set seen then hr_id r else first_free seen 1)"
  have i: "i \<notin> set seen" "0 < i" using first_free_unused [of seen 1] by (auto simp: i_def)
  have eq: "normalize_header_rows_from seen (r # rs) = r\<lparr>hr_id := i\<rparr> # normalize_header_rows_from (i # seen) rs"
    by (simp add: Let_def i_def)
  from Cons.IH [of "i # seen"] i show ?case unfolding eq by auto
qed

definition row_content :: "header_row \<Rightarrow> string \<times> string \<times> bool" where
  "row_content r = (hr_key r, hr_value r, hr_enabled r)"

lemma normalized_content: "map row_content (normalize_header_rows_from seen rows) = map row_content rows"
  by (induction rows arbitrary: seen) (simp_all add: Let_def row_content_def)

lemma normalized_rows:
  assumes "normalize_header_rows n rows = (rows', n')"
  shows "distinct (map hr_id rows')" "hr_id ` set rows' \<subseteq> {1..<n'}" "n \<le> n'"
    "map row_content rows' = map row_content rows"
proof -
  have r: "rows' = normalize_header_rows_from [] rows" and n': "n' = max n (Max (insert 0 (hr_id ` set rows')) + 1)"
    using assms by (auto simp: normalize_header_rows_def Let_def)
  show "distinct (map hr_id rows')" "map row_content rows' = map row_content rows"
    unfolding r using normalized_ids [of "[]" rows] normalized_content by blast+
  have "hr_id x < n'" if "x \<in> set rows'" for x
  proof -
    have "hr_id x \<le> Max (insert 0 (hr_id ` set rows'))" using that by (intro Max_ge) auto
    then show ?thesis by (simp add: n')
  qed
  moreover have "0 < hr_id x" if "x \<in> set rows'" for x
    using that normalized_ids [of "[]" rows] unfolding r by blast
  ultimately show "hr_id ` set rows' \<subseteq> {1..<n'}" by force
  show "n \<le> n'" by (simp add: n')
qed

text \<open>The rows of headers the panel draws for a publisher have identifiers of their own, whatever is stored for it:
  they are positive, no two are equal, and the identifier the next new row will get is
  none of them; so adding a row never makes two rows one. The texts and switches of stored rows are unchanged.\<close>

theorem header_rows_distinct:
  "let (rows, w') = build_metadata_rows publisher w;
       stored = map row_of_doc (array_or_empty (jget (read_local_publisher_state publisher w) ''headers''))
   in distinct (map hr_id rows @ [pw_next_row w']) \<and> hr_id ` set rows \<subseteq> {1..<pw_next_row w'}
      \<and> map row_content rows = (if stored = [] then map (\<lambda>(k, v). (k, v, True)) (custom_headers publisher)
          else map row_content stored)"
proof -
  let ?stored = "map row_of_doc (array_or_empty (jget (read_local_publisher_state publisher w) ''headers''))"
  let ?hs = "custom_headers publisher"
  have numbered: "map row_content (numbered_rows n es) = map (\<lambda>(k, v). (k, v, True)) es" for n es
    by (induction es arbitrary: n) (auto simp: row_content_def)
  obtain rows n' where b: "build_metadata_rows publisher w = (rows, w\<lparr>pw_next_row := n'\<rparr>)"
    and "(if ?stored \<noteq> [] then normalize_header_rows (pw_next_row w) ?stored
      else normalize_header_rows (pw_next_row w + int (length ?hs)) (numbered_rows (pw_next_row w) ?hs)) = (rows, n')"
    unfolding build_metadata_rows_def Let_def by (force split: prod.splits)
  then have "distinct (map hr_id rows) \<and> hr_id ` set rows \<subseteq> {1..<n'}
      \<and> map row_content rows = (if ?stored = [] then map (\<lambda>(k, v). (k, v, True)) ?hs else map row_content ?stored)"
    using normalized_rows [of _ _ rows n'] numbered by (auto split: if_splits)
  then show ?thesis by (auto simp: b Let_def)
qed

section \<open>The command line\<close>

text \<open>
  How a shell reads a command without expansions: single quotes take everything as it is, a backslash
  the next character, and a backslash before a line end joins the lines. A character with a meaning
  of its own is refused.
\<close>

datatype shell_state = Between | In_word string | In_quotes string | After_backslash "string option"

definition shell_plain :: "char \<Rightarrow> bool" where
  "shell_plain c \<longleftrightarrow> letter c \<or> is_digit c \<or> c \<in> set ''-_./:=@%+,''"

definition word_begun :: "shell_state \<Rightarrow> string option" where
  "word_begun st = (case st of In_word w \<Rightarrow> Some w | _ \<Rightarrow> None)"

definition text_begun :: "string option \<Rightarrow> string" where
  "text_begun w = (case w of Some t \<Rightarrow> t | None \<Rightarrow> [])"

fun shell_words :: "shell_state \<Rightarrow> string \<Rightarrow> string list option" where
  "shell_words st [] = (case st of Between \<Rightarrow> Some [] | In_word w \<Rightarrow> Some [w] | _ \<Rightarrow> None)"
| "shell_words (In_quotes w) (c # s) = shell_words (if c = quote_mark then In_word w else In_quotes (w @ [c])) s"
| "shell_words (After_backslash w) (c # s) =
     shell_words (if c = CHR 0x0A then (case w of Some t \<Rightarrow> In_word t | None \<Rightarrow> Between)
       else In_word (text_begun w @ [c])) s"
| "shell_words st (c # s) =
     (if c = quote_mark then shell_words (In_quotes (text_begun (word_begun st))) s
      else if c = backslash then shell_words (After_backslash (word_begun st)) s
      else if c = CHR '' '' then
        map_option (\<lambda>ws. (case word_begun st of Some w \<Rightarrow> w # ws | None \<Rightarrow> ws)) (shell_words Between s)
      else if shell_plain c then shell_words (In_word (text_begun (word_begun st) @ [c])) s
      else None)"

lemmas shell_marks = quote_mark_def backslash_def shell_plain_def letter_def is_digit_def word_begun_def text_begun_def

lemma shell_quoted:
  "shell_words (In_quotes w) (concat (map (\<lambda>c. if c = quote_mark then [quote_mark, backslash, quote_mark, quote_mark] else [c]) v)
     @ quote_mark # s) = shell_words (In_word (w @ v)) s"
proof (induction v arbitrary: w)
  case Nil
  then show ?case by simp
next
  case (Cons c v)
  then show ?case by (auto simp: backslash_def quote_mark_def word_begun_def text_begun_def)
qed

lemma shell_quote_word: "shell_words Between (shell_quote v @ s) = shell_words (In_word v) s"
  using shell_quoted [of "[]" v s] by (simp add: shell_quote_def word_begun_def text_begun_def)

lemma shell_plain_not: "shell_plain c \<Longrightarrow> c \<noteq> quote_mark \<and> c \<noteq> backslash \<and> c \<noteq> CHR '' ''"
  by (auto simp: shell_plain_def letter_def is_digit_def quote_mark_def backslash_def Let_def)

lemma shell_plain_word:
  "list_all shell_plain v \<Longrightarrow> shell_words (In_word w) (v @ s) = shell_words (In_word (w @ v)) s"
  by (induction v arbitrary: w) (auto simp: word_begun_def text_begun_def dest: shell_plain_not)

lemma shell_plain_start:
  "list_all shell_plain v \<Longrightarrow> v \<noteq> [] \<Longrightarrow> shell_words Between (v @ s) = shell_words (In_word v) s"
  using shell_plain_word [of "tl v" "[hd v]" s]
  by (cases v) (auto simp: word_begun_def text_begun_def dest: shell_plain_not)

text \<open>A word, and what may follow it: the end, or a blank and the next word.\<close>

lemma shell_next: "shell_words (In_word w) (CHR '' '' # s) = map_option ((#) w) (shell_words Between s)"
  by (simp add: shell_marks)

lemma shell_blank: "shell_words Between (CHR '' '' # s) = shell_words Between s"
  by (cases "shell_words Between s") (simp_all add: shell_marks)

lemma shell_continuation: "shell_words Between (backslash # CHR 0x0A # s) = shell_words Between s"
  by (simp add: shell_marks)

definition curl_break :: string where
  "curl_break = '' '' @ [backslash, CHR 0x0A] @ ''  ''"

lemma shell_break: "shell_words (In_word w) (curl_break @ s) = map_option ((#) w) (shell_words Between s)"
  by (simp add: curl_break_def shell_next shell_continuation shell_blank del: shell_words.simps)

text \<open>An option of the command: a plain word and a quoted one.\<close>

definition reads_as :: "string \<Rightarrow> string list \<Rightarrow> bool" where
  "reads_as text ws \<longleftrightarrow> ws \<noteq> [] \<and>
     (\<forall>s. shell_words Between (text @ s) = map_option ((@) (butlast ws)) (shell_words (In_word (last ws)) s))"

lemma append_one: "(@) [v] = (#) v"
  by auto

lemma append_more: "(@) (v # ws) = (\<lambda>x. v # ws @ x)"
  by auto

lemma reads_as_quoted: "list_all shell_plain v \<Longrightarrow> v \<noteq> [] \<Longrightarrow> reads_as (v @ '' '' @ shell_quote t) [v, t]"
  by (simp add: reads_as_def shell_plain_start shell_next shell_quote_word append_one del: shell_words.simps)

lemma reads_as_plain: "list_all shell_plain v \<Longrightarrow> v \<noteq> [] \<Longrightarrow> reads_as text ws \<Longrightarrow> reads_as (v @ '' '' @ text) (v # ws)"
  by (simp add: reads_as_def shell_plain_start shell_next option.map_comp del: shell_words.simps)
    (simp add: o_def append_more)

lemma reads_joined:
  "list_all2 reads_as texts wss \<Longrightarrow> texts \<noteq> [] \<Longrightarrow> shell_words Between (join curl_break texts) = Some (concat wss)"
proof (induction texts arbitrary: wss rule: induct_list012)
  case 1
  then show ?case by simp
next
  case (2 w)
  from "2.prems"(1) obtain ws where "wss = [ws]" "reads_as w ws" by (auto simp: list_all2_Cons1)
  moreover have "shell_words Between (w @ []) = map_option ((@) (butlast ws)) (shell_words (In_word (last ws)) [])"
    using calculation(2) unfolding reads_as_def by blast
  ultimately show ?case by (auto simp: reads_as_def)
next
  case (3 w v vs)
  from "3.prems"(1) obtain ws wss' where wss: "wss = ws # wss'" "reads_as w ws" "list_all2 reads_as (v # vs) wss'"
    by (auto simp: list_all2_Cons1)
  have "shell_words Between (w @ curl_break @ join curl_break (v # vs))
      = map_option ((@) (butlast ws)) (shell_words (In_word (last ws)) (curl_break @ join curl_break (v # vs)))"
    using wss(2) unfolding reads_as_def by blast
  also have "\<dots> = Some (butlast ws @ last ws # concat wss')"
    using "3.IH"(2) [OF wss(3)] by (simp add: shell_break)
  also have "butlast ws @ last ws # concat wss' = ws @ concat wss'"
    using wss(2) by (metis append_Cons append_assoc append_butlast_last_id append_Nil reads_as_def)
  finally show ?case using wss(1) by simp
qed

text \<open>C19: What the panel copies as a command is the request: a shell that reads the command gets \<open>curl\<close>, the method, the
  address, one header for each row that is switched on and has a name, and the payload, each
  exactly as it stands in the panel, whatever quotes, blanks or line ends it holds. The method alone is not
  quoted, so it has to be a plain word.\<close>

theorem copied_command_reads_back:
  assumes "list_all shell_plain method" and "method \<noteq> []"
  shows "shell_words Between (curl_command method url rows payload)
    = Some ([''curl'', ''-X'', method, url] @ concat (map (\<lambda>h. [''-H'', fst h @ '': '' @ snd h]) (sent_headers rows))
        @ (if payload \<noteq> [] then [''-d'', payload] else []))"
proof -
  let ?texts = "[''curl -X '' @ method @ '' '' @ shell_quote url]
    @ map (\<lambda>h. ''-H '' @ shell_quote (fst h @ '': '' @ snd h)) (sent_headers rows)
    @ (if payload \<noteq> [] then [''-d '' @ shell_quote payload] else [])"
  let ?wss = "[[''curl'', ''-X'', method, url]] @ map (\<lambda>h. [''-H'', fst h @ '': '' @ snd h]) (sent_headers rows)
    @ (if payload \<noteq> [] then [[''-d'', payload]] else [])"
  have plain: "list_all shell_plain ''curl''" "list_all shell_plain ''-X''" "list_all shell_plain ''-H''" "list_all shell_plain ''-d''"
    by (simp_all add: shell_plain_def letter_def)
  have "reads_as (''curl -X '' @ method @ '' '' @ shell_quote url) [''curl'', ''-X'', method, url]"
    using reads_as_plain [OF plain(1) _ reads_as_plain [OF plain(2) _ reads_as_quoted [OF assms]]] by simp
  moreover have "reads_as (''-H '' @ shell_quote t) [''-H'', t]" "reads_as (''-d '' @ shell_quote t) [''-d'', t]" for t
    using reads_as_quoted [OF plain(3)] reads_as_quoted [OF plain(4)] by simp_all
  ultimately have "list_all2 reads_as ?texts ?wss" by (intro list_all2_appendI) (auto simp: list.rel_map intro!: list.rel_refl_strong)
  from reads_joined [OF this] show ?thesis by (simp add: curl_command_def curl_break_def)
qed

theorem copied_command_reads_back_witness:
  "shell_words Between (curl_command ''POST'' ''http://a/?q=it's'' [] ''x y'')
    = Some [''curl'', ''-X'', ''POST'', ''http://a/?q=it's'', ''-d'', ''x y'']"
proof -
  have "list_all shell_plain ''POST''" by (simp add: shell_plain_def letter_def)
  from copied_command_reads_back [OF this, of "''http://a/?q=it's''" "[]" "''x y''"] show ?thesis
    by (simp add: sent_headers_def)
qed

section \<open>Addresses\<close>

lemma drop_trailing_id: "s = [] \<or> \<not> P (last s) \<Longrightarrow> drop_trailing P s = s"
  by (cases s rule: rev_cases) (auto simp: drop_trailing_def)



section \<open>References\<close>

definition publishers_identified :: "obj list \<Rightarrow> bool" where
  "publishers_identified ps \<longleftrightarrow> distinct (map (\<lambda>p. trimmed_member p ''id'') ps)
     \<and> (\<forall>p \<in> set ps. trimmed_member p ''id'' \<noteq> [] \<and> oget p ''id'' = JStr (trimmed_member p ''id''))"

lemma by_id_found:
  assumes "publishers_identified ps" "p \<in> set ps"
  shows "map_of (publishers_by_id ps) (trimmed_member p ''id'') = Some p"
proof -
  have "filter (\<lambda>e. fst e \<noteq> []) (rev (map (\<lambda>p. (trimmed_member p ''id'', p)) ps)) = rev (map (\<lambda>p. (trimmed_member p ''id'', p)) ps)"
    using assms(1) by (intro filter_True) (auto simp: publishers_identified_def)
  moreover have "distinct (map fst (rev (map (\<lambda>p. (trimmed_member p ''id'', p)) ps)))"
    using assms(1) by (simp add: publishers_identified_def o_def rev_map [symmetric])
  ultimately show ?thesis
    unfolding publishers_by_id_def using assms(2) by (auto intro!: map_of_is_SomeI)
qed

lemma by_id_in: "map_of (publishers_by_id ps) i = Some p \<Longrightarrow> p \<in> set ps"
  by (auto simp: publishers_by_id_def dest!: map_of_SomeD)

lemma snd_set_oput: "snd ` set (oput k v m) \<subseteq> insert v (snd ` set m)"
  by (induction m) auto

lemma names_once_in: "map_of (names_once m ps) k = Some p \<Longrightarrow> p \<in> set ps \<or> p \<in> snd ` set m"
proof (induction m ps rule: names_once.induct)
  case (1 m)
  then show ?case by (force dest: map_of_SomeD)
next
  case (2 m p' ps)
  let ?n = "trimmed_member p' ''name''"
  have "snd ` set (if ?n = [] then m else if ohas m ?n then odel ?n m else oput ?n p' m) \<subseteq> insert p' (snd ` set m)"
    using snd_set_oput [of ?n p' m] by (auto simp: AList.delete_eq)
  with 2 show ?case by (auto simp: Let_def)
qed

lemma first_some_all: "first_some xs = Some y \<Longrightarrow> (\<And>z. Some z \<in> set xs \<Longrightarrow> Q z) \<Longrightarrow> Q y"
  by (induction xs) (auto simp: first_some_def split: option.splits)

lemma referenced_in:
  assumes "referenced_publisher ps pn pid output = Some p"
  shows "p \<in> set ps"
proof -
  have n: "map_of (names_once [] ps) k = Some q \<Longrightarrow> q \<in> set ps" for k q using names_once_in [of "[]" ps k q] by simp
  have two: "first_some [map_of (publishers_by_id ps) i, map_of (names_once [] ps) k] = Some q \<Longrightarrow> q \<in> set ps" for i k q
    by (erule first_some_all) (auto dest: by_id_in [OF sym] n [OF sym])
  from assms show ?thesis
    unfolding referenced_publisher_def Let_def
    by (rule first_some_all) (auto dest: by_id_in [OF sym] n [OF sym] two [OF sym] split: if_splits)
qed

lemma sync_found:
  assumes "publishers_identified ps" "p \<in> set ps"
    and "oget c ''output'' = JObj output" "oget output ''mode'' = JStr ''publisher''"
    and "oget output ''publisher_id'' = JStr (trimmed_member p ''id'')"
  shows "sync_reference ps pn pid c = oput ''output'' (JObj (oput ''publisher_id'' (oget p ''id'')
    (oput ''publisher'' (JStr (str_or (oget p ''name'') [])) output))) c"
proof -
  have "trimmed_member p ''id'' \<noteq> []" using assms(1,2) by (auto simp: publishers_identified_def)
  then have "js_trim (member_str (JObj output) ''publisher_id'') = trimmed_member p ''id''"
    using assms(5) by (simp add: member_str_def str_or_def js_or_def trimmed_member_def)
  then have "referenced_publisher ps pn pid (JObj output) = Some p"
    using by_id_found [OF assms(1,2)] by (simp add: referenced_publisher_def first_some_def)
  with assms(3,4) show ?thesis by (simp add: sync_reference_def)
qed

lemma referenced_none:
  "referenced_publisher ps pn pid output = None \<Longrightarrow> referenced_publisher ps [] [] output = None"
  by (auto simp: referenced_publisher_def first_some_def Let_def split: option.splits)



end
