(* ===== verification/PublisherSend.thy ===== *)
theory PublisherSend
  imports PublisherFacts
begin

text \<open>
  What the publishers panel guarantees of sending, of the history and the drafts in the browser's storage, of
  saving with a draft of the form, and of deleting.
\<close>

section \<open>What drawing leaves alone\<close>

lemma pub_panel_frame [simp]:
  "pw_page (pub_panel_do f w) = pw_page w" "pw_nav (pub_panel_do f w) = pw_nav w" "pw_panel (pub_panel_do f w) = f (pw_panel w)"
  "pw_history (pub_panel_do f w) = pw_history w" "pw_local (pub_panel_do f w) = pw_local w"
  "pw_responses (pub_panel_do f w) = pw_responses w" "pw_browser (pub_panel_do f w) = pw_browser w"
  "pw_sync (pub_panel_do f w) = pw_sync w" "pw_drafts (pub_panel_do f w) = pw_drafts w" "pw_ids (pub_panel_do f w) = pw_ids w"
  by (simp_all add: pub_panel_do_def)

lemma metadata_rows_frame:
  "build_metadata_rows p w = (rows, w') \<Longrightarrow> \<exists>n. w' = w\<lparr>pw_next_row := n\<rparr>"
  unfolding build_metadata_rows_def Let_def by (force split: prod.splits)

text \<open>What the panel works on, apart from what it draws, the row counter and the selection.\<close>

definition held_by_panel :: "'n pub_world \<Rightarrow> 'n save_world \<times> obj \<times> obj \<times> (string \<times> response_state) list \<times> browser \<times> bool \<times> (int \<times> obj) list" where
  "held_by_panel w = (pw_page w, pw_history w, pw_local w, pw_responses w, pw_browser w, pw_sync w, pw_drafts w)"

lemma held_render: "held_by_panel (render_selected_publisher env w) = held_by_panel w"
proof (cases "current_publisher w")
  case None
  then show ?thesis by (simp add: render_selected_publisher_def held_by_panel_def)
next
  case (Some p)
  obtain rows w' where b: "build_metadata_rows p w = (rows, w')" by force
  then obtain n where "w' = w\<lparr>pw_next_row := n\<rparr>" using metadata_rows_frame by blast
  with Some b show ?thesis
    by (simp add: render_selected_publisher_def held_by_panel_def show_publisher_def Let_def)
qed

lemma pub_render_frame [simp]:
  "pw_page (render_selected_publisher env w) = pw_page w" "pw_history (render_selected_publisher env w) = pw_history w"
  "pw_local (render_selected_publisher env w) = pw_local w" "pw_responses (render_selected_publisher env w) = pw_responses w"
  "pw_browser (render_selected_publisher env w) = pw_browser w" "pw_sync (render_selected_publisher env w) = pw_sync w"
  "pw_drafts (render_selected_publisher env w) = pw_drafts w"
  using held_render [of env w] by (simp_all add: held_by_panel_def)

lemma get_response_cong: "pw_responses v = pw_responses w \<Longrightarrow> get_publisher_response_state p v = get_publisher_response_state p w"
  by (simp only: get_publisher_response_state_def)

lemma response_render [simp]:
  "get_publisher_response_state p (render_selected_publisher env w) = get_publisher_response_state p w"
  by (rule get_response_cong) simp

lemma map_of_fold_oput: "map_of (fold (\<lambda>k. oput k v) ks m) k = (if k \<in> set ks then Some v else map_of m k)"
  by (induction ks arbitrary: m) (auto simp: update_conv')

lemma get_set_response:
  assumes "publisher_storage_keys_for p \<noteq> []"
  shows "get_publisher_response_state p (set_publisher_response_state p st w) = Some st"
proof -
  obtain k ks where k: "publisher_storage_keys_for p = k # ks" using assms by (cases "publisher_storage_keys_for p") auto
  have "map_of (pw_responses (set_publisher_response_state p st w)) k = Some st"
    by (simp add: set_publisher_response_state_def k map_of_fold_oput update_conv' del: fold_simps)
  then show ?thesis by (simp add: get_publisher_response_state_def k)
qed

section \<open>Storage\<close>

lemma store_item_frame: "store_item env k t w = (r, w') \<Longrightarrow> \<exists>b. w' = w\<lparr>pw_browser := b\<rparr>"
  by (intro exI [of _ "pw_browser w'"]) (auto simp: store_item_def split: browser.splits prod.splits bool.splits)

lemma store_item_error: "fst (store_item env k t w) \<noteq> Inr () \<Longrightarrow> store_item env k t w = (Inl (pe_denied env), w)"
  by (auto simp: store_item_def split: browser.splits prod.splits bool.splits)

lemma store_item_kept:
  assumes "store_item env k t w = (Inr (), w')" "pw_browser w \<noteq> Without_storage"
  shows "local_get_item (pw_browser w') k = Some t"
  using assms by (auto simp: store_item_def local_set_item_def get_browser_storage_def local_get_item_def update_conv' Let_def
      split: browser.splits prod.splits bool.splits if_splits)

section \<open>Sending\<close>

lemma history_table_put [simp]: "history_table (put_history t w) = t"
  by (simp add: history_table_def put_history_def oget_def update_conv')

lemma record_frame [simp]:
  "history_table (record_history env p e w) = oput (history_bucket_key_for p)
     (JArr (e # array_or_empty (oget (history_table w) (history_bucket_key_for p)))) (history_table w)"
  "pw_responses (record_history env p e w) = pw_responses w" "pw_sync (record_history env p e w) = pw_sync w"
  "pw_browser (record_history env p e w) = pw_browser w"
  by (simp_all add: record_history_def history_table_def put_history_def Let_def oget_def update_conv')

lemma history_table_cong: "pw_history v = pw_history w \<Longrightarrow> history_table v = history_table w"
  by (simp add: history_table_def)

lemma show_response_frame [simp]:
  "pw_history (show_response p st w) = pw_history w" "pw_sync (show_response p st w) = pw_sync w"
  "pw_browser (show_response p st w) = pw_browser w" "pw_page (show_response p st w) = pw_page w"
  "pw_nav (show_response p st w) = pw_nav w"
  by (simp_all add: show_response_def set_publisher_response_state_def)

lemma get_show_response:
  "publisher_storage_keys_for p \<noteq> [] \<Longrightarrow> get_publisher_response_state p (show_response p st w) = Some st"
  using get_response_cong [of "show_response p st w" "set_publisher_response_state p st w" p] get_set_response [of p st w]
  by (simp add: show_response_def)

text \<open>The entry of the history for an answer.\<close>

definition entry_for :: "'n pub_env \<Rightarrow> obj \<Rightarrow> publish_details \<Rightarrow> response \<Rightarrow> string \<Rightarrow> jval" where
  "entry_for env p details r body =
     build_history_entry (pe_kinds env) (pe_later env) p (rs_status r)
       (if rs_status_text r = [] then ''OK'' else rs_status_text r) (pe_later env - pe_now env)
       (parse_json_if_possible body) (pd_metadata details)"

lemma answered_outcome:
  fixes env :: "'n pub_env"
  assumes "rs_body r = Some body" and "publisher_storage_keys_for p \<noteq> []"
    and "recorded = record_history env p (entry_for env p details r body)
      (show_response p (answer_state (pe_mark env) (pe_lc env) r (pe_later env - pe_now env) (parse_json_if_possible body) details) w)"
  shows "pw_history (publish_settled env p details (Answered r) w) = pw_history recorded
    \<and> (if fst (persist_history env recorded) = Inr ()
       then pw_sync (publish_settled env p details (Answered r) w)
         \<and> get_publisher_response_state p (publish_settled env p details (Answered r) w)
           = Some (answer_state (pe_mark env) (pe_lc env) r (pe_later env - pe_now env) (parse_json_if_possible body) details)
       else pw_sync (publish_settled env p details (Answered r) w) = pw_sync w
         \<and> get_publisher_response_state p (publish_settled env p details (Answered r) w)
           = Some (failed_state (pe_mark env) details (''Error: '' @ pe_message env (pe_denied env))))"
proof -
  let ?a = "answer_state (pe_mark env) (pe_lc env) r (pe_later env - pe_now env) (parse_json_if_possible body) details"
  obtain res w1 where s: "persist_history env recorded = (res, w1)" by force
  then obtain b where w1: "w1 = recorded\<lparr>pw_browser := b\<rparr>" unfolding persist_history_def using store_item_frame by blast
  have rec: "pw_responses recorded = pw_responses (show_response p ?a w)" "pw_sync recorded = pw_sync w"
    using assms(3) by simp_all
  have shown: "get_publisher_response_state p v = Some ?a" if "pw_responses v = pw_responses recorded" for v :: "'n pub_world"
    using get_response_cong [of v "show_response p ?a w" p] get_show_response [OF assms(2)] that rec by simp
  show ?thesis
  proof (cases "res = Inr ()")
    case True
    have "publish_settled env p details (Answered r) w = schedule_history_sync (render_selected_publisher env w1)"
      using s True by (simp add: publish_settled_def publish_answered_def assms(1) await_def doing_def Let_def assms(3) entry_for_def
          split: unit.split)
    then show ?thesis using s True shown by (simp add: schedule_history_sync_def w1)
  next
    case False
    have "res = Inl (pe_denied env) \<and> w1 = recorded"
      using False s store_item_error [of env publisher_history_key _ recorded] unfolding persist_history_def by (metis fst_conv prod.inject)
    then have "publish_settled env p details (Answered r) w
        = publish_failed env p details (pe_message env (pe_denied env)) recorded"
      using s by (simp add: publish_settled_def publish_answered_def assms(1) await_def doing_def Let_def assms(3) entry_for_def)
    then show ?thesis
      using s False rec by (simp add: publish_failed_def get_show_response [OF assms(2)])
  qed
qed

section \<open>A panel to run\<close>

definition sample_publisher :: obj where
  "sample_publisher = [(''id'', JStr ''p1''), (''name'', JStr ''orders''),
     (''endpoint'', JObj [(''kafka'', JObj [(''topic'', JStr ''events'')])]), (''payload'', JStr ''{}''), (''headers'', JArr [])]"

definition sample_pub_env :: "'n fetch \<Rightarrow> 'n pub_env" where
  "sample_pub_env f = \<lparr>pe_save = sample_save_env f, pe_lc = (\<lambda>_ _. 0),
     pe_urls = \<lparr>ua_parse = (\<lambda>_. None), ua_plain = (\<lambda>_. None), ua_root = (\<lambda>_. None)\<rparr>,
     pe_kinds = \<lparr>known_root_keys = [], publisher_options = [], consumer_options = [], structural_kinds = [],
       response_capable = [], basic_endpoint_fields = [],
       request_bar_layouts = [(''kafka'', \<lparr>show_method = None, bar_fields = [\<lparr>bf_input = ''pub-extra-1'', bf_field = ''topic'',
         bf_label = ''TOPIC'', bf_placeholder = None\<rparr>]\<rparr>)]\<rparr>,
     pe_fresh = (\<lambda>prefix n. prefix @ ''-'' @ nat_str n), pe_now = 0, pe_later = 5, pe_local_time = int_str,
     pe_mark = [], pe_denied = Js_error ''full'', pe_message = (\<lambda>e. ''failed''),
     pe_publish = (\<lambda>rq n. (Answered \<lparr>rs_ok = True, rs_status = 200, rs_status_text = [], rs_body = Some ''ok''\<rparr>, n)),
     pe_schema = JObj [], pe_form_container = False, pe_desktop = False, pe_clipboard = True\<rparr>"

definition sample_field :: field_state where
  "sample_field = \<lparr>fs_label = [], fs_placeholder = [], fs_value = [], fs_visible = False, fs_browse = False\<rparr>"

definition sample_pub_panel :: pub_panel where
  "sample_pub_panel = \<lparr>ps_has = True, ps_items = [], ps_grouped = [], ps_history_index = -1, ps_new = False,
     ps_delete_label = [], ps_type = [], ps_method_visible = False, ps_method = [], ps_one = sample_field,
     ps_two = sample_field, ps_url = sample_field, ps_payload = [], ps_rows = [], ps_response = ready_state, ps_history = []\<rparr>"

definition sample_pub_world :: "'n \<Rightarrow> browser \<Rightarrow> 'n pub_world" where
  "sample_pub_world n b = \<lparr>pw_page = (sample_page n)\<lparr>sw_config := [(''publishers'', JArr [JObj sample_publisher])]\<rparr>,
     pw_nav = sample_nav, pw_panel = sample_pub_panel, pw_drafts = [], pw_local = [], pw_history = [], pw_responses = [],
     pw_next_row = 1, pw_sync = False, pw_form = None, pw_signature = None, pw_browser = b, pw_cached_state = Undef,
     pw_cached_history = Undef, pw_window_saved = None, pw_ids = 0, pw_notices = [], pw_clip = None\<rparr>"

lemma sample_rows: "pub_rows (sample_pub_world n b) = [sample_publisher]"
  by (simp add: sample_pub_world_def rows_at_def oget_def)

lemma sample_current_publisher: "current_publisher (sample_pub_world n b) = Some sample_publisher"
  by (simp add: current_publisher_def current_at_def sample_rows)

lemma sample_keys: "publisher_storage_keys_for sample_publisher = [''p1'', ''orders'']"
  by code_simp

section \<open>The history\<close>

text \<open>C4: Every answered message is in the history: after an answer the publisher's bucket holds an entry for this
  message in front of all earlier ones, and no other publisher's bucket has changed. When the browser
  keeps the history, the answer is shown and the history is going to be sent to the server; when it refuses
  (its storage is full or closed), a message the server has answered is shown as failed, with the
  browser's error, and the history is not sent.\<close>

theorem sent_message_recorded:
  assumes "current_publisher w = Some p" and "publisher_storage_keys_for p \<noteq> []"
    and "pe_publish env (publish_request (details_to_send env p w)) (sw_net (pw_page w)) = (Answered r, n)"
    and "rs_body r = Some body"
    and "w' = send_publisher env w" and "k = history_bucket_key_for p"
  shows "oget (history_table w') k
      = JArr (entry_for env p (details_to_send env p w) r body # array_or_empty (oget (history_table w) k))
    \<and> (j = k \<or> oget (history_table w') j = oget (history_table w) j)
    \<and> (if fst (store_item env publisher_history_key (stringify (JObj (pw_history w'))) w) = Inr ()
       then pw_sync w' \<and> get_publisher_response_state p w' = Some (answer_state (pe_mark env) (pe_lc env) r
         (pe_later env - pe_now env) (parse_json_if_possible body) (details_to_send env p w))
       else pw_sync w' = pw_sync w \<and> get_publisher_response_state p w'
         = Some (failed_state (pe_mark env) (details_to_send env p w) (''Error: '' @ pe_message env (pe_denied env))))"
proof -
  let ?d = "details_to_send env p w" and ?w1 = "show_response p pending_state w"
  let ?w2 = "?w1\<lparr>pw_page := (pw_page ?w1)\<lparr>sw_net := n\<rparr>\<rparr>"
  let ?a = "answer_state (pe_mark env) (pe_lc env) r (pe_later env - pe_now env) (parse_json_if_possible body) ?d"
  let ?rec = "record_history env p (entry_for env p ?d r body) (show_response p ?a ?w2)"
  have w': "w' = publish_settled env p ?d (Answered r) ?w2"
    using assms(1,3,5) by (simp add: send_publisher_def Let_def)
  note out = answered_outcome [OF assms(4,2) refl, of env ?d ?w2, folded w']
  have "history_table w' = history_table ?rec" using out by (intro history_table_cong) simp
  moreover have "history_table (show_response p ?a ?w2) = history_table w"
    by (rule history_table_cong) simp
  moreover have "fst (persist_history env ?rec) = fst (store_item env publisher_history_key (stringify (JObj (pw_history w'))) w)"
    using out by (simp add: persist_history_def store_item_def del: stringify.simps split: browser.split prod.split bool.split)
  ultimately show ?thesis using out by (auto simp: assms(6))
qed

theorem sent_message_recorded_witness:
  "pw_sync (send_publisher (sample_pub_env keeping_server) (sample_pub_world [] Without_storage))
    \<and> \<not> pw_sync (send_publisher (sample_pub_env keeping_server) (sample_pub_world [] Access_denied))"
proof -
  let ?r = "\<lparr>rs_ok = True, rs_status = 200, rs_status_text = [], rs_body = Some ''ok''\<rparr>"
  have sent: "pe_publish (sample_pub_env keeping_server) rq n = (Answered ?r, n)" for rq n
    by (simp add: sample_pub_env_def)
  have ks: "publisher_storage_keys_for sample_publisher \<noteq> []" by (simp add: sample_keys)
  have body: "rs_body ?r = Some ''ok''" by simp
  note run = sent_message_recorded [OF sample_current_publisher ks sent body refl refl]
  have stores: "fst (store_item (sample_pub_env keeping_server) k t (sample_pub_world [] Without_storage)) = Inr ()"
    "fst (store_item (sample_pub_env keeping_server) k t (sample_pub_world [] Access_denied)) = Inl (Js_error ''full'')" for k t
    by (simp_all add: store_item_def sample_pub_world_def sample_pub_env_def local_set_item_def get_browser_storage_def)
  have "\<not> pw_sync (sample_pub_world [] b)" for b by (simp add: sample_pub_world_def)
  with run [of "[]" Without_storage] run [of "[]" Access_denied] show ?thesis by (simp add: stores)
qed

section \<open>The drafts\<close>

lemma is_object_clone [simp]: "is_object (clone_json v) = is_object v"
  by (cases v) simp_all

lemma find_clone: "List.find is_object (map clone_json vs) = map_option clone_json (List.find is_object vs)"
  by (induction vs) simp_all

text \<open>C21: The drafts of payloads and header rows survive a restart: what the browser has accepted to store is read back
  by the next start of the panel, for every publisher, in its JSON form.\<close>

theorem drafts_survive_restart:
  assumes "persist_local_state env w = (Inr (), w')" and "pw_browser w \<noteq> Without_storage" and "wf_jval (JObj (pw_local w))"
    and "pw_browser v = pw_browser w'" and "\<not> is_object (pw_cached_state v)"
  shows "read_local_publisher_state q (load_local_state v) = clone_json (read_local_publisher_state q w)"
proof -
  have "local_get_item (pw_browser v) publisher_state_key = Some (stringify (JObj (pw_local w)))"
    using store_item_kept assms(1,2,4) unfolding persist_local_state_def by metis
  moreover have "parse_json (stringify (JObj (pw_local w))) = Some (clone_json (JObj (pw_local w)))"
    by (rule parse_stringify_clone) (use assms(3) in simp_all)
  ultimately have l: "pw_local (load_local_state v) = record_or_empty (clone_json (JObj (pw_local w)))"
    using assms(5) by (simp add: load_local_state_def del: stringify.simps clone_json.simps)
  obtain ds where ds: "clone_json (JObj (pw_local w)) = JObj ds" by simp
  have "oget ds k = clone_json (oget (pw_local w) k)" for k by (rule oget_clone [OF _ ds]) (use assms(3) in simp)
  then have "map (oget (pw_local (load_local_state v))) ks = map clone_json (map (oget (pw_local w)) ks)" for ks
    by (simp add: l ds del: clone_json.simps)
  then show ?thesis
    by (simp add: read_local_publisher_state_def find_clone del: map_map split: option.split)
qed

theorem drafts_survive_restart_witness:
  "\<exists>b. read_local_publisher_state sample_publisher (load_local_state (sample_pub_world ''{}'' b)) = JObj [(''payload'', JStr ''x'')]"
proof -
  let ?env = "sample_pub_env keeping_server"
  let ?w = "(sample_pub_world ''{}'' (With_storage \<lparr>quota = 1000, items = []\<rparr>))\<lparr>pw_local := [(''p1'', JObj [(''payload'', JStr ''x'')])]\<rparr>"
  have "length (stringify (JObj (pw_local ?w))) < 100" by code_simp
  then obtain b where p: "persist_local_state ?env ?w = (Inr (), ?w\<lparr>pw_browser := b\<rparr>)"
    by (simp add: persist_local_state_def store_item_def sample_pub_world_def local_set_item_def get_browser_storage_def
        used_space_def publisher_state_key_def Let_def del: stringify.simps)
  have "wf_jval (JObj (pw_local ?w))" by simp
  from drafts_survive_restart [OF p _ this, of "sample_pub_world ''{}'' b" sample_publisher]
  have "read_local_publisher_state sample_publisher (load_local_state (sample_pub_world ''{}'' b))
      = clone_json (read_local_publisher_state sample_publisher ?w)"
    by (simp add: sample_pub_world_def)
  also have "\<dots> = JObj [(''payload'', JStr ''x'')]"
    by (simp add: read_local_publisher_state_def sample_keys oget_def own_entries_def is_index_def is_digit_def)
  finally show ?thesis by blast
qed

section \<open>Saving with a draft\<close>

lemma rows_set [simp]: "rows_at (pub_config (set_rows k rows w)) j = (if j = k then rows else rows_at (pub_config w) j)"
  by (simp add: set_rows_def rows_at_def o_def)

lemma set_rows_frame [simp]:
  "pw_nav (set_rows k rows w) = pw_nav w" "pw_drafts (set_rows k rows w) = pw_drafts w" "pw_panel (set_rows k rows w) = pw_panel w"
  "sw_net (pw_page (set_rows k rows w)) = sw_net (pw_page w)"
  by (simp_all add: set_rows_def)

lemma in_range_current: "0 \<le> pub_index w \<Longrightarrow> pub_index w < int (length (pub_rows w)) \<Longrightarrow> current_at w = nat (pub_index w)"
  by (simp add: current_at_def)

lemma render_nav:
  "0 \<le> pub_index w \<Longrightarrow> pub_index w < int (length (pub_rows w)) \<Longrightarrow> pub_index (render_selected_publisher env w) = pub_index w"
proof -
  assume r: "0 \<le> pub_index w" "pub_index w < int (length (pub_rows w))"
  obtain rows w' where b: "build_metadata_rows (pub_rows w ! current_at w) w = (rows, w')" by force
  then obtain n where "w' = w\<lparr>pw_next_row := n\<rparr>" using metadata_rows_frame by blast
  with r b show ?thesis
    by (auto simp: render_selected_publisher_def current_publisher_def show_publisher_def current_at_def Let_def)
qed

text \<open>The endpoint of a publisher that is merged with a draft of the form.\<close>

lemma drafted_endpoint:
  assumes "distinct (map fst p)" "wf_jval (JObj draft)" "oget draft ''endpoint'' \<noteq> Undef"
  shows "oget (drafted_publisher env p draft w) ''endpoint''
    = JObj (normalize_endpoint_record (clone_json (oget draft ''endpoint'')))"
proof -
  obtain ds where ds: "clone_json (JObj draft) = JObj ds" by simp
  have d: "distinct (map fst ds)"
  proof -
    have "wf_jval (clone_json (JObj draft))" using assms(2) by (rule wf_clone_json)
    then show ?thesis unfolding ds by simp
  qed
  have e: "oget ds ''endpoint'' = clone_json (oget draft ''endpoint'')"
    by (rule oget_clone [OF _ ds]) (use assms(2) in simp)
  obtain es where es: "clone_json (JObj (ospread p ds)) = JObj es" by simp
  have "oget es ''endpoint'' = clone_json (oget (ospread p ds) ''endpoint'')"
    by (rule oget_clone [OF _ es]) (simp add: assms(1))
  also have "oget (ospread p ds) ''endpoint'' = oget ds ''endpoint''"
  proof -
    have "oget ds ''endpoint'' \<noteq> Undef" using e assms(3) by simp
    then have "ohas ds ''endpoint''" by (auto simp: ohas_map_of oget_def split: option.splits)
    then show ?thesis by (simp add: oget_ospread [OF d])
  qed
  finally have "oget es ''endpoint'' = clone_json (oget draft ''endpoint'')" by (simp add: e)
  then show ?thesis
    by (simp add: drafted_publisher_def normal_here_def normalize_publisher_def ds es Let_def del: clone_json.simps)
qed



section \<open>Deleting\<close>

text \<open>A server that accepts no post at present.\<close>

definition rejects_posts :: "'n fetch \<Rightarrow> bool" where
  "rejects_posts fetch \<longleftrightarrow> (\<forall>path body n. case fst (fetch (post_request path body) n) of Inl e \<Rightarrow> True | Inr r \<Rightarrow> \<not> rs_ok r)"

lemma rejected_save:
  assumes "honest_server (se_fetch env) held" "rejects_posts (se_fetch env)"
  shows "\<exists>n e. save_section env k v False False p = (Null, p\<lparr>sw_net := n, sw_alerts := sw_alerts p @ [e]\<rparr>) \<and> held n = held (sw_net p)"
proof -
  let ?c = "oput k v (ospread [] (sw_config p))"
  obtain res n where pc: "post_config (se_marks env) (se_owners env) (se_fetch env) ?c (sw_net p) = (res, n)" by force
  have "\<exists>e. res = Inl e"
    using pc assms(2) unfolding post_config_def rejects_posts_def
    by (auto simp: await_def resolved_def Let_def simp del: stringify.simps split: prod.splits sum.splits)
      (metis fst_conv sum.case(2))
  then obtain e where e: "res = Inl e" by blast
  moreover have "held n = held (sw_net p)"
    using honest_post [OF assms(1), where m = "se_marks env" and ow = "se_owners env" and config = ?c and n = "sw_net p"] pc e by simp
  moreover have "save_section env k v False False p = (Null, p\<lparr>sw_net := n, sw_alerts := sw_alerts p @ [e]\<rparr>)"
    using pc e by (simp add: save_section_def run_save_action_def press_def await_def on_net_def save_config_section_def Let_def)
  ultimately show ?thesis by blast
qed

lemma form_frame [simp]: "pw_page (render_publisher_form env w) = pw_page w"
  by (simp add: render_publisher_form_def Let_def split: option.split)

lemma restore_page [simp]: "pw_page (restore_publisher_view env i tab w) = pw_page w"
  by (simp add: restore_publisher_view_def Let_def)

lemma after_delete_page [simp]: "pw_page (after_delete env i w) = pw_page w"
  by (simp add: after_delete_def Let_def)

lemma forget_page [simp]: "pw_page (forget_publisher p w) = pw_page w"
  by (simp add: forget_publisher_def put_history_def Let_def)

lemma persist_page:
  "persist_local_state env w = (r, w') \<Longrightarrow> pw_page w' = pw_page w"
  "persist_history env w = (r, w') \<Longrightarrow> pw_page w' = pw_page w"
  unfolding persist_local_state_def persist_history_def by (auto dest: store_item_frame)

lemma mark_saved_snapshot:
  "mark_saved k v page = (Inr (), page') \<Longrightarrow> v \<noteq> Undef \<Longrightarrow> map_of (saved_sections (sw_dirty page')) k = clone_section_state v
    \<and> sw_config page' = sw_config page \<and> sw_net page' = sw_net page"
  by (auto simp: mark_saved_def mark_section_saved_def refresh_dirty_section_def Let_def update_conv' split: option.splits if_splits)

lemma refused_save_publishers:
  assumes "honest_server (se_fetch (pe_save env)) held" "rejects_posts (se_fetch (pe_save env))"
  obtains n alerts where "snd (save_publishers_section env w) = w\<lparr>pw_page := (pw_page w)\<lparr>sw_net := n, sw_alerts := alerts\<rparr>\<rparr>"
    and "held n = held (sw_net (pw_page w))"
  using rejected_save [OF assms, of "''publishers''" "oget (pub_config w) ''publishers''" "pw_page w"] that
  by (force simp: save_publishers_section_def)

text \<open>The steps of a deletion the server refuses.\<close>

lemma refused_deletion:
  assumes "current_publisher w = Some p" "honest_server (se_fetch (pe_save env)) held" "rejects_posts (se_fetch (pe_save env))"
    and wd: "wd = forget_publisher p (set_rows ''publishers'' (splice_one (pub_index w) (pub_rows w)) w)"
    and 1: "persist_local_state env wd = (r1, w1)" and 2: "persist_history env w1 = (r2, w2)"
  obtains n alerts r4 page4 where "held n = held (sw_net (pw_page w2))"
    "mark_saved ''publishers'' (oget (pub_config w2) ''publishers'') ((pw_page w2)\<lparr>sw_net := n, sw_alerts := alerts\<rparr>) = (r4, page4)"
    "fst (delete_current_publisher env True w) = Inr () \<longleftrightarrow> r1 = Inr () \<and> r2 = Inr () \<and> r4 = Inr ()"
    "r1 = Inr () \<Longrightarrow> r2 = Inr () \<Longrightarrow> r4 = Inr () \<Longrightarrow>
      pw_page (snd (delete_current_publisher env True w)) = page4"
proof -
  obtain n alerts where s: "snd (save_publishers_section env w2) = w2\<lparr>pw_page := (pw_page w2)\<lparr>sw_net := n, sw_alerts := alerts\<rparr>\<rparr>"
    and n: "held n = held (sw_net (pw_page w2))"
    using refused_save_publishers [OF assms(2,3), of w2] by blast
  let ?page = "(pw_page w2)\<lparr>sw_net := n, sw_alerts := alerts\<rparr>"
  obtain r4 page4 where 4: "mark_saved ''publishers'' (oget (pub_config w2) ''publishers'') ?page = (r4, page4)" by force
  let ?w4 = "w2\<lparr>pw_page := page4\<rparr>"
  have "delete_current_publisher env True w = (case r1 of Inl e \<Rightarrow> (Inl e, w1) | Inr _ \<Rightarrow> (case r2 of Inl e \<Rightarrow> (Inl e, w2)
      | Inr _ \<Rightarrow> (case r4 of Inl e \<Rightarrow> (Inl e, ?w4) | Inr _ \<Rightarrow> (Inr (), after_delete env (pub_index w) ?w4))))"
    using 1 2 4 s by (simp add: delete_current_publisher_def with_current_def assms(1) wd await_def doing_def Let_def
        mark_publishers_saved_def split: sum.split)
  then show thesis by (intro that [OF n 4]) (auto split: sum.splits)
qed

text \<open>C27: A deletion the server refuses is taken for saved: the publisher disappears from the panel, the server still
  holds it, and yet the remaining list is remembered as the one that was saved, so nothing shows that
  there is something left to save.\<close>

theorem refused_deletion_marked_saved:
  assumes "current_publisher w = Some p" and "honest_server (se_fetch (pe_save env)) held"
    and "rejects_posts (se_fetch (pe_save env))" and "delete_current_publisher env True w = (Inr (), w')"
  shows "pub_rows w' = splice_one (pub_index w) (pub_rows w)
    \<and> held (sw_net (pw_page w')) = held (sw_net (pw_page w))
    \<and> map_of (saved_sections (sw_dirty (pw_page w'))) ''publishers'' = clone_section_state (oget (pub_config w') ''publishers'')"
proof -
  let ?rows = "splice_one (pub_index w) (pub_rows w)"
  let ?wd = "forget_publisher p (set_rows ''publishers'' ?rows w)"
  obtain r1 w1 where 1: "persist_local_state env ?wd = (r1, w1)" by force
  obtain r2 w2 where 2: "persist_history env w1 = (r2, w2)" by force
  have page: "pw_page w2 = pw_page (set_rows ''publishers'' ?rows w)"
    using persist_page 1 2 by fastforce
  obtain n alerts r4 page4 where n: "held n = held (sw_net (pw_page w2))"
    and 4: "mark_saved ''publishers'' (oget (pub_config w2) ''publishers'') ((pw_page w2)\<lparr>sw_net := n, sw_alerts := alerts\<rparr>) = (r4, page4)"
    and r: "r4 = Inr ()" and w': "pw_page w' = page4"
    using refused_deletion [OF assms(1-3) refl 1 2] assms(4) by (metis fst_conv snd_conv)
  have rows: "oget (pub_config w2) ''publishers'' = JArr (map JObj ?rows)"
    by (simp add: page set_rows_def)
  note m = mark_saved_snapshot [OF 4 [unfolded r]]
  have "oget (pub_config w') ''publishers'' = JArr (map JObj ?rows)" using m rows by (simp add: w')
  moreover from this have "pub_rows w' = ?rows" by (simp add: rows_at_def o_def)
  ultimately show ?thesis using m rows n page by (simp add: w')
qed

text \<open>A server that answers and accepts nothing.\<close>

definition closed_server :: "unit fetch" where
  "closed_server rq n =
     (Inr \<lparr>rs_ok = (rq_body rq = None), rs_status = 200, rs_status_text = [], rs_body = Some ''null''\<rparr>, n)"

theorem refused_deletion_marked_saved_witness:
  "let w' = snd (delete_current_publisher (sample_pub_env closed_server) True (sample_pub_world () Without_storage))
   in pub_rows w' = []
    \<and> map_of (saved_sections (sw_dirty (pw_page w'))) ''publishers'' = clone_section_state (oget (pub_config w') ''publishers'')"
proof -
  let ?env = "sample_pub_env closed_server" and ?w = "sample_pub_world () Without_storage"
  let ?wd = "forget_publisher sample_publisher (set_rows ''publishers'' (splice_one (pub_index ?w) (pub_rows ?w)) ?w)"
  have f: "se_fetch (pe_save ?env) = closed_server" by (simp add: sample_pub_env_def sample_save_env_def)
  have "parse_json ''null'' = Some Null" by code_simp
  then have h: "honest_server (se_fetch (pe_save ?env)) (\<lambda>_. Null)" and c: "rejects_posts (se_fetch (pe_save ?env))"
    unfolding f by (simp_all add: honest_server_def rejects_posts_def closed_server_def get_request_def post_request_def response_json_def)
  have i: "pub_index ?w = 0" by (simp add: sample_pub_world_def sample_nav_def)
  then have rows: "splice_one (pub_index ?w) (pub_rows ?w) = []" by (simp add: sample_rows splice_one_def remove_nth_def)
  have "pw_browser ?wd = Without_storage"
    by (simp add: forget_publisher_def put_history_def set_rows_def sample_pub_world_def Let_def)
  then have p: "persist_local_state ?env ?wd = (Inr (), ?wd)" "persist_history ?env ?wd = (Inr (), ?wd)"
    by (simp_all add: persist_local_state_def persist_history_def store_item_def)
  have live: "oget (pub_config ?wd) ''publishers'' = JArr []" using rows by (simp add: set_rows_def)
  have "\<exists>d. mark_saved ''publishers'' (JArr []) page = (Inr (), page\<lparr>sw_dirty := d\<rparr>)" for page :: "unit save_world"
    by (rule mark_saved_ok) simp_all
  then have "fst (delete_current_publisher ?env True ?w) = Inr ()"
    using refused_deletion [OF sample_current_publisher h c refl p] live by (metis fst_conv prod.inject)
  then obtain w' where d: "delete_current_publisher ?env True ?w = (Inr (), w')" by (metis fst_conv surj_pair)
  show ?thesis
    using refused_deletion_marked_saved [OF sample_current_publisher h c d] rows by (simp add: d)
qed

end
