(* ===== verification/PublisherInvariant.thy ===== *)
theory PublisherInvariant
  imports PublisherSend
begin

text \<open>
  The type invariant of the publishers panel, over every action and in any order: each publisher of
  the working copy has the members the rest of the panel relies on.
\<close>

section \<open>Publishers\<close>

definition publisher_ok :: "obj \<Rightarrow> bool" where
  "publisher_ok p \<longleftrightarrow> distinct (map fst p) \<and> is_string (oget p ''id'') \<and> oget p ''id'' \<noteq> JStr []
     \<and> is_string (oget p ''name'') \<and> is_record (oget p ''endpoint'') \<and> is_array (oget p ''headers'')"

lemma publisher_ok_put:
  assumes "publisher_ok p"
  shows "s \<noteq> [] \<Longrightarrow> publisher_ok (oput ''id'' (JStr s) p)" "publisher_ok (oput ''name'' (JStr s) p)"
    "publisher_ok (oput ''payload'' v p)" "publisher_ok (oput ''headers'' (JArr rows) p)"
    "publisher_ok (oput ''endpoint'' (JObj es) p)"
  using assms by (simp_all add: publisher_ok_def distinct_update)

lemma normalize_publisher_ok: "distinct (map fst input) \<Longrightarrow> fresh \<noteq> [] \<Longrightarrow> publisher_ok (normalize_publisher fresh input)"
proof -
  assume a: "distinct (map fst input)" "fresh \<noteq> []"
  have "given_id fresh e \<noteq> []" for e using a(2) by (simp add: given_id_def lacks_id_def)
  then show ?thesis
    using distinct_clone [OF a(1)] by (simp add: publisher_ok_def normalize_publisher_def Let_def distinct_update)
qed

lemma publisher_ok_distinct: "publisher_ok p \<Longrightarrow> distinct (map fst p)"
  by (simp add: publisher_ok_def)

lemma publisher_ok_spread: "distinct (map fst c) \<Longrightarrow> publisher_ok n \<Longrightarrow> publisher_ok (ospread c n)"
proof -
  assume d: "distinct (map fst c)" and n: "publisher_ok n"
  then have "ohas n k" if "k \<in> {''id'', ''name'', ''endpoint'', ''headers''}" for k
    using that by (auto simp: publisher_ok_def ohas_map_of oget_def split: option.splits)
  with d n show ?thesis by (simp add: publisher_ok_def oget_ospread)
qed

lemma assign_fields_ok: "publisher_ok p \<Longrightarrow> assign_fields changes p = Inr p' \<Longrightarrow> publisher_ok p'"
  by (auto simp: assign_fields_def publisher_ok_put split: sum.splits)

section \<open>The invariant\<close>

definition pubs_ok :: "'n pub_world \<Rightarrow> bool" where
  "pubs_ok w \<longleftrightarrow> entity_rows publisher_ok (oget (pub_config w) ''publishers'')"

lemma pubs_ok_page: "pw_page v = pw_page w \<Longrightarrow> pubs_ok v = pubs_ok w"
  by (simp add: pubs_ok_def)

lemma pubs_ok_set [simp]:
  "pubs_ok (set_rows ''publishers'' rows w) \<longleftrightarrow> (\<forall>p \<in> set rows. publisher_ok p)"
  "pubs_ok (set_rows ''consumers'' rows w) \<longleftrightarrow> pubs_ok w"
  by (simp_all add: pubs_ok_def set_rows_def)

lemma pubs_ok_all: "pubs_ok w \<Longrightarrow> \<forall>p \<in> set (pub_rows w). publisher_ok p"
  by (simp add: pubs_ok_def entity_rows_at)

lemma current_publisher_in: "current_publisher w = Some p \<Longrightarrow> p \<in> set (pub_rows w)"
proof -
  assume c: "current_publisher w = Some p"
  then have "pub_rows w \<noteq> []" "p = pub_rows w ! current_at w" by (auto simp: current_publisher_def split: if_splits)
  moreover from this have "current_at w < length (pub_rows w)"
    unfolding current_at_def by (cases "pub_index w < 0 \<or> int (length (pub_rows w)) \<le> pub_index w") (simp_all, linarith)
  ultimately show ?thesis by simp
qed

lemma current_publisher_ok: "pubs_ok w \<Longrightarrow> current_publisher w = Some p \<Longrightarrow> publisher_ok p"
  using pubs_ok_all current_publisher_in by blast

lemma pubs_ok_update: "pubs_ok w \<Longrightarrow> publisher_ok p \<Longrightarrow> \<forall>q \<in> set ((pub_rows w)[i := p]). publisher_ok q"
  using pubs_ok_all [of w] set_update_subset_insert [of "pub_rows w" i p] by auto

lemma pubs_ok_put_at: "pubs_ok w \<Longrightarrow> publisher_ok p \<Longrightarrow> \<forall>q \<in> set (put_at i p (pub_rows w)). publisher_ok q"
  using pubs_ok_update [of w p "nat i"] pubs_ok_all [of w] by (simp add: put_at_def)

lemma pubs_ok_put: "pubs_ok w \<Longrightarrow> publisher_ok p \<Longrightarrow> pubs_ok (put_publisher p w)"
  unfolding put_publisher_def using pubs_ok_update by simp

lemma pubs_ok_push: "pubs_ok w \<Longrightarrow> publisher_ok p \<Longrightarrow> pubs_ok (push_publisher p w)"
  using pubs_ok_all [of w] by (auto simp: push_publisher_def)

lemma pubs_ok_frame [simp]:
  "pubs_ok (pub_panel_do f w) = pubs_ok w" "pubs_ok (render_selected_publisher env w) = pubs_ok w"
  "pubs_ok (restore_publisher_view env i tab w) = pubs_ok w" "pubs_ok (draw_id w) = pubs_ok w"
  "pubs_ok (id_drawn c w) = pubs_ok w" "pubs_ok (take_rows m w) = pubs_ok w" "pubs_ok (pub_notice s w) = pubs_ok w"
  "pubs_ok (show_response p st w) = pubs_ok w" "pubs_ok (put_history t w) = pubs_ok w"
  "pubs_ok (record_history env p e w) = pubs_ok w" "pubs_ok (schedule_history_sync w) = pubs_ok w"
  "pubs_ok (write_clipboard_text env txt w) = pubs_ok w" "pubs_ok (after_delete env i w) = pubs_ok w"
  "pubs_ok (forget_publisher p w) = pubs_ok w" "pubs_ok (publish_failed env p d txt w) = pubs_ok w"
  "pubs_ok (w\<lparr>pw_next_row := i\<rparr>) = pubs_ok w" "pubs_ok (w\<lparr>pw_nav := nav\<rparr>) = pubs_ok w"
  "pubs_ok (w\<lparr>pw_drafts := ds\<rparr>) = pubs_ok w" "pubs_ok (w\<lparr>pw_signature := sig\<rparr>) = pubs_ok w"
  "pubs_ok (w\<lparr>pw_ids := m\<rparr>) = pubs_ok w" "pubs_ok (w\<lparr>pw_local := l\<rparr>) = pubs_ok w"
  "pubs_ok (w\<lparr>pw_browser := b\<rparr>) = pubs_ok w" "pubs_ok (w\<lparr>pw_history := h\<rparr>) = pubs_ok w"
  "pubs_ok (w\<lparr>pw_window_saved := ws\<rparr>) = pubs_ok w"
  by (rule pubs_ok_page, simp add: draw_id_def id_drawn_def take_rows_def pub_notice_def show_response_def
      set_publisher_response_state_def put_history_def record_history_def schedule_history_sync_def
      write_clipboard_text_def publish_failed_def Let_def)+

lemma store_item_ok [simp]: "pubs_ok (snd (store_item env k t w)) = pubs_ok w"
  using store_item_frame [of env k t w] by (metis pubs_ok_frame(22) surjective_pairing)

lemma persist_ok [simp]:
  "pubs_ok (snd (persist_local_state env w)) = pubs_ok w" "pubs_ok (snd (persist_history env w)) = pubs_ok w"
  by (simp_all add: persist_local_state_def persist_history_def)

lemma set_local_ok [simp]: "pubs_ok (snd (set_local_publisher_state env p a b w)) = pubs_ok w"
  by (simp add: set_local_publisher_state_def Let_def)

lemma doing_ok [simp]: "snd (doing f w) = f w"
  by (simp add: doing_def)

lemma resolved_ok [simp]: "snd (resolved r w) = w"
  by (simp add: resolved_def)

text \<open>Identifiers handed out are not empty.\<close>

definition pub_names_ids :: "'n pub_env \<Rightarrow> bool" where
  "pub_names_ids env \<longleftrightarrow> (\<forall>prefix n. pe_fresh env prefix n \<noteq> [])"

lemma fresh_publisher_ok: "pub_names_ids env \<Longrightarrow> fresh_publisher_id env w \<noteq> []"
  by (simp add: pub_names_ids_def fresh_publisher_id_def)

lemma normal_here_ok: "pub_names_ids env \<Longrightarrow> distinct (map fst input) \<Longrightarrow> publisher_ok (normal_here env input w)"
  by (simp add: normal_here_def normalize_publisher_ok fresh_publisher_ok)

lemma normalize_publishers_ok:
  "(\<And>n. fresh n \<noteq> []) \<Longrightarrow> \<forall>p \<in> set ps. distinct (map fst p) \<Longrightarrow> \<forall>p \<in> set (fst (normalize_publishers fresh n ps)). publisher_ok p"
  by (induction ps arbitrary: n) (auto simp: Let_def normalize_publisher_ok)

lemma normalize_rows_ok:
  "pub_names_ids env \<Longrightarrow> \<forall>p \<in> set rows. distinct (map fst p) \<Longrightarrow> pubs_ok (normalize_rows env rows w)"
  using normalize_publishers_ok [of "pe_fresh env ''publisher''" rows "pw_ids w"]
  by (simp add: normalize_rows_def pub_names_ids_def Let_def)

section \<open>Editing\<close>

lemma with_current_ok:
  "pubs_ok w \<Longrightarrow> (\<And>p. current_publisher w = Some p \<Longrightarrow> publisher_ok p \<Longrightarrow> pubs_ok (snd (f p w))) \<Longrightarrow> pubs_ok (snd (with_current f w))"
  using current_publisher_ok by (auto simp: with_current_def split: option.split)

lemma form_reports_ok:
  assumes "pub_names_ids env" "pubs_ok w"
  shows "pubs_ok (form_reports env updated w)"
proof (cases "current_publisher (w\<lparr>pw_drafts := AList.update (pub_index w) updated (pw_drafts w)\<rparr>)")
  case None
  then show ?thesis using assms(2) by (simp add: form_reports_def)
next
  case (Some p)
  let ?w = "w\<lparr>pw_drafts := AList.update (pub_index w) updated (pw_drafts w)\<rparr>"
  have w: "pubs_ok ?w" using assms(2) by simp
  have p: "distinct (map fst p)" using current_publisher_ok [OF w Some] by (rule publisher_ok_distinct)
  then have "publisher_ok (ospread p (normal_here env (ospread p updated) ?w))"
    using assms(1) by (intro publisher_ok_spread normal_here_ok) simp_all
  then have "pubs_ok (put_publisher (ospread p (normal_here env (ospread p updated) ?w)) (id_drawn (ospread p updated) ?w))"
    using w by (intro pubs_ok_put) simp_all
  with Some show ?thesis by (simp add: form_reports_def Let_def)
qed

lemma flush_publisher_ok:
  "pub_names_ids env \<Longrightarrow> pubs_ok w \<Longrightarrow> pubs_ok (flush_publisher_draft env blurred typed w)"
  using form_reports_ok by (auto simp: flush_publisher_draft_def Let_def split: option.split)

lemma subtab_publisher_ok [simp]: "pubs_ok (select_publisher_subtab tab w) = pubs_ok w"
  by (simp add: select_publisher_subtab_def)

lemma add_publisher_ok: "pub_names_ids env \<Longrightarrow> pubs_ok w \<Longrightarrow> pubs_ok (add_publisher_action env t w)"
  by (simp add: add_publisher_action_def Let_def pubs_ok_push normal_here_ok)

lemma payload_ok: "pubs_ok w \<Longrightarrow> pubs_ok (snd (update_publisher_payload env v w))"
  unfolding update_publisher_payload_def Let_def
  by (rule with_current_ok) (auto intro!: await_ok [where P = pubs_ok] pubs_ok_put publisher_ok_put)

lemma change_endpoint_ok: "pubs_ok w \<Longrightarrow> publisher_ok p \<Longrightarrow> pubs_ok (snd (change_endpoint changes p w))"
  using assign_fields_ok [of p changes] by (auto simp: change_endpoint_def pubs_ok_put split: sum.split)

lemma method_ok: "pubs_ok w \<Longrightarrow> pubs_ok (snd (update_publisher_method v w))"
  unfolding update_publisher_method_def
  by (rule with_current_ok) (auto intro!: await_ok [where P = pubs_ok] change_endpoint_ok)

lemma request_field_ok: "pubs_ok w \<Longrightarrow> pubs_ok (snd (update_publisher_request_field env i v w))"
  unfolding update_publisher_request_field_def
  by (rule with_current_ok) (auto intro!: await_ok [where P = pubs_ok] change_endpoint_ok split: option.split)

lemma browse_ok: "pubs_ok w \<Longrightarrow> pubs_ok (snd (browse_publisher_file_path env selected w))"
  unfolding browse_publisher_file_path_def by (rule with_current_ok) (auto intro: request_field_ok split: option.split)

lemma sync_rows_ok: "pubs_ok w \<Longrightarrow> pubs_ok (snd (sync_metadata_rows_to_publisher env w))"
  unfolding sync_metadata_rows_to_publisher_def Let_def
  by (rule with_current_ok)
    (auto intro!: await_ok [where P = pubs_ok] pubs_ok_put publisher_ok_put change_endpoint_ok with_current_ok)

lemma edit_rows_ok: "pubs_ok w \<Longrightarrow> pubs_ok (snd (edit_metadata_rows env f w))"
  by (simp add: edit_metadata_rows_def sync_rows_ok)

lemma beautify_ok: "pubs_ok w \<Longrightarrow> pubs_ok (beautify_publisher_payload env w)"
  using current_publisher_ok
  by (auto simp: beautify_publisher_payload_def split: option.split intro!: pubs_ok_put publisher_ok_put)

section \<open>Saving and deleting\<close>

lemma sync_references_ok [simp]: "pubs_ok (sync_consumer_publisher_references a b w) = pubs_ok w"
  by (simp add: sync_consumer_publisher_references_def split: jval.split)

lemma save_publishers_ok:
  assumes "pub_names_ids env" "typed_rows ''publishers'' (se_fetch (pe_save env))" "pubs_ok w"
  shows "pubs_ok (snd (save_publishers_section env w))"
proof -
  obtain saved page where s: "save_section (pe_save env) ''publishers'' (oget (pub_config w) ''publishers'') False False (pw_page w) = (saved, page)"
    by force
  from assms(2) s show ?thesis
  proof (cases rule: save_section_rows)
    case 1
    with assms(3) s show ?thesis by (simp add: save_publishers_section_def pubs_ok_def)
  next
    case (2 rows)
    have "\<forall>p \<in> set (map record_or_empty (map JObj rows)). distinct (map fst p)" using 2(2) by simp
    with 2 s show ?thesis using normalize_rows_ok [OF assms(1)] by (simp add: save_publishers_section_def)
  qed
qed

lemma drafted_ok: "pub_names_ids env \<Longrightarrow> distinct (map fst p) \<Longrightarrow> publisher_ok (drafted_publisher env p d w)"
  by (simp add: drafted_publisher_def normal_here_ok)

lemma merge_publisher_ok:
  assumes "pub_names_ids env" "pubs_ok w" "distinct (map fst p)"
  shows "pubs_ok (merge_publisher_draft env p w)"
proof (cases "map_of (pw_drafts w) (pub_index w)")
  case None
  with assms(2) show ?thesis by (simp add: merge_publisher_draft_def)
next
  case (Some d)
  let ?w = "id_drawn (ospread p (record_or_empty (clone_json (JObj d)))) w"
  have "publisher_ok (oput ''headers'' (JArr (map header_doc (ps_rows (pw_panel w))))
      (oput ''payload'' (oget p ''payload'') (drafted_publisher env p d w)))"
    using drafted_ok [OF assms(1,3)] by (intro publisher_ok_put) simp_all
  with Some show ?thesis
    using pubs_ok_put_at [of ?w] assms(2) by (simp add: merge_publisher_draft_def Let_def del: clone_json.simps)
qed

lemma save_publisher_ok:
  assumes "pub_names_ids env" "typed_rows ''publishers'' (se_fetch (pe_save env))" "pubs_ok w"
  shows "pubs_ok (snd (save_current_publisher env blurred typed w))"
proof (cases "current_publisher w")
  case None
  with assms(3) show ?thesis by (simp add: save_current_publisher_def)
next
  case (Some q)
  let ?w1 = "flush_publisher_draft env blurred typed w"
  let ?p = "case current_publisher ?w1 of Some p \<Rightarrow> p | None \<Rightarrow> []"
  have w1: "pubs_ok ?w1" using flush_publisher_ok assms(1,3) by blast
  then have "distinct (map fst ?p)" using current_publisher_ok publisher_ok_distinct by (auto split: option.split)
  then have w2: "pubs_ok (merge_publisher_draft env ?p ?w1)" using merge_publisher_ok assms(1) w1 by blast
  let ?w3 = "sync_consumer_publisher_references (str_or (oget ?p ''name'') []) (str_or (oget ?p ''id'') []) (merge_publisher_draft env ?p ?w1)"
  obtain saved w4 where s: "save_publishers_section env ?w3 = (saved, w4)" by force
  have "pubs_ok w4" using save_publishers_ok [OF assms(1,2), of ?w3] w2 s by simp
  with Some s show ?thesis by (simp add: save_current_publisher_def Let_def)
qed

lemma set_remove_nth: "set (remove_nth i xs) \<subseteq> set xs"
  by (auto simp: remove_nth_def dest: in_set_takeD in_set_dropD)

lemma mark_publishers_ok [simp]: "pubs_ok (snd (mark_publishers_saved w)) = pubs_ok w"
  by (auto simp: mark_publishers_saved_def mark_saved_def pubs_ok_def split: option.split)

lemma delete_publisher_ok:
  assumes "pub_names_ids env" "typed_rows ''publishers'' (se_fetch (pe_save env))" "pubs_ok w"
  shows "pubs_ok (snd (delete_current_publisher env confirmed w))"
proof -
  have rows: "\<forall>p \<in> set (splice_one i (pub_rows w)). publisher_ok p" for i
    unfolding splice_one_def by (rule ballI, drule subsetD [OF set_remove_nth]) (simp add: pubs_ok_all [OF assms(3)])
  have run: "pubs_ok (snd (await (doing (\<lambda>w. forget_publisher p (set_rows ''publishers'' (splice_one i (pub_rows w)) w)))
      (\<lambda>_. await (persist_local_state env) (\<lambda>_. await (persist_history env)
        (\<lambda>_. await (doing (\<lambda>w. snd (save_publishers_section env w)))
          (\<lambda>_. await mark_publishers_saved (\<lambda>_. doing (after_delete env j)))))) w))" for p i j
    by (intro await_ok [where P = pubs_ok]) (simp_all add: save_publishers_ok [OF assms(1,2)] rows)
  show ?thesis
    unfolding delete_current_publisher_def Let_def
    by (rule with_current_ok [OF assms(3)]) (cases confirmed, simp_all add: assms(3) run)
qed

section \<open>Publishing and the history\<close>

lemma settled_publish_ok [simp]: "pubs_ok (publish_settled env p details outcome w) = pubs_ok w"
proof (cases outcome)
  case (Answered r)
  have "pubs_ok (snd (publish_answered env p details r w)) = pubs_ok w"
  proof (cases "rs_body r")
    case None
    then show ?thesis by (simp add: publish_answered_def)
  next
    case (Some body)
    let ?w = "\<lambda>e st. record_history env p e (show_response p st w)"
    have "pubs_ok (snd (await (persist_history env) (\<lambda>_. doing (\<lambda>w. schedule_history_sync (render_selected_publisher env w))) (?w e st)))
        = pubs_ok w" for e st
    proof -
      obtain r u where u: "persist_history env (?w e st) = (r, u)" by force
      then have "pubs_ok u = pubs_ok w" using persist_ok(2) [of env "?w e st"] by simp
      with u show ?thesis by (simp add: await_def doing_def split: sum.split)
    qed
    with Some show ?thesis by (simp add: publish_answered_def Let_def) (simp add: await_def [of "doing _"] doing_def)
  qed
  then show ?thesis
    by (cases "publish_answered env p details r w")
      (auto simp: Answered publish_settled_def split: sum.split unit.split)
qed (simp_all add: publish_settled_def)

lemma send_ok: "pubs_ok w \<Longrightarrow> pubs_ok (send_publisher env w)"
  by (auto simp: send_publisher_def Let_def pubs_ok_def [of "_\<lparr>pw_page := _\<rparr>"] split: option.split prod.split)
    (simp add: pubs_ok_def)

lemma history_sync_ok: "pubs_ok w \<Longrightarrow> pubs_ok (history_sync env w)"
proof -
  assume w: "pubs_ok w"
  let ?page = "snd (save_section (pe_save env) ''history'' (JObj (pw_history w)) True False (pw_page w))"
  have "oget (sw_config ?page) ''publishers'' = oget (pub_config w) ''publishers''"
    by (auto simp: save_section_def run_save_action_def press_def await_def on_net_def doing_def resolved_def mark_saved_def Let_def
        split: prod.splits sum.splits option.splits)
  with w show ?thesis by (simp add: history_sync_def pubs_ok_def)
qed

lemma clear_history_ok: "pubs_ok w \<Longrightarrow> pubs_ok (snd (clear_active_publisher_history env w))"
  unfolding clear_active_publisher_history_def
  by (rule with_current_ok) (auto intro!: await_ok [where P = pubs_ok])

lemma history_fields_ok:
  "publisher_ok p \<Longrightarrow> apply_history_request_fields_to_publisher parse d p entry = Inr p' \<Longrightarrow> publisher_ok p'"
  unfolding apply_history_request_fields_to_publisher_def by (rule assign_fields_ok)

lemma show_entry_ok: "pubs_ok w \<Longrightarrow> publisher_ok p \<Longrightarrow> pubs_ok (snd (show_history_entry env i entry p w))"
proof -
  assume w: "pubs_ok w" and p: "publisher_ok p"
  let ?p1 = "oput ''payload'' (jget entry ''payload'') p"
  have p1: "publisher_ok ?p1" using p by (rule publisher_ok_put)
  show ?thesis
  proof (cases "apply_history_request_fields_to_publisher (ua_parse (pe_urls env)) (pe_kinds env) ?p1 entry")
    case (Inl e)
    then show ?thesis using w p1 by (simp add: show_history_entry_def Let_def await_def doing_def resolved_def pubs_ok_put)
  next
    case (Inr p2)
    have "publisher_ok p2" using history_fields_ok [OF p1 Inr] .
    with Inr w p1 show ?thesis
      by (auto simp: show_history_entry_def Let_def intro!: await_ok [where P = pubs_ok] pubs_ok_put)
  qed
qed

lemma show_history_ok: "pubs_ok w \<Longrightarrow> pubs_ok (snd (show_publisher_history_entry env i w))"
  by (auto simp: show_publisher_history_entry_def intro!: with_current_ok show_entry_ok split: option.split)

lemma resend_ok: "pubs_ok w \<Longrightarrow> pubs_ok (snd (resend_publisher_history env i w))"
  by (auto simp: resend_publisher_history_def intro!: await_ok [where P = pubs_ok] show_history_ok send_ok split: option.split)

section \<open>Copies\<close>

lemma renamed_copy_ok:
  assumes "pub_names_ids env" "pubs_ok w" "publisher_ok p" "renamed_copy env name p w = (copied, w')"
  shows "publisher_ok copied" "pubs_ok w'"
proof -
  have n: "publisher_ok (normal_here env p w)" using normal_here_ok assms(1,3) publisher_ok_distinct by blast
  then have "publisher_ok (oput ''id'' (JStr (fresh_publisher_id env (id_drawn p w))) (normal_here env p w))"
    by (rule publisher_ok_put) (rule fresh_publisher_ok [OF assms(1)])
  then show "publisher_ok copied" using assms(4) publisher_ok_put(2)
    by (auto simp: renamed_copy_def Let_def split: option.splits)
  show "pubs_ok w'" using assms(2,4) by (auto simp: renamed_copy_def Let_def)
qed

lemma variant_ok:
  assumes "pub_names_ids env" "pubs_ok w"
  shows "pubs_ok (save_current_publisher_variant env answer w)"
proof (cases "current_publisher w")
  case None
  with assms(2) show ?thesis by (simp add: save_current_publisher_variant_def)
next
  case (Some p)
  have "pubs_ok (push_publisher (fst (renamed_copy env n p w)) (snd (renamed_copy env n p w)))" for n
    using renamed_copy_ok [OF assms current_publisher_ok [OF assms(2) Some]] by (metis pubs_ok_push surjective_pairing)
  with Some assms(2) show ?thesis
    by (auto simp: save_current_publisher_variant_def case_prod_unfold Let_def split: option.split)
qed

lemma clone_publisher_ok:
  assumes "pub_names_ids env" "pubs_ok w"
  shows "pubs_ok (clone_current_publisher env w)"
proof (cases "current_publisher w")
  case None
  with assms(2) show ?thesis by (simp add: clone_current_publisher_def)
next
  case (Some p)
  have "pubs_ok (push_publisher (fst (renamed_copy env n p w)) (snd (renamed_copy env n p w)))" for n
    using renamed_copy_ok [OF assms current_publisher_ok [OF assms(2) Some]] by (metis pubs_ok_push surjective_pairing)
  with Some show ?thesis by (simp add: clone_current_publisher_def Let_def case_prod_unfold)
qed

lemma from_history_ok:
  assumes "pub_names_ids env" "pubs_ok w"
  shows "pubs_ok (snd (save_publisher_history_as_publisher env i answer w))"
proof (cases "(current_publisher w, entry_at i w, given_name answer)")
  case (fields x y z)
  show ?thesis
  proof (cases "x = None \<or> y = None \<or> z = None")
    case True
    with fields assms(2) show ?thesis by (auto simp: save_publisher_history_as_publisher_def split: option.split)
  next
    case False
    then obtain p entry name where x: "current_publisher w = Some p" "entry_at i w = Some entry" "given_name answer = Some name"
      using fields by auto
    obtain copied w1 where c: "renamed_copy env (Some name) p w = (copied, w1)" by force
    note ok = renamed_copy_ok [OF assms current_publisher_ok [OF assms(2) x(1)] c]
    let ?rows = "map (\<lambda>r. r\<lparr>hr_enabled := True\<rparr>) (entry_header_rows (pw_next_row w1) entry)"
    let ?next = "oput ''headers'' (JArr (map header_doc ?rows)) (oput ''payload'' (jget entry ''payload'') copied)"
    have next_ok: "publisher_ok ?next" using ok(1) by (intro publisher_ok_put)
    show ?thesis
    proof (cases "apply_history_request_fields_to_publisher (ua_parse (pe_urls env)) (pe_kinds env) ?next entry")
      case (Inl e)
      with x c ok(2) show ?thesis by (simp add: save_publisher_history_as_publisher_def Let_def)
    next
      case (Inr created)
      have "publisher_ok created" using history_fields_ok [OF next_ok Inr] .
      then have "pubs_ok (push_publisher created w1)" using ok(2) by (rule pubs_ok_push [rotated])
      moreover have "save_publisher_history_as_publisher env i answer w
          = await (doing (\<lambda>w. take_rows (length ?rows) (push_publisher created w)))
              (\<lambda>_. await (set_local_publisher_state env created (jget entry ''payload'') (JArr (map row_doc ?rows)))
                (\<lambda>_. doing (\<lambda>w. restore_publisher_view env (last_index w) ''payload'' w))) w1"
        using x c Inr by (simp add: save_publisher_history_as_publisher_def Let_def)
      ultimately show ?thesis by (auto intro!: await_ok [where P = pubs_ok])
    qed
  qed
qed

lemma remember_consumers_ok [simp]: "pubs_ok (remember_consumers v w) = pubs_ok w"
  by (simp add: remember_consumers_def pubs_ok_def split: option.split)

lemma copy_publisher_ok: "pubs_ok w \<Longrightarrow> pubs_ok (copy_current_publisher env w)"
  by (simp add: copy_current_publisher_def Let_def split: option.split)

lemma publisher_variants_ok:
  "pub_names_ids env \<Longrightarrow> pubs_ok w \<Longrightarrow> pubs_ok (snd (current_publisher_config_variants env blurred typed w))"
  using flush_publisher_ok [of env w blurred typed]
  by (auto simp: current_publisher_config_variants_def Let_def split: option.split)

section \<open>Imports\<close>

lemma import_request_publisher_ok: "pub_names_ids env \<Longrightarrow> pubs_ok w \<Longrightarrow> pubs_ok (snd (import_request_to_publisher env r w))"
  by (simp add: import_request_to_publisher_def Let_def pubs_ok_push normal_here_ok split: sum.split)

lemma import_requests_ok:
  assumes "pub_names_ids env" "pubs_ok w"
  shows "pubs_ok (import_requests_to_publishers env source w)"
proof -
  obtain r u where u: "await (resolved (extract_imported_requests source))
      (\<lambda>imported. each (import_request_to_publisher env) (ri_requests imported)) w = (r, u)" by force
  have "pubs_ok (snd (await (resolved (extract_imported_requests source))
      (\<lambda>imported. each (import_request_to_publisher env) (ri_requests imported)) w))"
    by (rule await_ok [where P = pubs_ok], simp add: assms(2))
      (rule each_ok [where P = pubs_ok], rule import_request_publisher_ok [OF assms(1)])
  with u show ?thesis by (simp add: import_requests_to_publishers_def split: sum.split unit.split)
qed

text \<open>A migrated preset is a publisher, whatever it was made of.\<close>

lemma apply_legacy_ok:
  "distinct (map fst p) \<Longrightarrow> is_string (oget p ''id'') \<Longrightarrow> oget p ''id'' \<noteq> JStr [] \<Longrightarrow> is_string (oget p ''name'')
    \<Longrightarrow> publisher_ok (apply_legacy_request po preset p)"
  by (simp add: apply_legacy_request_def publisher_ok_def Let_def distinct_update)

lemma migrate_preset_all:
  assumes "\<And>n. fresh n \<noteq> []" "\<And>p. publisher_ok p \<Longrightarrow> Q (JObj p)"
    and "\<And>b. base = Some b \<Longrightarrow> distinct (map fst (record_or_empty b))" and "\<forall>x \<in> set (mg_publishers m). Q x"
  shows "\<forall>x \<in> set (mg_publishers (migrate_preset po fresh key base preset m)). Q x"
proof -
  have "\<exists>p n i. mg_publishers (migrate_preset po fresh key base preset m)
      = mg_publishers m @ [JObj (apply_legacy_request po preset (oput ''name'' (JStr n) (oput ''id'' (JStr (fresh i)) p)))]
    \<and> distinct (map fst p)"
  proof (cases base)
    case None
    show ?thesis
      by (intro exI conjI, unfold migrate_preset_def Let_def None option.case migration.select_convs, rule refl, simp)
  next
    case (Some b)
    show ?thesis
      by (intro exI conjI, unfold migrate_preset_def Let_def Some option.case migration.select_convs, rule refl, rule assms(3) [OF Some])
  qed
  then obtain p n i where p: "mg_publishers (migrate_preset po fresh key base preset m)
      = mg_publishers m @ [JObj (apply_legacy_request po preset (oput ''name'' (JStr n) (oput ''id'' (JStr (fresh i)) p)))]"
    "distinct (map fst p)" by blast
  then have "publisher_ok (apply_legacy_request po preset (oput ''name'' (JStr n) (oput ''id'' (JStr (fresh i)) p)))"
    by (intro apply_legacy_ok) (simp_all add: distinct_update assms(1))
  with p assms(2,4) show ?thesis by simp
qed

lemma fold_all: "(\<And>x s. P s \<Longrightarrow> P (f x s)) \<Longrightarrow> P s \<Longrightarrow> P (fold f xs s)"
  by (induction xs arbitrary: s) simp_all

lemma migrate_entry_all:
  assumes "\<And>n. fresh n \<noteq> []" "\<And>p. publisher_ok p \<Longrightarrow> Q (JObj p)"
    and "\<And>x. Q x \<Longrightarrow> distinct (map fst (record_or_empty x))" and "\<forall>x \<in> set (mg_publishers m). Q x"
  shows "\<forall>x \<in> set (mg_publishers (migrate_entry po fresh entry m)). Q x"
proof -
  have "\<forall>x \<in> set (mg_publishers (fold (migrate_preset po fresh key base) presets u)). Q x"
    if "\<And>b. base = Some b \<Longrightarrow> distinct (map fst (record_or_empty b))" "\<forall>x \<in> set (mg_publishers u). Q x" for key base presets u
    by (rule fold_all [where P = "\<lambda>u. \<forall>x \<in> set (mg_publishers u). Q x", OF _ that(2)]) (rule migrate_preset_all [where Q = Q, OF assms(1,2) that(1)])
  moreover have "distinct (map fst (record_or_empty b))" if "List.find f (mg_publishers m) = Some b" for f b
    using that assms(3,4) by (auto simp: find_Some_iff)
  ultimately show ?thesis using assms(4) unfolding migrate_entry_def Let_def by blast
qed

lemma ensured_publishers:
  assumes "\<And>n. fresh n \<noteq> []" "\<And>p. publisher_ok p \<Longrightarrow> Q (JObj p)"
    and "\<And>x. Q x \<Longrightarrow> distinct (map fst (record_or_empty x))"
    and "\<forall>x \<in> set (array_or_empty (oget config ''publishers'')). Q x"
  shows "\<forall>x \<in> set (array_or_empty (oget (ensure_workspace_collections po fresh config) ''publishers'')). Q x"
proof -
  have "\<forall>x \<in> set (mg_publishers (fold (migrate_entry po fresh) es u)). Q x"
    if "\<forall>x \<in> set (mg_publishers u). Q x" for es u
    by (rule fold_all [where P = "\<lambda>u. \<forall>x \<in> set (mg_publishers u). Q x", OF _ that]) (rule migrate_entry_all [where Q = Q, OF assms(1-3)])
  moreover have "\<forall>x \<in> set (mg_publishers (migration_start config)). Q x"
    using assms(4) by (simp add: migration_start_def Let_def)
  ultimately show ?thesis
    using assms(4) by (simp add: ensure_workspace_collections_def migrate_legacy_presets_def Let_def)
qed

lemma import_presets_ok:
  assumes "pub_names_ids env" "pubs_ok w"
  shows "pubs_ok (snd (import_mqb_to_publisher env source w))"
proof (cases "parse_json source")
  case (Some v)
  let ?config = "[(''publishers'', oget (pub_config w) ''publishers''),
      (''consumers'', js_or (oget (pub_config w) ''consumers'') (JArr [])),
      (''routes'', js_or (oget (pub_config w) ''routes'') (JObj [])), (''presets'', jget v ''presets'')]"
  let ?new = "ensure_workspace_collections (se_origin (pe_save env)) (\<lambda>i. pe_fresh env ''publisher'' (pw_ids w + i)) ?config"
  have "\<forall>x \<in> set (array_or_empty (oget ?new ''publishers'')). is_record x \<and> publisher_ok (record_or_empty x)"
  proof (rule ensured_publishers)
    show "\<forall>x \<in> set (array_or_empty (oget ?config ''publishers'')). is_record x \<and> publisher_ok (record_or_empty x)"
      using assms(2) by (auto simp: pubs_ok_def entity_rows_def oget_def split: jval.splits)
  qed (use assms(1) in \<open>simp_all add: pub_names_ids_def publisher_ok_distinct\<close>)
  then have "\<forall>p \<in> set (rows_at ?new ''publishers''). publisher_ok p" by (simp add: rows_at_def)
  with Some assms(2) show ?thesis by (simp add: import_mqb_to_publisher_def Let_def)
qed (simp add: import_mqb_to_publisher_def assms(2))

section \<open>The start of the panel\<close>

lemma init_publishers_ok:
  assumes "pub_names_ids env" "\<forall>p \<in> set (pub_rows w). distinct (map fst p)" "init_publishers env w = (Inr (), w')"
  shows "pubs_ok w'"
proof -
  define w1 where "w1 = w\<lparr>pw_page := (pw_page w)\<lparr>sw_config := ensure_workspace_collections (se_origin (pe_save env))
      (\<lambda>i. pe_fresh env ''publisher'' (pw_ids w + i)) (pub_config w)\<rparr>\<rparr>"
  define w2 where "w2 = load_local_state (forget_publisher_session (w1\<lparr>pw_ids := pw_ids w + 2 * length (pub_rows w1)\<rparr>))"
  have "\<forall>x \<in> set (array_or_empty (oget (pub_config w1) ''publishers'')). distinct (map fst (record_or_empty x))"
    unfolding w1_def using assms(1,2)
    by (simp, intro ensured_publishers) (auto simp: pub_names_ids_def publisher_ok_distinct rows_at_def)
  then have rows: "\<forall>p \<in> set (pub_rows w1). distinct (map fst p)" by (simp add: rows_at_def)
  have page: "pw_page w2 = pw_page w1" by (simp add: w2_def load_local_state_def forget_publisher_session_def)
  obtain r u where u: "hydrate_history env w2 = (r, u)" by force
  have "pw_page u = pw_page w2"
    using u by (auto simp: hydrate_history_def persist_history_def Let_def dest: store_item_frame split: if_splits option.splits)
  then have "pubs_ok (normalize_rows env (pub_rows u) u)" using rows page assms(1) by (intro normalize_rows_ok) simp_all
  moreover have "w' = init_publisher_selection env (remember_publishers
      (sync_consumer_publisher_references [] [] (normalize_rows env (pub_rows u) u)))"
    using assms(3) u by (cases r) (simp_all add: init_publishers_def Let_def w1_def [symmetric] w2_def [symmetric] await_def doing_def)
  moreover have "pubs_ok (remember_publishers v) = pubs_ok v" for v :: "'a pub_world"
    by (simp add: remember_publishers_def pubs_ok_def Let_def)
  moreover have "pubs_ok (init_publisher_selection env v) = pubs_ok v" for v
    by (simp add: init_publisher_selection_def Let_def)
  ultimately show ?thesis by simp
qed

section \<open>Any order of actions\<close>

inductive pub_step :: "'n pub_env \<Rightarrow> 'n pub_world \<Rightarrow> 'n pub_world \<Rightarrow> bool" for env where
  restore: "pub_step env w (restore_publisher_view env idx tab w)"
| subtab: "pub_step env w (select_publisher_subtab tab w)"
| form: "pub_step env w (form_reports env updated w)"
| add: "pub_step env w (add_publisher_action env t w)"
| payload: "pub_step env w (snd (update_publisher_payload env txt w))"
| http_method: "pub_step env w (snd (update_publisher_method txt w))"
| request_field: "pub_step env w (snd (update_publisher_request_field env input txt w))"
| browse: "pub_step env w (snd (browse_publisher_file_path env selected w))"
| add_row: "pub_step env w (snd (add_publisher_metadata_row env w))"
| update_row: "pub_step env w (snd (update_publisher_metadata_row env i f txt w))"
| toggle_row: "pub_step env w (snd (toggle_publisher_metadata_row env i enabled w))"
| remove_row: "pub_step env w (snd (remove_publisher_metadata_row env i w))"
| beautify: "pub_step env w (beautify_publisher_payload env w)"
| save: "pub_step env w (snd (save_current_publisher env blurred typed w))"
| delete: "pub_step env w (snd (delete_current_publisher env confirmed w))"
| send: "pub_step env w (send_publisher env w)"
| sync: "pub_step env w (history_sync env w)"
| clear: "pub_step env w (snd (clear_active_publisher_history env w))"
| show_entry: "pub_step env w (snd (show_publisher_history_entry env j w))"
| resend: "pub_step env w (snd (resend_publisher_history env j w))"
| copy_response: "pub_step env w (copy_publisher_response env w)"
| copy_json: "pub_step env w (copy_publisher_response_json env w)"
| copy_curl: "pub_step env w (copy_publisher_as_curl env w)"
| variant: "pub_step env w (save_current_publisher_variant env answer w)"
| cloned: "pub_step env w (clone_current_publisher env w)"
| from_history: "pub_step env w (snd (save_publisher_history_as_publisher env j answer w))"
| to_consumer: "pub_step env w (copy_current_publisher env w)"
| export: "pub_step env w (snd (current_publisher_config_variants env blurred typed w))"
| import_requests: "pub_step env w (import_requests_to_publishers env source w)"
| import_presets: "pub_step env w (snd (import_mqb_to_publisher env source w))"

inductive pub_started :: "'n pub_env \<Rightarrow> 'n pub_world \<Rightarrow> bool" for env where
  "\<forall>p \<in> set (pub_rows w). distinct (map fst p) \<Longrightarrow> init_publishers env w = (Inr (), w') \<Longrightarrow> pub_started env w'"

abbreviation pub_run :: "'n pub_env \<Rightarrow> 'n pub_world \<Rightarrow> bool" where
  "pub_run env \<equiv> panel_run (pub_started env) (pub_step env)"

lemma metadata_rows_ok:
  assumes "pubs_ok w"
  shows "pubs_ok (snd (add_publisher_metadata_row env w))" "pubs_ok (snd (update_publisher_metadata_row env i f txt w))"
    "pubs_ok (snd (toggle_publisher_metadata_row env i enabled w))" "pubs_ok (snd (remove_publisher_metadata_row env i w))"
  using assms by (simp_all add: add_publisher_metadata_row_def update_publisher_metadata_row_def
      toggle_publisher_metadata_row_def remove_publisher_metadata_row_def edit_rows_ok)

lemma clipboard_ok:
  assumes "pubs_ok w"
  shows "pubs_ok (copy_publisher_response env w)" "pubs_ok (copy_publisher_response_json env w)"
    "pubs_ok (copy_publisher_as_curl env w)"
  using assms by (simp_all add: copy_publisher_response_def copy_publisher_response_json_def copy_publisher_as_curl_def Let_def
      split: option.split)

lemmas publisher_action_ok = form_reports_ok add_publisher_ok payload_ok method_ok request_field_ok browse_ok metadata_rows_ok
  beautify_ok save_publisher_ok delete_publisher_ok send_ok history_sync_ok clear_history_ok show_history_ok resend_ok
  clipboard_ok variant_ok clone_publisher_ok from_history_ok copy_publisher_ok publisher_variants_ok import_requests_ok
  import_presets_ok

lemma publisher_step_ok:
  assumes "pub_step env w w'" "pub_names_ids env" "typed_rows ''publishers'' (se_fetch (pe_save env))" "pubs_ok w"
  shows "pubs_ok w'"
  using assms by (cases rule: pub_step.cases) (simp_all add: publisher_action_ok)

interpretation publisher_panel: panel_actions "pub_names_ids env \<and> typed_rows ''publishers'' (se_fetch (pe_save env))"
    "pub_started env" "pub_step env" "\<lambda>w. oget (pub_config w) ''publishers''" publisher_ok for env :: "'n pub_env"
  by unfold_locales
    (auto simp: pubs_ok_def [symmetric] elim: pub_started.cases intro: init_publishers_ok publisher_step_ok)



end
