(* ===== verification/SidebarTree.thy ===== *)
theory SidebarTree
  imports ConsumerTree PublisherTree
begin

text \<open>
  The two sidebars over the grouped trees (\<open>ConsumersPanel.svelte\<close>, \<open>PublishersPanel.svelte\<close>):
  the search that filters a tree, the rows a tree is flattened to, and the set of expanded
  groups. Both panels meet one contract, the locale \<open>tree_search\<close>: the laws of a search over
  leaves and groups, under which the rows of a search are exactly the hits.
\<close>

section \<open>Rows and the text searched for\<close>

datatype 'l sidebar_row =
    Group_row (row_id: string) (row_label: string) (row_depth: nat) (row_expanded: bool)
      (row_type: "string option") (row_tooltip: "string option")
  | Leaf_row nat 'l

definition needle :: "string \<Rightarrow> string" where
  "needle query = to_lower (js_trim query)"

definition text_has :: "string \<Rightarrow> string \<Rightarrow> bool" where
  "text_has q s = js_includes q (to_lower s)"

definition tooltip_text :: "string option \<Rightarrow> string" where
  "tooltip_text t = (case t of None \<Rightarrow> [] | Some s \<Rightarrow> s)"

section \<open>The consumers' sidebar\<close>

fun con_default_expanded :: "con_leaf tree_node list \<Rightarrow> string set \<Rightarrow> string set" where
  "con_default_expanded [] acc = acc"
| "con_default_expanded (Leaf l # ns) acc = con_default_expanded ns acc"
| "con_default_expanded (Group i lab cs ty tt # ns) acc =
     con_default_expanded ns (con_default_expanded cs (insert i acc))"

fun con_node_matches :: "con_leaf tree_node \<Rightarrow> string \<Rightarrow> bool" where
  "con_node_matches (Leaf l) query =
     (let q = needle query
      in q \<noteq> [] \<and> (text_has q (cl_label l) \<or> text_has q (cl_tooltip l) \<or> text_has q (cl_type l)))"
| "con_node_matches (Group i lab cs ty tt) query =
     (let q = needle query
      in q \<noteq> [] \<and> (text_has q lab \<or> text_has q (tooltip_text tt) \<or> text_has q (tooltip_text ty)
            \<or> list_ex (\<lambda>c. con_node_matches c query) cs))"

fun con_filter_tree :: "string \<Rightarrow> con_leaf tree_node list \<Rightarrow> con_leaf tree_node list" where
  "con_filter_tree query [] = []"
| "con_filter_tree query (n # ns) =
     (let q = needle query in
      if q = [] then n # ns
      else (case n of
          Leaf l \<Rightarrow> if con_node_matches (Leaf l) q then [Leaf l] else []
        | Group i lab cs ty tt \<Rightarrow>
            (let children = con_filter_tree q cs
             in if children \<noteq> [] \<or> con_node_matches (Group i lab [] ty tt) q
                then [Group i lab children ty tt] else []))
        @ con_filter_tree query ns)"

fun con_flatten_tree :: "string set \<Rightarrow> string \<Rightarrow> nat \<Rightarrow> con_leaf tree_node list \<Rightarrow> con_leaf sidebar_row list" where
  "con_flatten_tree expanded_ids filter_text depth [] = []"
| "con_flatten_tree expanded_ids filter_text depth (Leaf l # ns) =
     Leaf_row depth l # con_flatten_tree expanded_ids filter_text depth ns"
| "con_flatten_tree expanded_ids filter_text depth (Group i lab cs ty tt # ns) =
     (let filtering = (0 < length (js_trim filter_text));
          expanded = (i \<in> expanded_ids \<or> (filtering \<and> con_node_matches (Group i lab cs ty tt) filter_text))
      in Group_row i lab depth expanded ty tt
           # (if expanded then con_flatten_tree expanded_ids filter_text (depth + 1) cs else [])
           @ con_flatten_tree expanded_ids filter_text depth ns)"

definition con_visible_rows :: "string set \<Rightarrow> string \<Rightarrow> con_leaf tree_node list \<Rightarrow> con_leaf sidebar_row list" where
  "con_visible_rows expanded_ids filter_text grouped =
     con_flatten_tree expanded_ids filter_text 0 (con_filter_tree filter_text grouped)"

section \<open>The publishers' sidebar\<close>

text \<open>The node as the object \<open>getLabel\<close> reads.\<close>

definition pub_leaf_object :: "pub_leaf \<Rightarrow> jval" where
  "pub_leaf_object l = JObj [(''kind'', JStr ''publisher''), (''id'', JStr (pl_id l)), (''label'', JStr (pl_label l)),
     (''publisher'', JObj (pl_publisher l)), (''publisherIndex'', JNum (int (pl_index l))),
     (''endpointType'', JStr (pl_type l)), (''tooltip'', JStr (pl_tooltip l))]"

fun pub_default_expanded :: "pub_leaf tree_node list \<Rightarrow> string set \<Rightarrow> string set" where
  "pub_default_expanded [] acc = acc"
| "pub_default_expanded (Leaf l # ns) acc = pub_default_expanded ns acc"
| "pub_default_expanded (Group i lab cs ty tt # ns) acc =
     pub_default_expanded ns (pub_default_expanded cs (insert i acc))"

fun pub_filter_tree :: "url_api \<Rightarrow> derived \<Rightarrow> string \<Rightarrow> pub_leaf tree_node list \<Rightarrow> pub_leaf tree_node list" where
  "pub_filter_tree ua d query [] = []"
| "pub_filter_tree ua d query (n # ns) =
     (let q = needle query in
      if q = [] then n # ns
      else (case n of
          Leaf l \<Rightarrow>
            (let label = get_label (ua_parse ua) d (pub_leaf_object l)
             in if text_has q label \<or> text_has q (pl_tooltip l) then [Leaf l] else [])
        | Group i lab cs ty tt \<Rightarrow>
            (let children = pub_filter_tree ua d query cs
             in if children \<noteq> [] \<or> text_has q lab \<or> text_has q (tooltip_text tt)
                then [Group i lab children ty tt] else []))
        @ pub_filter_tree ua d query ns)"

fun subtree_has_match :: "url_api \<Rightarrow> derived \<Rightarrow> pub_leaf tree_node \<Rightarrow> string \<Rightarrow> bool" where
  "subtree_has_match ua d (Leaf l) query =
     (let q = needle query
      in q \<noteq> [] \<and> (text_has q (get_label (ua_parse ua) d (pub_leaf_object l)) \<or> text_has q (pl_tooltip l)))"
| "subtree_has_match ua d (Group i lab cs ty tt) query =
     (let q = needle query
      in q \<noteq> [] \<and> (text_has q lab \<or> text_has q (tooltip_text tt)
            \<or> list_ex (\<lambda>c. subtree_has_match ua d c query) cs))"

fun pub_flatten_tree ::
    "url_api \<Rightarrow> derived \<Rightarrow> string set \<Rightarrow> string \<Rightarrow> nat \<Rightarrow> pub_leaf tree_node list \<Rightarrow> pub_leaf sidebar_row list" where
  "pub_flatten_tree ua d expanded_ids filter_text depth [] = []"
| "pub_flatten_tree ua d expanded_ids filter_text depth (Leaf l # ns) =
     Leaf_row depth l # pub_flatten_tree ua d expanded_ids filter_text depth ns"
| "pub_flatten_tree ua d expanded_ids filter_text depth (Group i lab cs ty tt # ns) =
     (let filtering = (0 < length (js_trim filter_text));
          expanded = (i \<in> expanded_ids \<or> (filtering \<and> subtree_has_match ua d (Group i lab cs ty tt) filter_text))
      in Group_row i lab depth expanded ty tt
           # (if expanded then pub_flatten_tree ua d expanded_ids filter_text (depth + 1) cs else [])
           @ pub_flatten_tree ua d expanded_ids filter_text depth ns)"

definition pub_visible_rows ::
    "url_api \<Rightarrow> derived \<Rightarrow> string set \<Rightarrow> string \<Rightarrow> pub_leaf tree_node list \<Rightarrow> pub_leaf sidebar_row list" where
  "pub_visible_rows ua d expanded_ids filter_text grouped =
     pub_flatten_tree ua d expanded_ids filter_text 0 (pub_filter_tree ua d filter_text grouped)"

section \<open>What rows and trees hold\<close>

fun row_leaves :: "'l sidebar_row list \<Rightarrow> 'l list" where
  "row_leaves [] = []"
| "row_leaves (Leaf_row depth l # rows) = l # row_leaves rows"
| "row_leaves (Group_row i lab depth e ty tt # rows) = row_leaves rows"

fun tree_groups :: "'l tree_node \<Rightarrow> string set" where
  "tree_groups (Leaf l) = {}"
| "tree_groups (Group i lab cs ty tt) = insert i (\<Union>c \<in> set cs. tree_groups c)"

abbreviation forest_groups :: "'l tree_node list \<Rightarrow> string set" where
  "forest_groups ns \<equiv> \<Union>n \<in> set ns. tree_groups n"

fun row_groups :: "'l sidebar_row list \<Rightarrow> string set" where
  "row_groups [] = {}"
| "row_groups (Leaf_row depth l # rows) = row_groups rows"
| "row_groups (Group_row i lab depth e ty tt # rows) = insert i (row_groups rows)"

lemma row_groups_append [simp]: "row_groups (rs @ ts) = row_groups rs \<union> row_groups ts"
  by (induction rs rule: row_groups.induct) auto

lemma row_leaves_append [simp]: "row_leaves (rs @ ts) = row_leaves rs @ row_leaves ts"
  by (induction rs rule: row_leaves.induct) auto

lemma lower_char_idem [simp]: "lower_char (lower_char c) = lower_char c"
proof -
  have "(of_char c :: nat) < 256" by simp
  then show ?thesis by (auto simp: lower_char_def Let_def of_char_of)
qed

lemma is_space_lower [simp]: "is_space (lower_char c) = is_space c"
proof -
  have "(of_char c :: nat) < 256" by simp
  then show ?thesis by (auto simp: lower_char_def is_space_def Let_def of_char_of)
qed

lemma trim_start_lower: "trim_start (to_lower s) = to_lower (trim_start s)"
  by (simp add: trim_start_def to_lower_def dropWhile_map o_def)

lemma js_trim_lower: "js_trim (to_lower s) = to_lower (js_trim s)"
  by (simp add: js_trim_def trim_start_lower [unfolded to_lower_def] to_lower_def rev_map)

lemma needle_idem [simp]: "needle (needle q) = needle q"
  by (simp add: needle_def js_trim_lower) (simp add: to_lower_def)

lemma needle_Nil: "needle q = [] \<longleftrightarrow> js_trim q = []"
  by (simp add: needle_def to_lower_def)

lemma forest_induct [case_names Nil leaf grp]:
  assumes "P []"
    and "\<And>l ns. P ns \<Longrightarrow> P (Leaf l # ns)"
    and "\<And>i lab cs ty tt ns. P cs \<Longrightarrow> P ns \<Longrightarrow> P (Group i lab cs ty tt # ns)"
  shows "P ns"
proof (induction ns rule: measure_induct_rule [where f = "size_list size"])
  case (less ns)
  then show ?case
    using assms by (cases ns; cases "hd ns") auto
qed

section \<open>The contract of a search over a tree\<close>

locale tree_search =
  fixes leaf_hit :: "string \<Rightarrow> 'l \<Rightarrow> bool"
    and group_hit :: "string \<Rightarrow> string \<Rightarrow> string option \<Rightarrow> string option \<Rightarrow> bool"
    and node_matches :: "'l tree_node \<Rightarrow> string \<Rightarrow> bool"
    and filter_nodes :: "string \<Rightarrow> 'l tree_node list \<Rightarrow> 'l tree_node list"
    and flatten :: "string set \<Rightarrow> string \<Rightarrow> nat \<Rightarrow> 'l tree_node list \<Rightarrow> 'l sidebar_row list"
  assumes matches_leaf: "needle q \<noteq> [] \<Longrightarrow> node_matches (Leaf l) q = leaf_hit (needle q) l"
    and matches_group: "needle q \<noteq> [] \<Longrightarrow> node_matches (Group i lab cs ty tt) q
      = (group_hit (needle q) lab ty tt \<or> (\<exists>c \<in> set cs. node_matches c q))"
    and filter_blank: "needle q = [] \<Longrightarrow> filter_nodes q ns = ns"
    and filter_Nil: "filter_nodes q [] = []"
    and filter_leaf: "needle q \<noteq> [] \<Longrightarrow> filter_nodes q (Leaf l # ns)
      = (if leaf_hit (needle q) l then [Leaf l] else []) @ filter_nodes q ns"
    and filter_group: "needle q \<noteq> [] \<Longrightarrow> filter_nodes q (Group i lab cs ty tt # ns)
      = (if filter_nodes q cs \<noteq> [] \<or> group_hit (needle q) lab ty tt
         then [Group i lab (filter_nodes q cs) ty tt] else []) @ filter_nodes q ns"
    and flatten_Nil: "flatten ex q dp [] = []"
    and flatten_leaf: "flatten ex q dp (Leaf l # ns) = Leaf_row dp l # flatten ex q dp ns"
    and flatten_group: "flatten ex q dp (Group i lab cs ty tt # ns)
      = (let e = (i \<in> ex \<or> (needle q \<noteq> [] \<and> node_matches (Group i lab cs ty tt) q))
         in Group_row i lab dp e ty tt # (if e then flatten ex q (dp + 1) cs else []) @ flatten ex q dp ns)"
begin

lemmas filter_laws = filter_Nil filter_leaf filter_group
lemmas flatten_laws = flatten_Nil flatten_leaf flatten_group

lemma filtered_leaves:
  "needle q \<noteq> [] \<Longrightarrow> forest_leaves (filter_nodes q ns) = filter (leaf_hit (needle q)) (forest_leaves ns)"
proof (induction ns rule: forest_induct)
  case (grp i lab cs ty tt ns)
  have "filter (leaf_hit (needle q)) (forest_leaves cs) = []" if "filter_nodes q cs = []"
    using grp that by simp
  with grp show ?case by (auto simp: filter_laws)
qed (simp_all add: filter_laws)

lemma filtered_nodes_match: "needle q \<noteq> [] \<Longrightarrow> \<forall>n \<in> set (filter_nodes q ns). node_matches n q"
proof (induction ns rule: forest_induct)
  case (grp i lab cs ty tt ns)
  then show ?case
    by (cases "filter_nodes q cs") (auto simp: filter_laws matches_group)
qed (auto simp: filter_laws matches_leaf)

text \<open>A hit stays a hit below a group, so every group a search keeps is shown open.\<close>

lemma search_flat:
  "needle q \<noteq> [] \<Longrightarrow> row_leaves (flatten ex q dp (filter_nodes q ns)) = forest_leaves (filter_nodes q ns)"
proof (induction ns arbitrary: dp rule: forest_induct)
  case (grp i lab cs ty tt ns)
  have "node_matches (Group i lab (filter_nodes q cs) ty tt) q"
    if "filter_nodes q cs \<noteq> [] \<or> group_hit (needle q) lab ty tt"
    using that filtered_nodes_match [OF grp.prems, of cs]
    by (cases "filter_nodes q cs") (auto simp: matches_group [OF grp.prems])
  with grp show ?case by (auto simp: filter_laws flatten_laws)
qed (auto simp: filter_laws flatten_laws)

lemma search_shows_hits:
  "needle q \<noteq> [] \<Longrightarrow> row_leaves (flatten ex q dp (filter_nodes q ns)) = filter (leaf_hit (needle q)) (forest_leaves ns)"
  by (simp add: search_flat filtered_leaves)

lemma open_rows: "forest_groups ns \<subseteq> ex \<Longrightarrow> row_leaves (flatten ex q dp ns) = forest_leaves ns"
  by (induction ns arbitrary: dp rule: forest_induct) (auto simp: flatten_laws)

text \<open>Without a search a closed group hides what is below it, and only that.\<close>

lemma rows_are_leaves: "set (row_leaves (flatten ex q dp ns)) \<subseteq> set (forest_leaves ns)"
proof (induction ns arbitrary: dp rule: forest_induct)
  case (grp i lab cs ty tt ns)
  then show ?case by (auto simp: flatten_laws Let_def dest: subsetD [OF grp.IH(1)] subsetD [OF grp.IH(2)])
qed (auto simp: flatten_laws)

lemma filtered_groups: "forest_groups (filter_nodes q ns) \<subseteq> forest_groups ns"
proof (cases "needle q = []")
  case False
  then show ?thesis
  proof (induction ns rule: forest_induct)
    case (grp i lab cs ty tt ns)
    then have "forest_groups (filter_nodes q cs) \<subseteq> forest_groups cs" by blast
    with grp show ?case by (auto simp: filter_laws)
  qed (auto simp: filter_laws)
qed (simp add: filter_blank)

lemma row_groups_flatten: "row_groups (flatten ex q dp ns) \<subseteq> forest_groups ns"
proof (induction ns arbitrary: dp rule: forest_induct)
  case (grp i lab cs ty tt ns)
  have "row_groups (flatten ex q (dp + 1) cs) \<subseteq> forest_groups cs" by (rule grp.IH)
  with grp.IH(2) [of dp] show ?case by (auto simp: flatten_laws Let_def)
qed (auto simp: flatten_laws)

lemma shown_groups: "row_groups (flatten ex q dp (filter_nodes q ns)) \<subseteq> forest_groups ns"
  using row_groups_flatten filtered_groups by (rule subset_trans)

lemma blank_search: "needle q = [] \<Longrightarrow> forest_groups ns \<subseteq> ex
    \<Longrightarrow> row_leaves (flatten ex q dp (filter_nodes q ns)) = forest_leaves ns"
  by (simp add: filter_blank open_rows)

end

section \<open>Both panels meet it\<close>

definition con_leaf_hit :: "string \<Rightarrow> con_leaf \<Rightarrow> bool" where
  "con_leaf_hit q l \<longleftrightarrow> text_has q (cl_label l) \<or> text_has q (cl_tooltip l) \<or> text_has q (cl_type l)"

definition con_group_hit :: "string \<Rightarrow> string \<Rightarrow> string option \<Rightarrow> string option \<Rightarrow> bool" where
  "con_group_hit q lab ty tt \<longleftrightarrow> text_has q lab \<or> text_has q (tooltip_text tt) \<or> text_has q (tooltip_text ty)"

definition pub_leaf_hit :: "url_api \<Rightarrow> derived \<Rightarrow> string \<Rightarrow> pub_leaf \<Rightarrow> bool" where
  "pub_leaf_hit ua d q l \<longleftrightarrow>
     text_has q (get_label (ua_parse ua) d (pub_leaf_object l)) \<or> text_has q (pl_tooltip l)"

definition pub_group_hit :: "string \<Rightarrow> string \<Rightarrow> string option \<Rightarrow> string option \<Rightarrow> bool" where
  "pub_group_hit q lab ty tt \<longleftrightarrow> text_has q lab \<or> text_has q (tooltip_text tt)"

lemma con_filter_needle: "con_filter_tree (needle q) ns = con_filter_tree q ns"
  by (induction ns) (simp_all add: Let_def)

lemma con_filter_blank: "needle q = [] \<Longrightarrow> con_filter_tree q ns = ns"
  by (cases ns) simp_all

lemma pub_filter_blank: "needle q = [] \<Longrightarrow> pub_filter_tree ua d q ns = ns"
  by (cases ns) simp_all

lemma con_filter_group: "needle q \<noteq> [] \<Longrightarrow> con_filter_tree q (Group i lab cs ty tt # ns)
    = (if con_filter_tree q cs \<noteq> [] \<or> con_group_hit (needle q) lab ty tt
       then [Group i lab (con_filter_tree q cs) ty tt] else []) @ con_filter_tree q ns"
  by (simp add: con_filter_needle con_group_hit_def Let_def)

interpretation con_search: tree_search con_leaf_hit con_group_hit con_node_matches con_filter_tree con_flatten_tree
proof unfold_locales
  fix q i lab cs ty tt and ns :: "con_leaf tree_node list"
  assume "needle q \<noteq> []"
  then show "con_filter_tree q (Group i lab cs ty tt # ns)
    = (if con_filter_tree q cs \<noteq> [] \<or> con_group_hit (needle q) lab ty tt
       then [Group i lab (con_filter_tree q cs) ty tt] else []) @ con_filter_tree q ns"
    by (rule con_filter_group)
qed (auto simp: con_leaf_hit_def con_group_hit_def con_filter_blank list_ex_iff Let_def needle_Nil)

interpretation pub_search: tree_search "pub_leaf_hit ua d" pub_group_hit "subtree_has_match ua d"
    "pub_filter_tree ua d" "pub_flatten_tree ua d"
  by unfold_locales
    (auto simp: pub_leaf_hit_def pub_group_hit_def pub_filter_blank list_ex_iff Let_def needle_Nil)

section \<open>Expanding and collapsing\<close>

record sidebar_view =
  sv_expanded :: "string set"
  sv_known :: "string set"
  sv_filter :: string

definition initial_view :: sidebar_view where
  "initial_view = \<lparr>sv_expanded = {}, sv_known = {}, sv_filter = []\<rparr>"

text \<open>The effect that runs when the tree has changed, for its default groups.\<close>

definition expand_new_groups :: "string set \<Rightarrow> sidebar_view \<Rightarrow> sidebar_view" where
  "expand_new_groups defaults v =
     (let new = {g \<in> defaults. g \<notin> sv_known v}
      in if new = {} then v
         else v\<lparr>sv_known := sv_known v \<union> new, sv_expanded := sv_expanded v \<union> new\<rparr>)"

definition con_expand_effect :: "con_leaf tree_node list \<Rightarrow> sidebar_view \<Rightarrow> sidebar_view" where
  "con_expand_effect grouped = expand_new_groups (con_default_expanded grouped {})"

definition pub_expand_effect :: "pub_leaf tree_node list \<Rightarrow> sidebar_view \<Rightarrow> sidebar_view" where
  "pub_expand_effect grouped = expand_new_groups (pub_default_expanded grouped {})"

definition toggle_group :: "string \<Rightarrow> sidebar_view \<Rightarrow> sidebar_view" where
  "toggle_group g v =
     v\<lparr>sv_expanded := (if g \<in> sv_expanded v then sv_expanded v - {g} else insert g (sv_expanded v))\<rparr>"

lemma con_default_groups: "con_default_expanded ns acc = acc \<union> forest_groups ns"
  by (induction ns acc rule: con_default_expanded.induct) auto

lemma pub_default_groups: "pub_default_expanded ns acc = acc \<union> forest_groups ns"
  by (induction ns acc rule: pub_default_expanded.induct) auto

text \<open>What can happen to a sidebar: the store publishes another tree and the effect runs, a group
  that is shown is clicked, the search text is edited. \<open>rows\<close> and \<open>effect\<close> are the panel's own.\<close>

datatype 'l sidebar_event = Tree_changed "'l tree_node list" | Group_clicked string | Filter_typed string

inductive sidebar_runs ::
    "(string set \<Rightarrow> string \<Rightarrow> 'l tree_node list \<Rightarrow> 'l sidebar_row list)
     \<Rightarrow> ('l tree_node list \<Rightarrow> sidebar_view \<Rightarrow> sidebar_view)
     \<Rightarrow> 'l sidebar_event list \<Rightarrow> 'l tree_node list \<Rightarrow> sidebar_view \<Rightarrow> bool"
  for rows :: "string set \<Rightarrow> string \<Rightarrow> 'l tree_node list \<Rightarrow> 'l sidebar_row list"
  and effect :: "'l tree_node list \<Rightarrow> sidebar_view \<Rightarrow> sidebar_view" where
  mounted: "sidebar_runs rows effect [] [] initial_view"
| regrouped: "sidebar_runs rows effect evs tree v
    \<Longrightarrow> sidebar_runs rows effect (Tree_changed tree' # evs) tree' (effect tree' v)"
| clicked: "sidebar_runs rows effect evs tree v \<Longrightarrow> g \<in> row_groups (rows (sv_expanded v) (sv_filter v) tree)
    \<Longrightarrow> sidebar_runs rows effect (Group_clicked g # evs) tree (toggle_group g v)"
| typed: "sidebar_runs rows effect evs tree v
    \<Longrightarrow> sidebar_runs rows effect (Filter_typed s # evs) tree (v\<lparr>sv_filter := s\<rparr>)"

text \<open>\<open>expansion_ok evs tree v\<close>: the groups of the tree are known, only known groups were ever clicked,
  and a known group is expanded exactly when it was clicked an even number of times.\<close>

definition expansion_ok :: "'l sidebar_event list \<Rightarrow> 'l tree_node list \<Rightarrow> sidebar_view \<Rightarrow> bool" where
  "expansion_ok evs tree v \<longleftrightarrow> forest_groups tree \<subseteq> sv_known v
     \<and> (\<forall>g. Group_clicked g \<in> set evs \<longrightarrow> g \<in> sv_known v)
     \<and> sv_expanded v = {g \<in> sv_known v. even (count_list evs (Group_clicked g))}"

lemma expansion_ok_regrouped:
  assumes "expansion_ok evs tree v"
  shows "expansion_ok (Tree_changed tree' # evs) tree' (expand_new_groups (forest_groups tree') v)"
proof -
  have "count_list evs (Group_clicked g) = 0" if "g \<notin> sv_known v" for g
    using assms that by (auto simp: expansion_ok_def count_list_0_iff)
  with assms show ?thesis
    by (auto simp: expansion_ok_def expand_new_groups_def Let_def)
qed

lemma expansion_ok_clicked:
  assumes "expansion_ok evs tree v" "g \<in> forest_groups tree"
  shows "expansion_ok (Group_clicked g # evs) tree (toggle_group g v)"
  using assms by (auto simp: expansion_ok_def toggle_group_def)

lemma sidebar_expansion:
  assumes "sidebar_runs rows effect evs tree v"
    and "\<And>ex q t. row_groups (rows ex q t) \<subseteq> forest_groups t"
    and "\<And>t w. effect t w = expand_new_groups (forest_groups t) w"
  shows "expansion_ok evs tree v"
  using assms(1)
proof induction
  case mounted
  show ?case by (simp add: expansion_ok_def initial_view_def)
next
  case (regrouped evs tree v tree')
  then show ?case by (simp add: assms(3) expansion_ok_regrouped)
next
  case (clicked evs tree v g)
  then have "g \<in> forest_groups tree" using clicked.hyps(2) subsetD [OF assms(2)] by blast
  with clicked.IH show ?case by (rule expansion_ok_clicked)
next
  case (typed evs tree v s)
  then show ?case by (simp add: expansion_ok_def)
qed

section \<open>Properties\<close>

text \<open>C13: What is searched for is what is shown: whatever groups were collapsed, the rows of a sidebar under
  a search are exactly the entries whose label, tooltip (or, for consumers, endpoint type) contain
  the text in any case, each once and in the order of the tree, for both panels.\<close>

theorem sidebar_search_exact:
  assumes "js_trim q \<noteq> []"
  shows "row_leaves (con_visible_rows ex q con_tree) = filter (con_leaf_hit (needle q)) (forest_leaves con_tree)
    \<and> row_leaves (pub_visible_rows ua d ex q pub_tree)
      = filter (pub_leaf_hit ua d (needle q)) (forest_leaves pub_tree)"
  using assms
  by (simp add: con_visible_rows_def pub_visible_rows_def con_search.search_shows_hits
      pub_search.search_shows_hits needle_Nil)

abbreviation example_con_tree :: "con_leaf tree_node list" where
  "example_con_tree \<equiv>
     [Group ''g'' ''host'' [
        Leaf \<lparr>cl_id = ''a'', cl_label = ''Orders'', cl_index = 0, cl_type = ''HTTP'', cl_status = [], cl_count = 0,
              cl_throughput = [], cl_tooltip = []\<rparr>,
        Leaf \<lparr>cl_id = ''b'', cl_label = ''Users'', cl_index = 1, cl_type = ''HTTP'', cl_status = [], cl_count = 0,
              cl_throughput = [], cl_tooltip = []\<rparr>] (Some ''HTTP'') None]"

abbreviation no_url_api :: url_api where
  "no_url_api \<equiv> \<lparr>ua_parse = \<lambda>u. None, ua_plain = \<lambda>u. None, ua_root = \<lambda>u. None\<rparr>"

theorem sidebar_search_exact_witness:
  "map cl_id (row_leaves (con_visible_rows {} '' ORDER '' example_con_tree)) = [''a'']"
proof -
  have "js_trim '' ORDER '' \<noteq> []" by code_simp
  moreover have "filter (con_leaf_hit (needle '' ORDER '')) (forest_leaves example_con_tree)
      = [\<lparr>cl_id = ''a'', cl_label = ''Orders'', cl_index = 0, cl_type = ''HTTP'', cl_status = [], cl_count = 0,
          cl_throughput = [], cl_tooltip = []\<rparr>]"
    by code_simp
  ultimately show ?thesis
    using sidebar_search_exact [of "'' ORDER ''" "{}" example_con_tree no_url_api "rebuild_derived (\<lambda>a b. 0) []" "[]"]
    by simp
qed

text \<open>C14: A group stays as the user left it: in every state a sidebar can reach, whatever trees the store
  publishes and whatever is searched for, all groups of the tree are known and a known group is
  expanded exactly when it was clicked an even number of times since the panel was mounted.\<close>

theorem sidebar_groups_keep_state:
  assumes "sidebar_runs con_visible_rows con_expand_effect evs con_tree v"
    and "sidebar_runs (pub_visible_rows ua d) pub_expand_effect pevs pub_tree w"
  shows "forest_groups con_tree \<subseteq> sv_known v
      \<and> sv_expanded v = {g \<in> sv_known v. even (count_list evs (Group_clicked g))}
      \<and> forest_groups pub_tree \<subseteq> sv_known w
      \<and> sv_expanded w = {g \<in> sv_known w. even (count_list pevs (Group_clicked g))}"
proof -
  from assms(1) have "expansion_ok evs con_tree v"
    by (rule sidebar_expansion)
      (simp_all only: con_visible_rows_def con_expand_effect_def con_default_groups con_search.shown_groups Un_empty_left)
  moreover from assms(2) have "expansion_ok pevs pub_tree w"
    by (rule sidebar_expansion)
      (simp_all only: pub_visible_rows_def pub_expand_effect_def pub_default_groups pub_search.shown_groups Un_empty_left)
  ultimately show ?thesis by (simp add: expansion_ok_def)
qed

theorem sidebar_groups_keep_state_witness:
  "''g'' \<notin> sv_expanded (con_expand_effect example_con_tree
      (toggle_group ''g'' (con_expand_effect example_con_tree initial_view)))"
proof -
  let ?v = "con_expand_effect example_con_tree initial_view"
  have "sidebar_runs con_visible_rows con_expand_effect [Tree_changed example_con_tree] example_con_tree ?v"
    by (rule sidebar_runs.regrouped [OF sidebar_runs.mounted])
  moreover have "''g'' \<in> row_groups (con_visible_rows (sv_expanded ?v) (sv_filter ?v) example_con_tree)"
    by (simp add: con_expand_effect_def con_visible_rows_def expand_new_groups_def initial_view_def needle_def
        Let_def js_trim_def trim_start_def to_lower_def)
  ultimately have run: "sidebar_runs con_visible_rows con_expand_effect
      [Tree_changed example_con_tree, Group_clicked ''g'', Tree_changed example_con_tree] example_con_tree
      (con_expand_effect example_con_tree (toggle_group ''g'' ?v))"
    by (intro sidebar_runs.regrouped sidebar_runs.clicked)
  show ?thesis
    using sidebar_groups_keep_state [OF run sidebar_runs.mounted [of "pub_visible_rows no_url_api
        (rebuild_derived (\<lambda>a b. 0) [])"]] by simp
qed

end
