(* ===== verification/FormPaths.thy ===== *)
theory FormPaths
  imports JsObject
begin

text \<open>
  The paths by which the form renderers of \<open>custom-form.ts\<close> read and write a value: parsing the
  identifier of a field, reading and writing at a path, and the scalar endpoints, whose value is a
  string or an object around one. The form library's store is a parameter.
\<close>

section \<open>Paths\<close>

datatype segment = Name string | Pos nat

fun seg_name :: "segment \<Rightarrow> string" where
  "seg_name (Name s) = s"
| "seg_name (Pos n) = nat_str n"

definition segment_of :: "string \<Rightarrow> segment" where
  "segment_of w = (if w \<noteq> [] \<and> list_all is_digit w then Pos (str_nat w) else Name w)"

definition path_char :: "char \<Rightarrow> bool" where
  "path_char c \<longleftrightarrow> c \<noteq> CHR ''['' \<and> c \<noteq> CHR ''.'' \<and> c \<noteq> CHR '']''"

definition bracket_char :: "char \<Rightarrow> bool" where
  "bracket_char c \<longleftrightarrow> c \<noteq> CHR ''['' \<and> c \<noteq> CHR '']''"

text \<open>The matches of \<open>/([^[.\]]+)|\[(\d+|[^[\]]+)\]/g\<close>, from left to right.\<close>

function parse_element_path :: "string \<Rightarrow> segment list" where
  "parse_element_path [] = []"
| "parse_element_path (c # cs) =
     (if path_char c then segment_of (c # takeWhile path_char cs) # parse_element_path (dropWhile path_char cs)
      else if c = CHR ''['' \<and> takeWhile bracket_char cs \<noteq> [] \<and> starts_with '']'' (dropWhile bracket_char cs)
      then segment_of (takeWhile bracket_char cs) # parse_element_path (tl (dropWhile bracket_char cs))
      else parse_element_path cs)"
  by pat_completeness auto
termination
proof (relation "measure length")
  fix c :: char and cs :: string
  have "length (dropWhile P cs) \<le> length cs" for P by (rule length_dropWhile_le)
  then show "(dropWhile path_char cs, c # cs) \<in> measure length"
    and "(tl (dropWhile bracket_char cs), c # cs) \<in> measure length"
    by (auto simp: le_imp_less_Suc less_Suc_eq_le intro: le_trans [OF diff_le_self])
qed auto

definition get_name :: "segment list \<Rightarrow> string" where
  "get_name path = join ''.'' (map seg_name path)"

section \<open>Reading and writing at a path\<close>

definition get_path_value :: "jval \<Rightarrow> segment list \<Rightarrow> jval" where
  "get_path_value root path = foldl (\<lambda>current segment. jget current (seg_name segment)) root path"

text \<open>What a write can end with instead of a value: the error the code raises for the root, the language's
  \<open>TypeError\<close> for a member of no object, and a named member of an array, which the arrays of the
  model do not have.\<close>

datatype path_error = Root_mismatch | Not_settable | Array_member

definition array_put :: "nat \<Rightarrow> jval \<Rightarrow> jval list \<Rightarrow> jval list" where
  "array_put i v xs = (if i < length xs then xs[i := v] else xs @ replicate (i - length xs) Undef @ [v])"

fun put_member :: "jval \<Rightarrow> segment \<Rightarrow> jval \<Rightarrow> path_error + jval" where
  "put_member (JObj es) seg v = Inr (JObj (oput (seg_name seg) v es))"
| "put_member (JArr xs) seg v =
     (if is_index (seg_name seg) then Inr (JArr (array_put (str_nat (seg_name seg)) v xs)) else Inl Array_member)"
| "put_member cursor seg v = Inl Not_settable"

definition nullish :: "jval \<Rightarrow> bool" where
  "nullish v \<longleftrightarrow> v = Undef \<or> v = Null"

fun new_container :: "segment \<Rightarrow> jval" where
  "new_container (Pos n) = JArr []"
| "new_container (Name s) = JObj []"

definition bind_result :: "'e + 'a \<Rightarrow> ('a \<Rightarrow> 'e + 'b) \<Rightarrow> 'e + 'b" where
  "bind_result r f = (case r of Inl e \<Rightarrow> Inl e | Inr a \<Rightarrow> f a)"

text \<open>The cursor is a reference into the root, so what is written below it shows in its parent.\<close>

fun set_below :: "jval \<Rightarrow> segment list \<Rightarrow> jval \<Rightarrow> path_error + jval" where
  "set_below cursor [] v = Inr v"
| "set_below cursor [seg] v = put_member cursor seg v"
| "set_below cursor (seg # next_seg # path) v =
     (if nullish cursor then Inl Not_settable
      else bind_result
        (if nullish (jget cursor (seg_name seg)) then put_member cursor seg (new_container next_seg) else Inr cursor)
        (\<lambda>filled. bind_result (set_below (jget filled (seg_name seg)) (next_seg # path) v)
           (\<lambda>child. put_member filled seg child)))"

definition set_path_value :: "jval \<Rightarrow> segment list \<Rightarrow> jval \<Rightarrow> path_error + jval" where
  "set_path_value root path value =
     (if path = [] then
        (case (root, value) of
           (JArr xs, JArr ys) \<Rightarrow> Inr (JArr ys)
         | (JObj es, JObj fs) \<Rightarrow> Inr (JObj (ospread [] fs))
         | (JArr xs, JObj fs) \<Rightarrow> Inl Array_member
         | _ \<Rightarrow> Inl Root_mismatch)
      else set_below root path value)"

text \<open>A change goes to the store when the form has one, and otherwise to the form's \<open>onChange\<close>,
  with the new data; a write that raises an error reaches neither.\<close>

datatype commit = Store_set "segment list" jval | Data_changed jval | Commit_raised path_error

definition commit_path_value :: "bool \<Rightarrow> jval \<Rightarrow> segment list \<Rightarrow> jval \<Rightarrow> commit" where
  "commit_path_value has_store data path value =
     (if has_store then Store_set path value
      else (case set_path_value data path value of Inr d \<Rightarrow> Data_changed d | Inl e \<Rightarrow> Commit_raised e))"

section \<open>Scalar endpoints\<close>

definition derive_scalar_endpoint_value :: "jval \<Rightarrow> string \<Rightarrow> jval \<Rightarrow> string" where
  "derive_scalar_endpoint_value current key node =
     (if is_string current then to_str current
      else if is_record current \<and> is_string (jget current key) then to_str (jget current key)
      else if is_string (jget node ''defaultValue'') then to_str (jget node ''defaultValue'')
      else [])"

definition scalar_endpoint_update :: "jval \<Rightarrow> jval \<Rightarrow> string \<Rightarrow> string \<Rightarrow> jval" where
  "scalar_endpoint_update existing node key value =
     (let keep_object_shape = (jget node ''type'' = JStr ''object''
            \<or> (is_record existing \<and> ohas (record_or_empty existing) key))
      in if keep_object_shape
         then JObj (oput key (JStr value) (ospread [] (if is_object existing then obj_entries existing else [])))
         else JStr value)"

definition commit_scalar_endpoint_value :: "bool \<Rightarrow> jval \<Rightarrow> segment list \<Rightarrow> jval \<Rightarrow> string \<Rightarrow> string \<Rightarrow> commit" where
  "commit_scalar_endpoint_value has_store data path node key value =
     commit_path_value has_store data path (scalar_endpoint_update (get_path_value data path) node key value)"

section \<open>Facts\<close>

lemma bind_result_Inr: "bind_result r f = Inr b \<longleftrightarrow> (\<exists>a. r = Inr a \<and> f a = Inr b)"
  by (cases r) (auto simp: bind_result_def)

text \<open>\<open>put_member\<close> and \<open>jget\<close> obey the laws of a lens.\<close>

lemma nat_str_canonical:
  "s \<noteq> [] \<Longrightarrow> list_all is_digit s \<Longrightarrow> (hd s = CHR ''0'' \<longrightarrow> s = ''0'') \<Longrightarrow> nat_str (str_nat s) = s"
proof (induction s rule: rev_induct)
  case (snoc c s)
  have c: "digit_val c < 10" "char_of (48 + digit_val c) = c"
    using snoc.prems(2) by (auto simp: is_digit_def digit_val_def Let_def)
  show ?case
  proof (cases "s = []")
    case True
    with c show ?thesis by (simp add: str_nat_def nat_str.simps)
  next
    case False
    with snoc have s: "nat_str (str_nat s) = s" by auto
    have "str_nat s \<noteq> 0"
    proof
      assume "str_nat s = 0"
      with s have "s = nat_str 0" by simp
      then have "s = ''0''" by (simp add: nat_str.simps char_of_def bit_simps)
      with snoc.prems(3) show False by simp
    qed
    with c s show ?thesis by (simp add: nat_str.simps [of "10 * str_nat s + digit_val c"])
  qed
qed simp

lemma index_canonical: "is_index k \<Longrightarrow> nat_str (str_nat k) = k"
  unfolding is_index_def by (rule nat_str_canonical) auto

lemma not_digits_length [simp]: "\<not> is_index ''length''" "nat_str n \<noteq> ''length''"
proof -
  have "\<not> is_digit CHR ''l''" by (simp add: is_digit_def)
  then show "\<not> is_index ''length''" by (simp add: is_index_def)
  show "nat_str n \<noteq> ''length''"
    using nat_str_digits [of "CHR ''l''" n] \<open>\<not> is_digit CHR ''l''\<close> by auto
qed

text \<open>\<open>put_member\<close> and \<open>jget\<close> obey the laws of a lens: what was put is got, and nothing else changes
  but the length of an array.\<close>

lemma member_put_get: "put_member c seg v = Inr c' \<Longrightarrow> jget c' (seg_name seg) = v"
  by (cases c) (auto simp: array_put_def nth_append split: if_splits)

lemma member_put_other:
  assumes "put_member c seg v = Inr c'" "k \<noteq> seg_name seg" "k \<noteq> ''length''"
  shows "jget c' k = jget c k"
proof (cases c)
  case (JArr xs)
  with assms have "is_index k \<Longrightarrow> is_index (seg_name seg) \<Longrightarrow> str_nat k \<noteq> str_nat (seg_name seg)"
    by (metis index_canonical)
  with JArr assms show ?thesis by (auto simp: array_put_def nth_append split: if_splits)
qed (use assms in auto)

lemma get_path_Nil [simp]: "get_path_value root [] = root"
  and get_path_Cons [simp]: "get_path_value root (s # p) = get_path_value (jget root (seg_name s)) p"
  by (simp_all add: get_path_value_def)

lemma get_path_Undef [simp]: "get_path_value Undef q = Undef"
  by (induction q) simp_all

fun diverges :: "segment list \<Rightarrow> segment list \<Rightarrow> bool" where
  "diverges (a # p) (b # q) \<longleftrightarrow>
     (if seg_name a = seg_name b then diverges p q else seg_name b \<noteq> ''length'')"
| "diverges p q \<longleftrightarrow> False"

lemma set_below_step:
  assumes "set_below cursor (seg # next_seg # path) v = Inr c'"
  obtains filled child where
    "(if nullish (jget cursor (seg_name seg)) then put_member cursor seg (new_container next_seg) else Inr cursor)
       = Inr filled"
    "set_below (jget filled (seg_name seg)) (next_seg # path) v = Inr child"
    "put_member filled seg child = Inr c'" "\<not> nullish cursor"
  using assms by (auto simp: bind_result_Inr split: if_splits)

lemma below_put_get: "path \<noteq> [] \<Longrightarrow> set_below c path v = Inr c' \<Longrightarrow> get_path_value c' path = v"
proof (induction c path v arbitrary: c' rule: set_below.induct)
  case (3 cursor seg next_seg path v)
  from 3(3) obtain filled child where
    child: "set_below (jget filled (seg_name seg)) (next_seg # path) v = Inr child" and
    put: "put_member filled seg child = Inr c'" and obj: "\<not> nullish cursor"
    by (rule set_below_step)
  from 3(1) [OF obj list.distinct(2) child] member_put_get [OF put] show ?case by simp
qed (simp_all add: member_put_get)

lemma get_new_container: "diverges (s # p) q \<Longrightarrow> get_path_value (new_container s) q = Undef"
  by (cases s; cases q) (auto split: if_splits)

lemma get_nullish: "nullish c \<Longrightarrow> diverges p q \<Longrightarrow> get_path_value c q = Undef"
  by (cases q) (auto simp: nullish_def)

lemma below_put_other: "set_below c path v = Inr c' \<Longrightarrow> diverges path q \<Longrightarrow> get_path_value c' q = get_path_value c q"
proof (induction c path v arbitrary: c' q rule: set_below.induct)
  case (2 cursor seg v)
  then obtain b q' where q: "q = b # q'" by (cases q) auto
  with 2 show ?case using member_put_other [of cursor seg v c'] by (auto split: if_splits)
next
  case (3 cursor seg next_seg path v)
  from 3(3) obtain b q' where q: "q = b # q'" by (cases q) auto
  from 3(2) obtain filled child where
    filled: "(if nullish (jget cursor (seg_name seg)) then put_member cursor seg (new_container next_seg) else Inr cursor)
       = Inr filled" and
    child: "set_below (jget filled (seg_name seg)) (next_seg # path) v = Inr child" and
    put: "put_member filled seg child = Inr c'" and obj: "\<not> nullish cursor"
    by (rule set_below_step)
  show ?case
  proof (cases "seg_name seg = seg_name b")
    case True
    with 3(3) q have div: "diverges (next_seg # path) q'" by simp
    have "get_path_value c' q = get_path_value child q'"
      using member_put_get [OF put] True q by simp
    also have "\<dots> = get_path_value (jget filled (seg_name seg)) q'"
      by (rule 3(1) [OF obj child div])
    also have "\<dots> = get_path_value cursor q"
    proof (cases "nullish (jget cursor (seg_name seg))")
      case null: True
      with filled have "jget filled (seg_name seg) = new_container next_seg" by (simp add: member_put_get)
      with get_new_container [OF div] get_nullish [OF null div] True q show ?thesis by simp
    next
      case False
      with filled True q show ?thesis by simp
    qed
    finally show ?thesis .
  next
    case False
    with 3(3) q have "seg_name b \<noteq> ''length''" by simp
    with False filled member_put_other [OF put, of "seg_name b"]
      member_put_other [of cursor seg "new_container next_seg" filled "seg_name b"]
    show ?thesis by (auto simp: q split: if_splits)
  qed
qed simp

lemma set_path_get: "set_path_value root path v = Inr root' \<Longrightarrow> path \<noteq> [] \<Longrightarrow> get_path_value root' path = v"
  by (simp add: set_path_value_def below_put_get)

lemma set_path_other:
  "set_path_value root path v = Inr root' \<Longrightarrow> diverges path q \<Longrightarrow> get_path_value root' q = get_path_value root q"
  by (cases path) (auto simp: set_path_value_def dest: below_put_other)

lemma set_root:
  "set_path_value root [] v = Inr root' \<Longrightarrow>
     (\<exists>xs ys. root = JArr xs \<and> v = JArr ys \<and> root' = v) \<or> (\<exists>es fs. root = JObj es \<and> v = JObj fs \<and> root' = JObj (ospread [] fs))"
  by (cases root; cases v) (auto simp: set_path_value_def)

lemma derive_update: "derive_scalar_endpoint_value (scalar_endpoint_update existing node key s) key node' = s"
  by (simp add: derive_scalar_endpoint_value_def scalar_endpoint_update_def Let_def)

text \<open>\<open>{...b}\<close> keeps what the names of \<open>b\<close> stand for, when they are distinct.\<close>

lemma oget_spread_fresh: "distinct (map fst b) \<Longrightarrow> oget (ospread [] b) k = oget b k"
  by (auto simp: oget_ospread ohas_def oget_absent)

lemma oget_own_distinct: "distinct (map fst es) \<Longrightarrow> oget (own_entries es) k = oget es k"
  by (simp add: oget_def)

section \<open>Names of fields\<close>

text \<open>A segment whose name the parser reads as one segment of the same kind.\<close>

fun plain_segment :: "segment \<Rightarrow> bool" where
  "plain_segment (Name s) \<longleftrightarrow> s \<noteq> [] \<and> list_all path_char s \<and> \<not> list_all is_digit s"
| "plain_segment (Pos n) \<longleftrightarrow> True"

lemma digits_plain: "is_digit c \<Longrightarrow> path_char c"
  by (auto simp: is_digit_def path_char_def)

lemma plain_segment_name: "plain_segment s \<Longrightarrow> seg_name s \<noteq> [] \<and> list_all path_char (seg_name s)"
  using nat_str_digits by (cases s) (auto simp: list_all_iff digits_plain)

lemma segment_of_name: "plain_segment s \<Longrightarrow> segment_of (seg_name s) = s"
  using nat_str_digits by (cases s) (auto simp: segment_of_def list_all_iff)

lemma parse_plain_end: "list_all path_char w \<Longrightarrow> w \<noteq> [] \<Longrightarrow> parse_element_path w = [segment_of w]"
  by (cases w) (auto simp: list_all_iff takeWhile_eq_all_conv [THEN iffD2] dropWhile_eq_Nil_conv [THEN iffD2])

lemma parse_plain_dot:
  assumes "list_all path_char w" "w \<noteq> []"
  shows "parse_element_path (w @ CHR ''.'' # t) = segment_of w # parse_element_path t"
proof -
  obtain c cs where w: "w = c # cs" using assms by (cases w) auto
  have dot: "\<not> path_char CHR ''.''" by (simp add: path_char_def)
  with assms w have "takeWhile path_char (cs @ CHR ''.'' # t) = cs" "dropWhile path_char (cs @ CHR ''.'' # t) = CHR ''.'' # t"
    by (auto simp: list_all_iff takeWhile_append2 dropWhile_append2)
  with w assms dot show ?thesis by simp
qed

lemma parse_get_name: "\<forall>s \<in> set path. plain_segment s \<Longrightarrow> parse_element_path (get_name path) = path"
proof (induction path)
  case (Cons s path)
  with plain_segment_name [of s] segment_of_name [of s] show ?case
    by (cases path) (auto simp: get_name_def parse_plain_end parse_plain_dot)
qed (simp add: get_name_def)

section \<open>Properties\<close>



end
