(* ===== verification/FormEditors.thy ===== *)
theory FormEditors
  imports FormFields Json
begin

text \<open>
  The editors of \<open>custom-form.ts\<close> and what they write back: booleans stored as null, the TLS
  section, basic auth, the rows of \<open>HeadersEditor.svelte\<close> for key/value maps and for transform
  mappings, the inline JSON schema, and the table of renderers. A commit is the value handed to the
  library's store; \<open>lc\<close> is \<open>localeCompare\<close>.
\<close>

section \<open>Defaults of a rendering context\<close>

text \<open>\<open>always\<close> stands for the function \<open>() => true\<close>.\<close>

definition renderer_config :: "jval \<Rightarrow> obj \<Rightarrow> obj" where
  "renderer_config always config =
     ospread config
       [(''layout'', JObj (ospread [(''groups'', JObj [])] (record_or_empty (oget config ''layout'')))),
        (''visibility'', JObj (ospread [(''hiddenPaths'', JArr []), (''customVisibility'', always)]
           (record_or_empty (oget config ''visibility'')))),
        (''sorting'', JObj (ospread [(''defaultRenderLast'', JArr []), (''defaultPriority'', JArr []),
           (''perObjectPriority'', JObj [])] (record_or_empty (oget config ''sorting''))))]"

definition default_on_change :: "obj \<Rightarrow> jval \<Rightarrow> obj" where
  "default_on_change store_data next_data =
     (if is_object next_data then ospread [] (obj_entries next_data) else store_data)"

section \<open>Booleans stored as null\<close>

definition null_boolean :: "obj \<Rightarrow> string \<times> jval \<Rightarrow> bool" where
  "null_boolean data entry =
     (case entry of (key, prop) \<Rightarrow> jget prop ''type'' = JStr ''boolean'' \<and> oget data key = Null)"

definition fill_null_booleans :: "obj \<Rightarrow> obj \<Rightarrow> obj" where
  "fill_null_booleans props current =
     fold (\<lambda>e d. if null_boolean d e then oput (fst e) (JBool False) d else d) props current"

text \<open>\<open>data\<close> is what the store holds when the form is drawn, \<open>later\<close> what it holds when the timer runs;
  the result is what the timer writes, if anything.\<close>

definition fix_null_booleans :: "jval \<Rightarrow> jval \<Rightarrow> jval \<Rightarrow> obj option" where
  "fix_null_booleans node data later =
     (let props = obj_entries (jget node ''properties'') in
      if \<not> is_record data \<or> \<not> list_ex (null_boolean (record_or_empty data)) props then None
      else (let current = ospread [] (obj_entries later)
            in if list_ex (null_boolean current) props then Some (fill_null_booleans props current) else None))"

section \<open>TLS and basic auth\<close>

record optional_section =
  os_label :: string
  os_description :: string
  os_checked :: bool
  os_input_id :: string
  os_fields :: obj

text \<open>\<open>None\<close>: the section has no switch and is drawn as a plain object.\<close>

definition tls_section :: "obj \<Rightarrow> string \<Rightarrow> jval \<Rightarrow> optional_section option" where
  "tls_section node element_id stored =
     (let required_node = jget (oget node ''properties'') ''required'' in
      if \<not> truthy required_node then None
      else Some \<lparr>os_label = str_or (oget node ''title'') ''Options'',
        os_description = (if format_description required_node \<noteq> [] then format_description required_node
            else format_description (JObj node)),
        os_checked = truthy (coalesce stored (jget required_node ''defaultValue'')),
        os_input_id = element_id @ ''.required'',
        os_fields = odel ''required'' (ospread [] (record_or_empty (oget node ''properties'')))\<rparr>)"

definition basic_auth_shown :: "jval \<Rightarrow> string \<times> string" where
  "basic_auth_shown current =
     (let tuple = (if is_array current then current else JArr [JStr [], JStr []])
      in (member_str tuple ''0'', member_str tuple ''1''))"

definition basic_auth_commit :: "string \<times> string \<Rightarrow> jval" where
  "basic_auth_commit up =
     (if js_trim (fst up) \<noteq> [] \<or> js_trim (snd up) \<noteq> [] then JArr [JStr (fst up), JStr (snd up)] else Null)"

section \<open>Rows of names and values\<close>

record header_item =
  hi_key :: string
  hi_value :: string
  hi_original :: "string option"

definition sync_rows :: "header_item list \<Rightarrow> header_item list" where
  "sync_rows rows = filter (\<lambda>r. js_trim (hi_key r) \<noteq> [] \<or> js_trim (hi_value r) \<noteq> []) rows"

definition add_row :: "header_item list \<Rightarrow> header_item list" where
  "add_row rows = rows @ [\<lparr>hi_key = [], hi_value = [], hi_original = None\<rparr>]"

definition remove_row :: "nat \<Rightarrow> header_item list \<Rightarrow> header_item list" where
  "remove_row index rows = map snd (filter (\<lambda>(i, r). i \<noteq> index) (zip [0..<length rows] rows))"

datatype item_field = Item_key | Item_value

definition set_item_field :: "item_field \<Rightarrow> string \<Rightarrow> header_item \<Rightarrow> header_item" where
  "set_item_field field value r =
     (case field of Item_key \<Rightarrow> r\<lparr>hi_key := value\<rparr> | Item_value \<Rightarrow> r\<lparr>hi_value := value\<rparr>)"

definition update_row :: "nat \<Rightarrow> item_field \<Rightarrow> string \<Rightarrow> header_item list \<Rightarrow> header_item list" where
  "update_row index field value rows =
     map (\<lambda>(i, r). if i = index then set_item_field field value r else r) (zip [0..<length rows] rows)"

definition by_entry_name :: "(string \<Rightarrow> string \<Rightarrow> int) \<Rightarrow> string \<times> 'a \<Rightarrow> string \<times> 'a \<Rightarrow> int" where
  "by_entry_name lc a b = lc (fst a) (fst b)"

section \<open>Key/value maps\<close>

definition key_value_rows :: "(string \<Rightarrow> string \<Rightarrow> int) \<Rightarrow> jval \<Rightarrow> jval \<Rightarrow> header_item list" where
  "key_value_rows lc node stored =
     (let current = coalesce (coalesce stored (jget node ''defaultValue'')) (JObj [])
      in map (\<lambda>(k, v). \<lparr>hi_key = k, hi_value = str_nullish v [], hi_original = None\<rparr>)
           (js_sort (by_entry_name lc) (obj_entries current)))"

definition key_value_commit :: "header_item list \<Rightarrow> obj" where
  "key_value_commit rows =
     from_entries (map (\<lambda>r. (js_trim (hi_key r), JStr (hi_value r))) (filter (\<lambda>r. 0 < length (js_trim (hi_key r))) rows))"

section \<open>Transform mappings\<close>

definition mapping_of :: "jval \<Rightarrow> obj" where
  "mapping_of stored = record_or_empty stored"

definition mapping_rows :: "(string \<Rightarrow> string \<Rightarrow> int) \<Rightarrow> obj \<Rightarrow> header_item list" where
  "mapping_rows lc mapping =
     map (\<lambda>(k, v). \<lparr>hi_key = k, hi_value = (if is_string v then to_str v else str_nullish (jget v ''path'') []),
                    hi_original = Some k\<rparr>)
       (js_sort (by_entry_name lc) (own_entries mapping))"

definition mapping_entry :: "obj \<Rightarrow> header_item \<Rightarrow> string \<times> jval" where
  "mapping_entry mapping r =
     (let key = js_trim (hi_key r);
          previous = oget mapping (case hi_original r of Some o' \<Rightarrow> o' | None \<Rightarrow> key)
      in (key, if is_record previous then JObj (oput ''path'' (JStr (hi_value r)) (ospread [] (record_or_empty previous)))
               else JStr (hi_value r)))"

definition mapping_commit :: "obj \<Rightarrow> header_item list \<Rightarrow> obj" where
  "mapping_commit mapping rows =
     from_entries (map (mapping_entry mapping) (filter (\<lambda>r. 0 < length (js_trim (hi_key r))) rows))"

text \<open>Typing into the \<open>index\<close>-th row of the mapping's editor.\<close>

definition edit_mapping :: "(string \<Rightarrow> string \<Rightarrow> int) \<Rightarrow> obj \<Rightarrow> nat \<Rightarrow> item_field \<Rightarrow> string \<Rightarrow> obj" where
  "edit_mapping lc mapping index field value =
     mapping_commit mapping (sync_rows (update_row index field value (mapping_rows lc mapping)))"

section \<open>The inline schema of a transform\<close>

datatype schema_commit = Schema_removed | Schema_set jval | Not_an_object | Invalid_json

definition transform_schema_text :: "jval \<Rightarrow> string" where
  "transform_schema_text current = (if current = Undef then [] else pretty 0 current)"

definition transform_schema_commit :: "string \<Rightarrow> schema_commit" where
  "transform_schema_commit text =
     (let raw = js_trim text in
      if raw = [] then Schema_removed
      else (case parse_json raw of
          None \<Rightarrow> Invalid_json
        | Some parsed \<Rightarrow> if is_record parsed then Schema_set parsed else Not_an_object))"

section \<open>The table of renderers\<close>

datatype renderer =
    Root_renderer | Route_renderer | Endpoint_renderer | Tls_renderer | Basic_auth_renderer
  | Custom_headers_renderer | Env_vars_renderer | Routes_renderer | Middlewares_renderer
  | Description_renderer | Transform_mapping_renderer | Transform_schema_renderer
  | Object_renderer | Empty_renderer | Value_renderer
  | Endpoint_kind_renderer string
  | Scalar_endpoint_renderer string string string

definition named_renderers :: "(string \<times> renderer) list" where
  "named_renderers = [(''root'', Root_renderer), (''AppConfig'', Root_renderer), (''Route'', Route_renderer),
     (''route'', Route_renderer), (''Endpoint'', Endpoint_renderer), (''EndpointConfig'', Endpoint_renderer),
     (''tls'', Tls_renderer), (''basic_auth'', Basic_auth_renderer), (''custom_headers'', Custom_headers_renderer),
     (''env_vars'', Env_vars_renderer), (''routes'', Routes_renderer), (''middlewares'', Middlewares_renderer),
     (''description'', Description_renderer), (''transform.mapping'', Transform_mapping_renderer),
     (''transform.schema'', Transform_schema_renderer), (''root.endpoint'', Object_renderer),
     (''output.mode'', Empty_renderer), (''value'', Value_renderer)]"

definition endpoint_renderer_kinds :: "string list" where
  "endpoint_renderer_kinds = [''aws'', ''kafka'', ''nats'', ''file'', ''memory'', ''amqp'', ''mongodb'', ''mqtt'', ''http'',
     ''static'', ''sled'', ''websocket'', ''sqlx'', ''grpc'', ''ibmmq'', ''redis_streams'', ''zeromq'', ''switch'',
     ''response'', ''custom'']"

definition custom_renderers :: "(string \<times> renderer) list" where
  "custom_renderers =
     (let table = fold (\<lambda>kind t. oput kind (Endpoint_kind_renderer kind) t) endpoint_renderer_kinds named_renderers;
          static = Scalar_endpoint_renderer ''static'' ''Static'' ''Static value'';
          ref = Scalar_endpoint_renderer ''ref'' ''Ref'' ''publisher_id''
      in oput ''StaticConfig'' static (oput ''RefConfig'' ref (oput ''ref'' ref (oput ''static'' static table))))"

text \<open>How a field behind the toggle of an endpoint is drawn: by the table's renderer for its name, or by the library.\<close>

definition hidden_field_renderer :: "string \<Rightarrow> renderer option" where
  "hidden_field_renderer key = map_of custom_renderers key"

definition scalar_title :: "jval \<Rightarrow> string \<Rightarrow> string" where
  "scalar_title node title = (if jget node ''title'' = JStr [] then [] else str_or (jget node ''title'') title)"

definition value_is_headless :: "string \<Rightarrow> bool" where
  "value_is_headless element_id = starts_with ''Routes.'' element_id"

section \<open>Facts\<close>

lemma null_booleans_filled:
  "oget (fill_null_booleans props data) k
    = (if oget data k = Null \<and> (\<exists>p. (k, p) \<in> set props \<and> jget p ''type'' = JStr ''boolean'')
       then JBool False else oget data k)"
proof (induction props arbitrary: data)
  case (Cons e props)
  obtain key p where e: "e = (key, p)" by force
  have "fill_null_booleans (e # props) data
      = fill_null_booleans props (if null_boolean data e then oput (fst e) (JBool False) data else data)"
    by (simp add: fill_null_booleans_def)
  then show ?case
    by (cases "jget p ''type'' = JStr ''boolean''"; cases "oget data key = Null")
      (auto simp: Cons.IH e null_boolean_def)
qed (simp add: fill_null_booleans_def)

text \<open>What the timer writes has no declared boolean that is null, and changes nothing else.\<close>

lemma fix_null_booleans_exact:
  assumes "fix_null_booleans node data later = Some fixed"
  shows "oget fixed k = (let old = oget (ospread [] (obj_entries later)) k in
      if old = Null \<and> (\<exists>p. (k, p) \<in> set (obj_entries (jget node ''properties'')) \<and> jget p ''type'' = JStr ''boolean'')
      then JBool False else old)"
proof -
  from assms have "fixed = fill_null_booleans (obj_entries (jget node ''properties'')) (ospread [] (obj_entries later))"
    by (simp add: fix_null_booleans_def Let_def split: if_splits)
  then show ?thesis by (simp only: null_booleans_filled Let_def)
qed

lemma basic_auth_roundtrip:
  "basic_auth_shown (basic_auth_commit up) = (if js_trim (fst up) = [] \<and> js_trim (snd up) = [] then ([], []) else up)"
proof -
  have "is_index ''0''" "is_index ''1''" "str_nat ''0'' = 0" "str_nat ''1'' = Suc 0"
    by (simp_all add: is_index_def is_digit_def str_nat_def digit_val_def)
  then show ?thesis
    by (cases up) (auto simp: basic_auth_shown_def basic_auth_commit_def member_str_def)
qed

lemma length_update_row [simp]: "length (update_row i f v rows) = length rows"
  by (simp add: update_row_def)

lemma nth_update_row:
  "j < length rows \<Longrightarrow> update_row i f v rows ! j = (if j = i then set_item_field f v (rows ! j) else rows ! j)"
  by (simp add: update_row_def)

lemma key_value_map:
  "map_of (key_value_commit rows) k
    = map_option JStr (map_of (rev (map (\<lambda>r. (js_trim (hi_key r), hi_value r))
        (filter (\<lambda>r. js_trim (hi_key r) \<noteq> []) rows))) k)"
proof -
  have "map_of (map (\<lambda>x. (f x, JStr (g x))) xs) k = map_option JStr (map_of (map (\<lambda>x. (f x, g x)) xs) k)"
    for f :: "header_item \<Rightarrow> string" and g xs
    by (induction xs) auto
  from this [of "\<lambda>r. js_trim (hi_key r)" hi_value "rev (filter (\<lambda>r. js_trim (hi_key r) \<noteq> []) rows)"]
  show ?thesis
    by (simp add: key_value_commit_def from_entries_def map_of_fold_update_rev rev_map split: option.split)
qed

text \<open>The editor drawn again shows, for every name, the value that was typed last for it.\<close>

lemma key_value_roundtrip:
  "map_of (map (\<lambda>r. (hi_key r, hi_value r)) (key_value_rows lc node (JObj (key_value_commit rows)))) k
    = map_of (rev (map (\<lambda>r. (js_trim (hi_key r), hi_value r)) (filter (\<lambda>r. js_trim (hi_key r) \<noteq> []) rows))) k"
proof -
  let ?c = "key_value_commit rows"
  have d: "distinct (map fst ?c)" by (simp add: key_value_commit_def)
  have perm: "map_of (map (\<lambda>(a, v). (a, str_nullish v [])) (js_sort (by_entry_name lc) (own_entries ?c))) k
      = map_of (map (\<lambda>(a, v). (a, str_nullish v [])) ?c) k"
  proof (rule map_of_eqI [THEN fun_cong])
    show "set (map fst (map (\<lambda>(a, v). (a, str_nullish v [])) (js_sort (by_entry_name lc) (own_entries ?c))))
        = set (map fst (map (\<lambda>(a, v). (a, str_nullish v [])) ?c))" by force
  next
    have "distinct (map fst (js_sort (by_entry_name lc) (own_entries ?c)))"
      using d by (metis distinct_own_entries distinct_count_atmost_1 mset_js_sort mset_map set_map set_js_sort)
    then show "\<forall>x \<in> set (map fst (map (\<lambda>(a, v). (a, str_nullish v [])) (js_sort (by_entry_name lc) (own_entries ?c)))).
        map_of (map (\<lambda>(a, v). (a, str_nullish v [])) (js_sort (by_entry_name lc) (own_entries ?c))) x
        = map_of (map (\<lambda>(a, v). (a, str_nullish v [])) ?c) x"
      using d by (auto simp: map_of_eq_Some_iff map_of_map intro!: map_of_eqI)
  qed
  have shown: "str_nullish (JStr x) [] = x" for x by (simp add: str_nullish_def coalesce_def)
  have "map_of (map (\<lambda>(a, v). (a, str_nullish v [])) ?c) k = map_option (\<lambda>v. str_nullish v []) (map_of ?c k)"
    by (simp add: map_of_map)
  also have "\<dots> = map_of (rev (map (\<lambda>r. (js_trim (hi_key r), hi_value r)) (filter (\<lambda>r. js_trim (hi_key r) \<noteq> []) rows))) k"
    by (simp add: key_value_map option.map_comp o_def shown option.map_ident)
  finally show ?thesis
    using perm by (simp add: key_value_rows_def coalesce_def o_def case_prod_unfold)
qed

lemma mapping_commit_lookup:
  assumes "r \<in> set rows" "js_trim (hi_key r) \<noteq> []" "distinct (map (\<lambda>r. js_trim (hi_key r)) rows)"
  shows "oget (mapping_commit es (sync_rows rows)) (js_trim (hi_key r)) = snd (mapping_entry es r)"
proof -
  let ?kept = "filter (\<lambda>r. 0 < length (js_trim (hi_key r))) (sync_rows rows)"
  have fst: "fst (mapping_entry es x) = js_trim (hi_key x)" for x by (simp add: mapping_entry_def Let_def)
  have "distinct (map (\<lambda>r. js_trim (hi_key r)) ?kept)"
    using assms(3) by (auto simp: sync_rows_def distinct_map intro: inj_on_subset)
  then have d: "distinct (map fst (map (mapping_entry es) ?kept))" by (simp add: fst o_def)
  have "mapping_entry es r \<in> set (map (mapping_entry es) ?kept)"
    using assms(1,2) by (auto simp: sync_rows_def)
  then have "map_of (map (mapping_entry es) ?kept) (js_trim (hi_key r)) = Some (snd (mapping_entry es r))"
    using map_of_is_SomeI [OF d, of "js_trim (hi_key r)" "snd (mapping_entry es r)"] fst [of r] by (metis prod.collapse)
  moreover from d have "mapping_commit es (sync_rows rows) = map (mapping_entry es) ?kept"
    unfolding mapping_commit_def by (rule from_entries_distinct)
  ultimately show ?thesis by (simp add: oget_def)
qed

lemma mapping_rows_original: "r \<in> set (mapping_rows lc es) \<Longrightarrow> hi_original r = Some (hi_key r)"
  by (auto simp: mapping_rows_def)

section \<open>Properties\<close>



end
