(* ===== verification/PayloadEditor.thy ===== *)
theory PayloadEditor
  imports PayloadFormat
begin

text \<open>
  The payload editor, \<open>PayloadDisplay.svelte\<close>, on top of \<open>payload-format.ts\<close>: the XML
  beautifier, reading an edited hex view back, and the state of the editor with its operations.
  \<open>fatal\<close> and \<open>decode\<close> are \<open>TextDecoder\<close> with and without \<open>fatal\<close>, \<open>encode\<close> is
  \<open>TextEncoder\<close>; an operation returns the text it reports through \<open>onChange\<close>, if any.
\<close>

section \<open>The XML beautifier\<close>

text \<open>\<open>xml.replace(/>\s*</g, '><')\<close>, and the line break put between adjacent tags.\<close>

function remove_gaps :: "string \<Rightarrow> string" where
  "remove_gaps [] = []"
| "remove_gaps (c # cs) =
     (if c = CHR ''>'' \<and> starts_with ''<'' (dropWhile is_space cs)
      then CHR ''>'' # CHR ''<'' # remove_gaps (tl (dropWhile is_space cs))
      else c # remove_gaps cs)"
  by pat_completeness auto
termination
proof (relation "measure length")
  fix c :: char and cs :: string
  have "length (dropWhile is_space cs) \<le> length cs" by (rule length_dropWhile_le)
  then show "(tl (dropWhile is_space cs), c # cs) \<in> measure length" by simp
qed auto

fun break_tags :: "string \<Rightarrow> string" where
  "break_tags (c # d # s) =
     (if c = CHR ''>'' \<and> d = CHR ''<'' then CHR ''>'' # CHR 0x0A # break_tags (d # s) else c # break_tags (d # s))"
| "break_tags s = s"

definition clean_xml :: "string \<Rightarrow> string" where
  "clean_xml xml = js_trim (remove_gaps xml)"

definition word_char :: "char \<Rightarrow> bool" where
  "word_char c \<longleftrightarrow> name_start c \<or> is_digit c"

definition line_end :: "char \<Rightarrow> bool" where
  "line_end c \<longleftrightarrow> c = CHR 0x0A \<or> c = CHR 0x0D"

text \<open>\<open>/^<\/\w/\<close>\<close>

definition starts_closing_tag :: "string \<Rightarrow> bool" where
  "starts_closing_tag s \<longleftrightarrow> (case s of a # b # w # _ \<Rightarrow> a = CHR ''<'' \<and> b = CHR ''/'' \<and> word_char w | _ \<Rightarrow> False)"

text \<open>\<open>/.+<\/\w[^>]*>$/\<close>: the line ends with a closing tag that has something before it.\<close>

definition ends_with_closing_tag :: "string \<Rightarrow> bool" where
  "ends_with_closing_tag s \<longleftrightarrow>
     s \<noteq> [] \<and> last s = CHR ''>''
     \<and> list_ex (\<lambda>i. \<not> line_end (s ! (i - 1)) \<and> starts_closing_tag (drop i (butlast s))
           \<and> CHR ''>'' \<notin> set (drop i (butlast s))) [1..<length s]"

text \<open>\<open>/^<\w[^>]*[^\/]>.*$/\<close>\<close>

definition opens_element :: "string \<Rightarrow> bool" where
  "opens_element s \<longleftrightarrow>
     (case s of
        a # w # rest \<Rightarrow> a = CHR ''<'' \<and> word_char w
          \<and> (let m = takeWhile (\<lambda>c. c \<noteq> CHR ''>'') rest; after = dropWhile (\<lambda>c. c \<noteq> CHR ''>'') rest
             in after \<noteq> [] \<and> ((m \<noteq> [] \<and> last m \<noteq> CHR ''/'') \<or> starts_with ''>>'' after)
                \<and> \<not> list_ex line_end (tl after))
      | _ \<Rightarrow> False)"

text \<open>One turn of the loop: how far the line is indented, and the indentation that follows it.\<close>

definition line_pad :: "nat \<Rightarrow> string \<Rightarrow> nat" where
  "line_pad pad node =
     (if \<not> ends_with_closing_tag node \<and> starts_closing_tag node \<and> pad \<noteq> 0 then pad - 1 else pad)"

definition next_pad :: "nat \<Rightarrow> string \<Rightarrow> nat" where
  "next_pad pad node =
     line_pad pad node + (if \<not> ends_with_closing_tag node \<and> \<not> starts_closing_tag node \<and> opens_element node then 1 else 0)"

definition padding :: "nat \<Rightarrow> string" where
  "padding pad = concat (replicate pad ''  '')"

fun format_lines :: "nat \<Rightarrow> string list \<Rightarrow> string" where
  "format_lines pad [] = []"
| "format_lines pad (node # nodes) =
     padding (line_pad pad node) @ node @ CHR 0x0A # format_lines (next_pad pad node) nodes"

definition beautify_xml :: "string \<Rightarrow> string" where
  "beautify_xml xml = js_trim (format_lines 0 (split_on (CHR 0x0A) (break_tags (clean_xml xml))))"

section \<open>Reading the hex view back\<close>

text \<open>\<open>input.split(/\r?\n/)\<close>\<close>

definition drop_cr :: "string \<Rightarrow> string" where
  "drop_cr s = (if s \<noteq> [] \<and> last s = CHR 0x0D then butlast s else s)"

definition text_lines :: "string \<Rightarrow> string list" where
  "text_lines s = (let ls = split_on (CHR 0x0A) s in map drop_cr (butlast ls) @ [last ls])"

definition strip_address :: "string \<Rightarrow> string" where
  "strip_address part =
     (let digits = takeWhile is_hex_char part; rest = dropWhile is_hex_char part
      in if digits \<noteq> [] \<and> starts_with '':'' rest then dropWhile is_space (tl rest) else part)"

definition cleaned_hex :: "string \<Rightarrow> string" where
  "cleaned_hex input =
     concat (map (\<lambda>line. filter (\<lambda>c. \<not> is_space c) (strip_address (takeWhile (\<lambda>c. c \<noteq> CHR ''|'') line)))
       (text_lines input))"

definition parse_hex_view_to_text :: "(8 word list \<Rightarrow> string) \<Rightarrow> string \<Rightarrow> string option" where
  "parse_hex_view_to_text decode input =
     (let cleaned = cleaned_hex input;
          valid_hex = (if length cleaned mod 2 = 0 then cleaned else butlast cleaned)
      in if cleaned = [] then Some []
         else if valid_hex = [] then None
         else Some (decode (hex_pairs valid_hex)))"

section \<open>The editor\<close>

record payload_editor =
  pe_mode :: view_mode
  pe_user_hex :: "string option"
  pe_editing_hex :: bool
  pe_pretty_json :: bool

definition new_payload_editor :: payload_editor where
  "new_payload_editor = \<lparr>pe_mode = Auto, pe_user_hex = None, pe_editing_hex = False, pe_pretty_json = False\<rparr>"

record codec =
  cd_fatal :: "8 word list \<Rightarrow> string option"
  cd_decode :: "8 word list \<Rightarrow> string"
  cd_encode :: "string \<Rightarrow> 8 word list"

definition payload_as_text :: "codec \<Rightarrow> raw_payload \<Rightarrow> string" where
  "payload_as_text cd payload =
     (case payload of Text_payload s \<Rightarrow> s | Byte_payload bs \<Rightarrow> cd_decode cd bs | No_payload \<Rightarrow> [])"

definition payload_bytes :: "codec \<Rightarrow> raw_payload \<Rightarrow> 8 word list" where
  "payload_bytes cd payload =
     (case payload of Text_payload s \<Rightarrow> cd_encode cd s | Byte_payload bs \<Rightarrow> bs | No_payload \<Rightarrow> [])"

definition displayed_payload :: "codec \<Rightarrow> raw_payload \<Rightarrow> string \<Rightarrow> payload_editor \<Rightarrow> string" where
  "displayed_payload cd payload content_type ed =
     (let formatted = format_payload (cd_fatal cd) payload (pe_mode ed) content_type in
      if pe_editing_hex ed \<and> pe_user_hex ed \<noteq> None then the (pe_user_hex ed)
      else if (pe_pretty_json ed \<and> pf_language formatted = Lang_json) \<or> pe_mode ed = As_hex then pf_formatted formatted
      else payload_as_text cd payload)"

definition stop_hex_edit :: "payload_editor \<Rightarrow> payload_editor" where
  "stop_hex_edit ed = ed\<lparr>pe_editing_hex := False, pe_user_hex := None\<rparr>"

definition handle_editor_change ::
    "codec \<Rightarrow> bool \<Rightarrow> string \<Rightarrow> payload_editor \<Rightarrow> payload_editor \<times> string option" where
  "handle_editor_change cd read_only new_value ed =
     (if read_only then (ed, None)
      else if pe_mode ed = As_hex
      then (ed\<lparr>pe_editing_hex := True, pe_user_hex := Some new_value\<rparr>, parse_hex_view_to_text (cd_decode cd) new_value)
      else (stop_hex_edit ed, Some new_value))"

definition handle_editor_blur :: "codec \<Rightarrow> bool \<Rightarrow> payload_editor \<Rightarrow> payload_editor \<times> string option" where
  "handle_editor_blur cd read_only ed =
     (stop_hex_edit ed,
      if pe_mode ed = As_hex \<and> pe_editing_hex ed \<and> \<not> read_only
      then Option.bind (pe_user_hex ed) (parse_hex_view_to_text (cd_decode cd)) else None)"

definition handle_beautify ::
    "codec \<Rightarrow> bool \<Rightarrow> raw_payload \<Rightarrow> string \<Rightarrow> payload_editor \<Rightarrow> payload_editor \<times> string option" where
  "handle_beautify cd read_only payload content_type ed =
     (if read_only then (ed, None)
      else (let text = (if pe_editing_hex ed \<and> pe_user_hex ed \<noteq> None
                        then (case parse_hex_view_to_text (cd_decode cd) (the (pe_user_hex ed)) of Some t \<Rightarrow> t | None \<Rightarrow> [])
                        else payload_as_text cd payload);
                lang = (if pe_mode ed = As_json then Lang_json
                        else if pe_mode ed = As_xml then Lang_xml
                        else pf_language (format_payload (cd_fatal cd) payload (pe_mode ed) content_type))
            in if text = [] then (ed, None)
               else (case lang of
                   Lang_xml \<Rightarrow> (stop_hex_edit (ed\<lparr>pe_mode := As_xml\<rparr>), Some (beautify_xml text))
                 | Lang_json \<Rightarrow> (case parse_json text of
                       Some v \<Rightarrow> (stop_hex_edit (ed\<lparr>pe_mode := As_json\<rparr>), Some (pretty 0 v))
                     | None \<Rightarrow> (stop_hex_edit ed, None))
                 | Lang_text \<Rightarrow> (stop_hex_edit ed, None))))"

definition handle_pretty_json :: "payload_editor \<Rightarrow> payload_editor" where
  "handle_pretty_json ed = stop_hex_edit (ed\<lparr>pe_mode := As_json, pe_pretty_json := True\<rparr>)"

definition set_view_mode :: "view_mode \<Rightarrow> payload_editor \<Rightarrow> payload_editor" where
  "set_view_mode mode ed = stop_hex_edit (ed\<lparr>pe_mode := mode, pe_pretty_json := False\<rparr>)"

text \<open>A file was chosen and read: \<open>bytes\<close> is its content.\<close>

definition handle_import_file :: "codec \<Rightarrow> 8 word list \<Rightarrow> payload_editor \<Rightarrow> payload_editor \<times> string option" where
  "handle_import_file cd bytes ed = (ed\<lparr>pe_mode := As_text\<rparr>, Some (cd_decode cd bytes))"

definition exported_file :: "codec \<Rightarrow> string \<Rightarrow> raw_payload \<Rightarrow> string \<times> 8 word list" where
  "exported_file cd id' payload = (''payload-'' @ (if id' \<noteq> [] then id' else ''data'') @ ''.bin'', payload_bytes cd payload)"

text \<open>\<open>b.toString(16).padStart(2, '0')\<close>\<close>

definition pad_start2 :: "string \<Rightarrow> string" where
  "pad_start2 s = replicate (2 - length s) (CHR ''0'') @ s"

definition copied_hex :: "codec \<Rightarrow> raw_payload \<Rightarrow> string" where
  "copied_hex cd payload = concat (map (\<lambda>b. pad_start2 (to_string16 (unat b))) (payload_bytes cd payload))"

section \<open>Facts on the hex view\<close>

lemma copied_hex_reads_back: "from_hex_string (copied_hex cd payload) = payload_bytes cd payload"
proof -
  have "pad_start2 (to_string16 (unat b)) = hex_byte b" for b :: "8 word"
    by (simp add: pad_start2_def hex_byte_def to_string16_def Let_def)
  moreover have "filter (\<lambda>c. \<not> is_space c) (concat (map hex_byte bs)) = concat (map hex_byte bs)" for bs
    by (induction bs) (simp_all add: filter_hex_byte)
  ultimately show ?thesis by (simp add: copied_hex_def from_hex_string_def hex_pairs_concat)
qed

lemma hex_digit_char: "n < 16 \<Longrightarrow> is_hex_char (hex_digit n)"
  by (auto simp: is_hex_char_def is_digit_def hex_digit_def of_char_of Let_def)

lemma hex_digit_not: "n < 16 \<Longrightarrow> hex_digit n \<noteq> CHR ''|'' \<and> hex_digit n \<noteq> CHR '':'' \<and> hex_digit n \<noteq> CHR 0x0A \<and> hex_digit n \<noteq> CHR 0x0D"
proof -
  assume "n < 16"
  then have "hex_value (hex_digit n) = Some n" by simp
  moreover have "hex_value CHR ''|'' = None" "hex_value CHR '':'' = None" "hex_value CHR 0x0A = None" "hex_value CHR 0x0D = None"
    by (simp_all add: hex_value_def)
  ultimately show ?thesis by (metis option.distinct(1))
qed

lemma set_hex_byte: "c \<in> set (hex_byte b) \<Longrightarrow> \<exists>n < 16. c = hex_digit n"
proof -
  assume "c \<in> set (hex_byte b)"
  then consider "c = hex_digit (unat b div 16)" | "c = hex_digit (unat b mod 16)" by (auto simp: hex_byte_digits)
  then show ?thesis
  proof cases
    case 2
    then show ?thesis by (intro exI [of _ "unat b mod 16"]) simp
  qed (use unat8 [of b] in blast)
qed

lemma set_join: "c \<in> set (join sep ws) \<Longrightarrow> c \<in> set sep \<or> (\<exists>w \<in> set ws. c \<in> set w)"
  by (induction sep ws rule: join.induct) auto

lemma set_to_hex_string: "c \<in> set (to_hex_string bs) \<Longrightarrow> c = CHR '' '' \<or> (\<exists>n < 16. c = hex_digit n)"
  by (auto simp: to_hex_string_def dest!: set_join set_hex_byte)

lemma set_hex_columns: "c \<in> set (pad_end n (to_hex_string bs)) \<Longrightarrow> c = CHR '' '' \<or> (\<exists>k < 16. c = hex_digit k)"
  by (auto simp: pad_end_def dest: set_to_hex_string)

lemma ascii_not_break: "ascii_char b \<noteq> CHR 0x0A \<and> ascii_char b \<noteq> CHR 0x0D"
proof -
  have "(of_char (ascii_char b) :: nat) \<ge> 32"
    by (auto simp: ascii_char_def of_char_of)
  then show ?thesis by auto
qed

lemma preview_row_line: "CHR 0x0A \<notin> set (preview_row w row) \<and> CHR 0x0D \<notin> set (preview_row w row)"
  using ascii_not_break hex_digit_not
  by (auto simp: preview_row_def dest!: set_hex_columns) metis+

lemma preview_row_hex_part:
  "takeWhile (\<lambda>c. c \<noteq> CHR ''|'') (preview_row w row) = pad_end (w * 3 - 1) (to_hex_string row) @ ''  ''"
proof -
  let ?cols = "pad_end (w * 3 - 1) (to_hex_string row) @ ''  ''"
  have ok: "c \<noteq> CHR ''|''" if "c \<in> set ?cols" for c
    using that by (auto dest!: set_hex_columns) (metis hex_digit_not)
  have "preview_row w row = ?cols @ ''|  '' @ map ascii_char row" by (simp add: preview_row_def)
  then show ?thesis using takeWhile_append2 [where P = "\<lambda>c. c \<noteq> CHR ''|''" and xs = ?cols, OF ok] by simp
qed

lemma strip_no_address: "CHR '':'' \<notin> set part \<Longrightarrow> strip_address part = part"
proof -
  assume "CHR '':'' \<notin> set part"
  moreover have "set (dropWhile is_hex_char part) \<subseteq> set part" by (auto dest: set_dropWhileD)
  ultimately show ?thesis
    by (cases "dropWhile is_hex_char part") (auto simp: strip_address_def Let_def simp del: dropWhile_eq_Nil_conv)
qed

lemma hex_row_cleaned:
  "filter (\<lambda>c. \<not> is_space c) (strip_address (takeWhile (\<lambda>c. c \<noteq> CHR ''|'') (preview_row w row)))
    = concat (map hex_byte row)"
proof -
  have "CHR '':'' \<notin> set (pad_end (w * 3 - 1) (to_hex_string row) @ ''  '')"
    using hex_digit_not by (auto dest!: set_hex_columns) metis
  moreover have "is_space CHR '' ''" by (simp add: is_space_def)
  ultimately show ?thesis
    by (simp add: preview_row_hex_part strip_no_address to_hex_string_def filter_join_hex)
qed

lemma preview_rows_cleaned:
  "w \<noteq> 0 \<Longrightarrow> concat (map (\<lambda>line. filter (\<lambda>c. \<not> is_space c) (strip_address (takeWhile (\<lambda>c. c \<noteq> CHR ''|'') line)))
     (preview_rows w bs)) = concat (map hex_byte bs)"
proof (induction w bs rule: preview_rows.induct)
  case (1 w bs)
  show ?case
  proof (cases "bs = []")
    case False
    with 1 have "concat (map (\<lambda>line. filter (\<lambda>c. \<not> is_space c) (strip_address (takeWhile (\<lambda>c. c \<noteq> CHR ''|'') line)))
        (preview_rows w bs)) = concat (map hex_byte (take w bs)) @ concat (map hex_byte (drop w bs))"
      by (simp add: preview_rows.simps [of w bs] hex_row_cleaned)
    then show ?thesis by (metis append_take_drop_id concat_append map_append)
  qed (simp add: preview_rows.simps)
qed

lemma preview_rows_lines: "r \<in> set (preview_rows w bs) \<Longrightarrow> CHR 0x0A \<notin> set r \<and> CHR 0x0D \<notin> set r"
proof (induction w bs rule: preview_rows.induct)
  case (1 w bs)
  then show ?case
    unfolding preview_rows.simps [of w bs] by (cases "bs = [] \<or> w = 0") (auto simp: preview_row_line)
qed

lemma hex_view_reads_back:
  "cleaned_hex (to_hex_preview bs n) = concat (map hex_byte bs)"
proof (cases "bs = []")
  case True
  then show ?thesis
    by (simp add: cleaned_hex_def to_hex_preview_def preview_rows.simps text_lines_def drop_cr_def strip_address_def)
next
  case False
  let ?rows = "preview_rows (max 1 n) bs"
  have ne: "?rows \<noteq> []" using False by (simp add: preview_rows.simps)
  have "split_on (CHR 0x0A) (join [CHR 0x0A] ?rows) = ?rows"
    using preview_rows_lines by (intro split_on_join [OF ne]) blast
  moreover have "drop_cr r = r" if "r \<in> set ?rows" for r
    using preview_rows_lines [OF that] by (auto simp: drop_cr_def dest: last_in_set)
  then have "map drop_cr (butlast ?rows) = butlast ?rows" by (auto intro!: map_idI dest: in_set_butlastD)
  ultimately have "text_lines (to_hex_preview bs n) = ?rows"
    using ne by (simp add: text_lines_def Let_def to_hex_preview_def)
  then show ?thesis by (simp add: cleaned_hex_def preview_rows_cleaned)
qed

lemma hex_view_text: "parse_hex_view_to_text decode (to_hex_preview bs n) = Some (if bs = [] then [] else decode bs)"
proof -
  have len: "length (concat (map hex_byte bs)) = 2 * length bs" by (induction bs) simp_all
  then have "concat (map hex_byte bs) = [] \<longleftrightarrow> bs = []" by (metis length_0_conv mult_eq_0_iff zero_neq_numeral)
  with len show ?thesis
    by (auto simp: parse_hex_view_to_text_def hex_view_reads_back Let_def hex_pairs_concat)
qed

section \<open>Facts on the beautifier\<close>

lemma lt_gt_not_space [simp]: "\<not> is_space CHR ''<''" "\<not> is_space CHR ''>''" "is_space CHR 0x0A" "is_space CHR '' ''"
  by (simp_all add: is_space_def)

lemma starts_lt: "starts_with ''<'' s \<longleftrightarrow> (\<exists>t. s = CHR ''<'' # t)"
  by (cases s) auto

lemma remove_gaps_eq:
  "remove_gaps (c # cs)
    = c # remove_gaps (if c = CHR ''>'' \<and> starts_with ''<'' (dropWhile is_space cs) then dropWhile is_space cs else cs)"
  by (auto simp: starts_lt)

lemma starts_remove_gaps [simp]: "starts_with ''<'' (remove_gaps s) \<longleftrightarrow> starts_with ''<'' s"
  by (cases s) (simp_all add: remove_gaps_eq del: remove_gaps.simps(2))

lemma remove_gaps_space: "list_all is_space sp \<Longrightarrow> remove_gaps (sp @ z) = sp @ remove_gaps z"
  by (induction sp) auto

lemma dropWhile_all: "list_all P xs \<Longrightarrow> dropWhile P (xs @ ys) = dropWhile P ys"
  by (induction xs) auto

lemma list_all_takeWhile: "list_all P (takeWhile P xs)"
  by (induction xs) auto

lemma dropWhile_remove_gaps: "dropWhile is_space (remove_gaps s) = remove_gaps (dropWhile is_space s)"
proof -
  have "remove_gaps (takeWhile is_space s @ dropWhile is_space s) = takeWhile is_space s @ remove_gaps (dropWhile is_space s)"
    by (rule remove_gaps_space [OF list_all_takeWhile])
  then have "remove_gaps s = takeWhile is_space s @ remove_gaps (dropWhile is_space s)"
    unfolding takeWhile_dropWhile_id .
  moreover have "dropWhile is_space (remove_gaps (dropWhile is_space s)) = remove_gaps (dropWhile is_space s)"
  proof (cases "dropWhile is_space s")
    case (Cons c t)
    then have "\<not> is_space c" by (metis dropWhile_eq_Cons_conv)
    with Cons show ?thesis by (simp add: remove_gaps_eq del: remove_gaps.simps(2))
  qed (simp del: dropWhile_eq_Nil_conv)
  ultimately show ?thesis
    by (metis dropWhile_all list_all_takeWhile)
qed

lemma remove_gaps_idem [simp]: "remove_gaps (remove_gaps s) = remove_gaps s"
proof (induction s rule: measure_induct_rule [where f = length])
  case (less s)
  show ?case
  proof (cases s)
    case (Cons c cs)
    let ?cs = "if c = CHR ''>'' \<and> starts_with ''<'' (dropWhile is_space cs) then dropWhile is_space cs else cs"
    have "length ?cs \<le> length cs" by (simp add: length_dropWhile_le)
    then have IH: "remove_gaps (remove_gaps ?cs) = remove_gaps ?cs" using less Cons by simp
    have "remove_gaps (c # remove_gaps ?cs) = c # remove_gaps (remove_gaps ?cs)"
      by (simp add: remove_gaps_eq [of c] dropWhile_remove_gaps del: remove_gaps.simps(2))
    with IH show ?thesis by (simp add: Cons remove_gaps_eq [of c cs] del: remove_gaps.simps(2))
  qed simp
qed

lemma remove_gaps_trailing: "list_all is_space sp \<Longrightarrow> remove_gaps (z @ sp) = remove_gaps z @ sp"
proof (induction z rule: measure_induct_rule [where f = length])
  case (less z)
  show ?case
  proof (cases z)
    case Nil
    then show ?thesis using remove_gaps_space [OF less.prems, of "[]"] by simp
  next
    case (Cons c cs)
    have nil: "dropWhile is_space sp = []" using less.prems by (simp add: list_all_iff)
    have len: "length (dropWhile is_space cs) \<le> length cs" by (rule length_dropWhile_le)
    show ?thesis
    proof (cases "dropWhile is_space cs")
      case empty: Nil
      with nil have "\<not> starts_with ''<'' (dropWhile is_space (cs @ sp))" "\<not> starts_with ''<'' (dropWhile is_space cs)"
        using dropWhile_all [of is_space cs sp]
        by (simp_all add: list_all_iff flip: dropWhile_eq_Nil_conv del: dropWhile_eq_Nil_conv)
      with less Cons show ?thesis by (simp add: remove_gaps_eq [of c] del: remove_gaps.simps(2))
    next
      case (Cons d ds)
      then have "dropWhile is_space (cs @ sp) = d # ds @ sp"
        by (metis append_Cons dropWhile_append dropWhile_eq_Nil_conv list.distinct(1) dropWhile_append1)
      with Cons len less.prems \<open>z = c # cs\<close> less.IH [of cs] less.IH [of "d # ds"] show ?thesis
        by (simp add: remove_gaps_eq [of c] del: remove_gaps.simps(2))
    qed
  qed
qed

lemma remove_gap:
  "list_all is_space ws \<Longrightarrow> remove_gaps (u @ CHR ''>'' # ws @ CHR ''<'' # v) = remove_gaps (u @ CHR ''>'' # CHR ''<'' # v)"
proof (induction u rule: measure_induct_rule [where f = length])
  case (less u)
  show ?case
  proof (cases u)
    case Nil
    with less.prems show ?thesis by (simp add: remove_gaps_eq [of "CHR ''>''"] dropWhile_all del: remove_gaps.simps(2))
  next
    case (Cons c cs)
    have len: "length (dropWhile is_space cs) \<le> length cs" by (rule length_dropWhile_le)
    have drop: "dropWhile is_space (cs @ CHR ''>'' # t) = dropWhile is_space cs @ CHR ''>'' # t" for t
      by (cases "list_all is_space cs") (auto simp: dropWhile_append list_all_iff)
    have "starts_with ''<'' (dropWhile is_space cs @ CHR ''>'' # t) \<longleftrightarrow> starts_with ''<'' (dropWhile is_space cs)" for t
      by (cases "dropWhile is_space cs") (simp_all del: dropWhile_eq_Nil_conv)
    with less Cons len drop show ?thesis
      by (auto simp: remove_gaps_eq [of c] simp del: remove_gaps.simps(2))
  qed
qed

lemma js_trim_pad: "list_all is_space a \<Longrightarrow> list_all is_space b \<Longrightarrow> js_trim (a @ y @ b) = js_trim y"
proof -
  assume a: "list_all is_space a" and b: "list_all is_space b"
  have "trim_start (a @ y @ b) = trim_start (y @ b)" using a by (simp add: trim_start_def dropWhile_all)
  moreover have "trim_start (rev (trim_start (y @ b))) = trim_start (rev (trim_start y))"
  proof (cases "list_all is_space y")
    case True
    with b have "dropWhile is_space y = []" "dropWhile is_space b = []" by (simp_all add: list_all_iff)
    then show ?thesis using True by (simp only: trim_start_def dropWhile_all)
  next
    case False
    then have "trim_start (y @ b) = trim_start y @ b" by (auto simp: trim_start_def dropWhile_append list_all_iff)
    moreover have "trim_start (rev b @ t) = trim_start t" for t using b by (simp add: trim_start_def dropWhile_all list_all_iff)
    ultimately show ?thesis by simp
  qed
  ultimately show ?thesis by (simp add: js_trim_def)
qed

lemma js_trim_split: "\<exists>a b. list_all is_space a \<and> list_all is_space b \<and> s = a @ js_trim s @ b"
proof -
  let ?t = "trim_start s"
  have s: "s = takeWhile is_space s @ ?t" by (simp add: trim_start_def)
  have "rev ?t = takeWhile is_space (rev ?t) @ trim_start (rev ?t)" by (simp add: trim_start_def)
  then have t: "?t = js_trim s @ rev (takeWhile is_space (rev ?t))" by (metis js_trim_def rev_append rev_rev_ident)
  show ?thesis
    by (rule exI [of _ "takeWhile is_space s"], rule exI [of _ "rev (takeWhile is_space (rev ?t))"])
      (use s t in \<open>auto simp: list_all_iff dest: set_takeWhileD\<close>)
qed

lemma clean_trim: "js_trim (remove_gaps (js_trim z)) = js_trim (remove_gaps z)"
proof -
  obtain a b where ab: "list_all is_space a" "list_all is_space b" "z = a @ js_trim z @ b" using js_trim_split by blast
  have "remove_gaps (a @ js_trim z @ b) = a @ remove_gaps (js_trim z) @ b"
    by (simp add: remove_gaps_space [OF ab(1)] remove_gaps_trailing [OF ab(2), of "js_trim z"])
  with ab js_trim_pad show ?thesis by metis
qed

lemma clean_xml_idem [simp]: "clean_xml (clean_xml s) = clean_xml s"
  by (simp add: clean_xml_def clean_trim)

text \<open>Adjacent lines meet at \<open>><\<close>.\<close>

fun tag_chain :: "string list \<Rightarrow> bool" where
  "tag_chain (a # b # ls) \<longleftrightarrow> a \<noteq> [] \<and> last a = CHR ''>'' \<and> b \<noteq> [] \<and> hd b = CHR ''<'' \<and> tag_chain (b # ls)"
| "tag_chain ls \<longleftrightarrow> True"

lemma break_lines:
  "CHR 0x0A \<notin> set s \<Longrightarrow> (\<exists>w ws. split_on (CHR 0x0A) (break_tags s) = w # ws \<and> tag_chain (w # ws)
     \<and> concat (w # ws) = s \<and> (s \<noteq> [] \<longrightarrow> w \<noteq> [] \<and> hd w = hd s))"
proof (induction s rule: break_tags.induct)
  case (1 c d s)
  from 1 obtain w ws where IH: "split_on (CHR 0x0A) (break_tags (d # s)) = w # ws" "tag_chain (w # ws)"
    "concat (w # ws) = d # s" "w \<noteq> []" "hd w = d"
    by (cases "c = CHR ''>'' \<and> d = CHR ''<''") auto
  show ?case
  proof (cases "c = CHR ''>'' \<and> d = CHR ''<''")
    case True
    with IH show ?thesis by simp
  next
    case False
    with IH 1(3) have "split_on (CHR 0x0A) (break_tags (c # d # s)) = (c # w) # ws" by auto
    moreover have "tag_chain ((c # w) # ws)" using IH(2,4) by (cases ws) auto
    ultimately show ?thesis using IH(3) by simp
  qed
qed simp_all

lemma padding_space: "list_all is_space (padding n)"
  by (induction n) (simp_all add: padding_def)

lemma remove_gaps_lines:
  "tag_chain (l # ls) \<Longrightarrow> remove_gaps (u @ l @ CHR 0x0A # format_lines n ls) = remove_gaps (u @ concat (l # ls) @ [CHR 0x0A])"
proof (induction ls arbitrary: u l n)
  case (Cons m ms)
  let ?ws = "CHR 0x0A # padding (line_pad n m)" and ?rest = "m @ CHR 0x0A # format_lines (next_pad n m) ms"
  from Cons.prems obtain l' m' where l: "l = l' @ [CHR ''>'']" and m: "m = CHR ''<'' # m'"
    by (cases m; cases l rule: rev_cases) auto
  have "remove_gaps (u @ l @ CHR 0x0A # format_lines n (m # ms)) = remove_gaps ((u @ l') @ CHR ''>'' # ?ws @ ?rest)"
    by (simp add: l)
  also have "\<dots> = remove_gaps ((u @ l') @ CHR ''>'' # ?rest)"
    using remove_gap [of ?ws "u @ l'"] padding_space by (simp add: m)
  also have "\<dots> = remove_gaps ((u @ l) @ m @ CHR 0x0A # format_lines (next_pad n m) ms)" by (simp add: l)
  also have "\<dots> = remove_gaps ((u @ l) @ concat (m # ms) @ [CHR 0x0A])"
    using Cons.prems by (intro Cons.IH) simp
  finally show ?case by simp
qed simp

lemma beautify_keeps_clean:
  assumes "CHR 0x0A \<notin> set (clean_xml s)"
  shows "clean_xml (beautify_xml s) = clean_xml s"
proof -
  let ?y = "clean_xml s"
  from break_lines [OF assms] obtain w ws where
    lines: "split_on (CHR 0x0A) (break_tags ?y) = w # ws" "tag_chain (w # ws)" "concat (w # ws) = ?y" by blast
  have "clean_xml (beautify_xml s) = js_trim (remove_gaps (padding (line_pad 0 w) @ w @ CHR 0x0A # format_lines (next_pad 0 w) ws))"
    by (simp only: beautify_xml_def lines(1) format_lines.simps clean_xml_def [of "js_trim x" for x] clean_trim)
  also have "\<dots> = js_trim (remove_gaps (padding (line_pad 0 w) @ concat (w # ws) @ [CHR 0x0A]))"
    by (simp only: remove_gaps_lines [OF lines(2)])
  also have "\<dots> = js_trim (remove_gaps ?y)"
    using remove_gaps_space [OF padding_space] remove_gaps_trailing [of "[CHR 0x0A]"]
      js_trim_pad [OF padding_space, of "[CHR 0x0A]"] by (simp only: lines(3)) simp
  also have "\<dots> = ?y" using clean_xml_idem [of s] by (simp add: clean_xml_def)
  finally show ?thesis .
qed

lemma beautify_idem:
  "CHR 0x0A \<notin> set (clean_xml s) \<Longrightarrow> beautify_xml (beautify_xml s) = beautify_xml s"
  by (simp add: beautify_xml_def [of "beautify_xml s"] beautify_keeps_clean) (simp add: beautify_xml_def)

lemma displayed_hex:
  "pe_mode ed = As_hex \<Longrightarrow> pe_user_hex ed = None \<Longrightarrow>
   displayed_payload cd payload ct ed = pf_formatted (format_payload (cd_fatal cd) payload As_hex ct)"
  by (simp add: displayed_payload_def Let_def)

lemma hex_change_reports:
  assumes "pe_mode ed = As_hex" "pe_user_hex ed = None"
    and "pf_formatted (format_payload (cd_fatal cd) payload As_hex ct) = to_hex_preview bs 16"
  shows "snd (handle_editor_change cd False (displayed_payload cd payload ct ed) ed)
    = Some (if bs = [] then [] else cd_decode cd bs)"
  by (simp add: handle_editor_change_def displayed_hex [OF assms(1,2)] assms(1,3) hex_view_text)

lemma latin1_reads_back: "map (\<lambda>b. char_of (unat b)) (string_to_uint8_latin1 s) = s"
proof -
  have "char_of (unat (word_of_nat (of_char c) :: 8 word)) = c" for c :: char
    by (simp add: unat_of_nat)
  then show ?thesis by (simp add: string_to_uint8_latin1_def o_def)
qed

lemma beautify_short_names:
  "beautify_xml ''<root><a><b>x</b></a></root>''
    = ''<root>'' @ [CHR 0x0A] @ ''  <a>'' @ [CHR 0x0A] @ ''  <b>x</b>'' @ [CHR 0x0A] @ ''</a>'' @ [CHR 0x0A] @ ''</root>''"
  by code_simp

section \<open>Properties\<close>

text \<open>C15: The hex view can be typed into without losing bytes: when a payload of bytes is shown in hex, handing
  the shown text back reports exactly those bytes, decoded; an ASCII text that is not itself
  written in hex digits comes back as it was, and one that is comes back as what its digits encode.
  The decoder has to map ASCII bytes to their characters, as UTF-8 does.\<close>

theorem hex_edit_reports_shown_bytes:
  assumes "pe_mode ed = As_hex" "pe_user_hex ed = None"
    and "\<And>bytes. \<forall>b \<in> set bytes. unat b < 128 \<Longrightarrow> cd_decode cd bytes = map (\<lambda>b. char_of (unat b)) bytes"
  shows "snd (handle_editor_change cd False (displayed_payload cd (Byte_payload bs) ct ed) ed)
      = Some (if bs = [] then [] else cd_decode cd bs)
    \<and> ((\<forall>c \<in> set s. (of_char c :: nat) < 128) \<and> \<not> is_complete_hex s \<longrightarrow>
        snd (handle_editor_change cd False (displayed_payload cd (Text_payload s) ct ed) ed) = Some s)
    \<and> (is_complete_hex s \<longrightarrow>
        snd (handle_editor_change cd False (displayed_payload cd (Text_payload s) ct ed) ed)
          = Some (if from_hex_string s = [] then [] else cd_decode cd (from_hex_string s)))"
proof (intro conjI impI)
  show "snd (handle_editor_change cd False (displayed_payload cd (Byte_payload bs) ct ed) ed)
      = Some (if bs = [] then [] else cd_decode cd bs)"
    by (rule hex_change_reports [OF assms(1,2)]) (simp add: format_payload_def Let_def)
next
  assume s: "(\<forall>c \<in> set s. (of_char c :: nat) < 128) \<and> \<not> is_complete_hex s"
  then have "\<forall>b \<in> set (string_to_uint8_latin1 s). unat b < 128"
    by (simp add: string_to_uint8_latin1_def unat_of_nat)
  then have "cd_decode cd (string_to_uint8_latin1 s) = s" by (simp only: assms(3) latin1_reads_back)
  moreover have "snd (handle_editor_change cd False (displayed_payload cd (Text_payload s) ct ed) ed)
      = Some (if string_to_uint8_latin1 s = [] then [] else cd_decode cd (string_to_uint8_latin1 s))"
    by (rule hex_change_reports [OF assms(1,2)]) (use s in \<open>simp add: format_payload_def Let_def\<close>)
  ultimately show "snd (handle_editor_change cd False (displayed_payload cd (Text_payload s) ct ed) ed) = Some s"
    by (simp add: string_to_uint8_latin1_def)
next
  assume "is_complete_hex s"
  then show "snd (handle_editor_change cd False (displayed_payload cd (Text_payload s) ct ed) ed)
      = Some (if from_hex_string s = [] then [] else cd_decode cd (from_hex_string s))"
    by (intro hex_change_reports [OF assms(1,2)]) (simp add: format_payload_def Let_def)
qed

abbreviation latin1_codec :: codec where
  "latin1_codec \<equiv> \<lparr>cd_fatal = (\<lambda>bs. Some (map (\<lambda>b. char_of (unat b)) bs)),
     cd_decode = map (\<lambda>b. char_of (unat b)), cd_encode = string_to_uint8_latin1\<rparr>"

theorem hex_edit_reports_shown_bytes_witness:
  "snd (handle_editor_change latin1_codec False
     (displayed_payload latin1_codec (Text_payload ''hi!'') [] (set_view_mode As_hex new_payload_editor))
     (set_view_mode As_hex new_payload_editor)) = Some ''hi!''"
proof -
  have "pe_mode (set_view_mode As_hex new_payload_editor) = As_hex"
    "pe_user_hex (set_view_mode As_hex new_payload_editor) = None"
    by (simp_all add: set_view_mode_def stop_hex_edit_def)
  moreover have "\<not> is_complete_hex ''hi!''" by code_simp
  ultimately show ?thesis
    using hex_edit_reports_shown_bytes [of "set_view_mode As_hex new_payload_editor" latin1_codec "[]" "[]" "''hi!''"]
    by simp
qed

text \<open>C35: Beautifying XML changes nothing but the space between tags: for a document whose tags and texts hold
  no line break, removing the gaps between tags from the beautified text gives the document without
  its gaps, and beautifying once more gives the same text.\<close>

theorem beautified_xml_same_document:
  assumes "CHR 0x0A \<notin> set (clean_xml s)"
  shows "clean_xml (beautify_xml s) = clean_xml s \<and> beautify_xml (beautify_xml s) = beautify_xml s"
  using assms by (simp add: beautify_keeps_clean beautify_idem)

theorem beautified_xml_same_document_witness:
  "clean_xml (beautify_xml ''<root> <item>x</item></root>'') = ''<root><item>x</item></root>''"
proof -
  have clean: "clean_xml ''<root> <item>x</item></root>'' = ''<root><item>x</item></root>''" by code_simp
  then show ?thesis using beautified_xml_same_document [of "''<root> <item>x</item></root>''"] by simp
qed

end
