(* ===== verification/PanelPages.thy ===== *)
theory PanelPages
  imports Complex_Main PublisherSend ConsumerRuntime ImportExport Settings StorageSecurity Dialogs SidebarTree
begin

text \<open>
  What the page components compute and do themselves (\<open>PublishersPanel.svelte\<close>,
  \<open>ConsumersPanel.svelte\<close>, \<open>SettingsPanel.svelte\<close>, \<open>CodeEditor.svelte\<close>,
  \<open>JsonPreviewDialog.svelte\<close>, \<open>Dialog.svelte\<close>, \<open>sidebar-ui.ts\<close>): opening an entry,
  importing a file, filtering the history, dividing the panes, texts and notices. Their
  markup and the CodeMirror editor are left out.
\<close>

section \<open>Panes\<close>

text \<open>Shares are percentages of the height; \<open>height = 0\<close> makes the language's quotient infinite.\<close>

definition min_detail_pane_percent :: rat where "min_detail_pane_percent = 20"
definition max_detail_pane_percent :: rat where "max_detail_pane_percent = 80"
definition initial_top_percent :: rat where "initial_top_percent = 40"

definition set_top_percent :: "rat \<Rightarrow> rat" where
  "set_top_percent value = min (max value min_detail_pane_percent) max_detail_pane_percent"

definition split_percent :: "rat \<Rightarrow> rat \<Rightarrow> rat \<Rightarrow> rat" where
  "split_percent rect_top height client_y =
     (let offset = client_y - rect_top;
          clamped = min (max offset 100) (max (height - 100) 100)
      in if height = 0 then max_detail_pane_percent else set_top_percent (clamped / height * 100))"

definition divider_step :: "rat \<Rightarrow> string \<Rightarrow> rat option" where
  "divider_step share key =
     (if key = ''ArrowUp'' then Some 5
      else if key = ''ArrowDown'' then Some (- 5)
      else if key = ''PageUp'' then Some 15
      else if key = ''PageDown'' then Some (- 15)
      else if key = ''Home'' then Some (share - min_detail_pane_percent)
      else if key = ''End'' then Some (share - max_detail_pane_percent)
      else None)"

definition divider_keydown :: "string \<Rightarrow> rat \<Rightarrow> rat" where
  "divider_keydown key share = (case divider_step share key of None \<Rightarrow> share | Some delta \<Rightarrow> set_top_percent (share - delta))"

text \<open>The width of the sidebar for a container of whole pixels.\<close>

definition sidebar_width :: "int \<Rightarrow> int \<Rightarrow> int \<Rightarrow> int" where
  "sidebar_width container_left container_width client_x =
     (let max_width = max 220 (min 640 (3 * container_width div 5))
      in min max_width (max 220 (client_x - container_left)))"

lemma pane_bounds:
  "20 \<le> set_top_percent v \<and> set_top_percent v \<le> 80"
  "20 \<le> split_percent t h y \<and> split_percent t h y \<le> 80"
  "20 \<le> share \<and> share \<le> 80 \<Longrightarrow> 20 \<le> divider_keydown key share \<and> divider_keydown key share \<le> 80"
  "220 \<le> sidebar_width l w x \<and> sidebar_width l w x \<le> 640"
proof -
  show set: "20 \<le> set_top_percent v \<and> set_top_percent v \<le> 80" for v
    by (simp add: set_top_percent_def min_detail_pane_percent_def max_detail_pane_percent_def)
  then show "20 \<le> split_percent t h y \<and> split_percent t h y \<le> 80"
    by (simp add: split_percent_def Let_def max_detail_pane_percent_def)
  from set show "20 \<le> share \<and> share \<le> 80 \<Longrightarrow> 20 \<le> divider_keydown key share \<and> divider_keydown key share \<le> 80"
    by (simp add: divider_keydown_def split: option.split)
  show "220 \<le> sidebar_width l w x \<and> sidebar_width l w x \<le> 640"
    by (simp add: sidebar_width_def Let_def)
qed

text \<open>Home and End reach the two ends.\<close>

lemma divider_ends: "divider_keydown ''Home'' share = 20" "divider_keydown ''End'' share = 80"
  by (simp_all add: divider_keydown_def divider_step_def set_top_percent_def min_detail_pane_percent_def
      max_detail_pane_percent_def)

section \<open>Tabs, texts and small dialogs\<close>

definition initial_main_tab :: "string \<Rightarrow> main_tab" where
  "initial_main_tab h =
     (if h = ''#config'' then Config
      else if h = ''#consumers'' \<or> starts_with ''#consumers:'' h then Consumers
      else Publishers)"

text \<open>\<open>label.replace(/(\d)(?=(\d{3})+(?!\d))/g, "$1\u2009")\<close>, with \<open>mark\<close> for the thin space.\<close>

fun group_digits :: "char \<Rightarrow> string \<Rightarrow> string" where
  "group_digits mark [] = []"
| "group_digits mark (c # s) =
     (let run = length (takeWhile is_digit s)
      in c # (if is_digit c \<and> 0 < run \<and> run mod 3 = 0 then [mark] else []) @ group_digits mark s)"

lemma group_digits_keeps: "mark \<notin> set s \<Longrightarrow> filter (\<lambda>c. c \<noteq> mark) (group_digits mark s) = s"
  by (induction s) (auto simp: Let_def)

definition filter_history :: "string \<Rightarrow> history_row list \<Rightarrow> history_row list" where
  "filter_history query rows =
     filter (\<lambda>row. let q = needle query
        in q = [] \<or> text_has q (hw_time row) \<or> text_has q (hw_status row) \<or> text_has q (hw_preview row)) rows"

definition storage_notice :: "storage_security \<Rightarrow> string" where
  "storage_notice info =
     (if messages_encrypted info \<and> messages_persistent info
      then ''Cached message history is encrypted and restored after restart on this machine.''
      else if messages_encrypted info
      then ''Cached message history is encrypted for this session and cleared after restart.''
      else if reason info = Some Key_store_unavailable
      then ''No OS key store is available, so persistent encrypted storage is not available on this machine.''
      else ''Cached message history is stored on disk without encryption in this mode.'')"

text \<open>\<open>None\<close>: the answer of the server was not JSON.\<close>

definition deleted_secrets_message :: "int option \<Rightarrow> string" where
  "deleted_secrets_message deleted =
     (let n = (case deleted of Some n \<Rightarrow> n | None \<Rightarrow> 0)
      in if 0 < n then ''Deleted '' @ int_str n @ '' stored secret'' @ (if n = 1 then [] else ''s'') @ ''.''
         else ''No stored secrets were found for the current desktop config.'')"

datatype secrets_request = Secrets_unreachable string | Secrets_refused string | Secrets_deleted "int option"

definition delete_stored_secrets :: "bool \<Rightarrow> secrets_request \<Rightarrow> string option" where
  "delete_stored_secrets confirmed answer =
     (if \<not> confirmed then None
      else Some (case answer of
          Secrets_unreachable why \<Rightarrow> ''Failed to delete stored secrets: '' @ why
        | Secrets_refused text \<Rightarrow> ''Failed to delete stored secrets: ''
            @ (if text = [] then ''Failed to delete stored secrets'' else text)
        | Secrets_deleted n \<Rightarrow> deleted_secrets_message n))"

definition active_variant :: "config_variant list \<Rightarrow> string option \<Rightarrow> config_variant option" where
  "active_variant variants selected =
     (case variants of
        [] \<Rightarrow> None
      | v # _ \<Rightarrow> (case List.find (\<lambda>x. Some (cv_id x) = selected) variants of Some x \<Rightarrow> Some x | None \<Rightarrow> Some v))"

definition preview_value :: "config_variant list \<Rightarrow> string option \<Rightarrow> string \<Rightarrow> string" where
  "preview_value variants selected value =
     (case active_variant variants selected of Some v \<Rightarrow> cv_value v | None \<Rightarrow> value)"

definition dialog_keydown :: "string \<Rightarrow> dialog_mode \<Rightarrow> string \<Rightarrow> nat option \<Rightarrow> dialog_state \<Rightarrow> dialog_state" where
  "dialog_keydown key mode input dialog_id s =
     (if key = ''Enter'' \<and> mode = Prompt_mode then close_dialog (Text (js_trim input)) dialog_id s else s)"

datatype editor_mode = Mode_text | Mode_json | Mode_json_auto | Mode_xml
datatype editor_extension = Json_language | Json_linter | Xml_language | Xml_linter

definition is_likely_json :: "string \<Rightarrow> bool" where
  "is_likely_json text =
     (let trimmed = js_trim text
      in (starts_with ''{'' trimmed \<and> ends_with ''}'' trimmed) \<or> (starts_with ''['' trimmed \<and> ends_with '']'' trimmed))"

definition language_extension_for :: "string \<Rightarrow> editor_mode \<Rightarrow> bool \<Rightarrow> editor_extension list" where
  "language_extension_for text mode linter_enabled =
     (if mode = Mode_json \<or> (mode = Mode_json_auto \<and> is_likely_json text)
      then Json_language # (if linter_enabled then [Json_linter] else [])
      else if mode = Mode_xml then Xml_language # (if linter_enabled then [Xml_linter] else [])
      else [])"

text \<open>The text of the marker at the end of a line, from what follows the line.\<close>

definition line_ending_marker :: "string \<Rightarrow> string" where
  "line_ending_marker following =
     (if starts_with [CHR 0x0D, CHR 0x0A] (take 2 following) then ''CRLF''
      else if starts_with [CHR 0x0D] (take 2 following) then ''CR'' else ''LF'')"

section \<open>Opening an entry\<close>

definition open_publisher :: "'n pub_env \<Rightarrow> int \<Rightarrow> 'n pub_world \<Rightarrow> 'n pub_world" where
  "open_publisher env i w =
     restore_publisher_view env i []
       (w\<lparr>pw_nav := (pw_nav w)\<lparr>last_publisher_idx := Some i, hash := ''#publishers:'' @ int_str i\<rparr>\<rparr>)"

definition open_consumer :: "('n, 's) cons_env \<Rightarrow> int \<Rightarrow> ('n, 's) cons_world \<Rightarrow> ('n, 's) cons_world" where
  "open_consumer env i w =
     restore_consumer_view env i []
       (w\<lparr>cw_nav := (cw_nav w)\<lparr>last_consumer_idx := Some i, hash := ''#consumers:'' @ int_str i\<rparr>\<rparr>)"

definition selected_consumer :: "consumer_item list \<Rightarrow> int \<Rightarrow> consumer_item option" where
  "selected_consumer rows selected = List.find (\<lambda>it. int (ci_index it) = selected) rows"

section \<open>Importing a file\<close>

datatype file_kind = Postman_file | Openapi_file | Asyncapi_file | Mqb_file
datatype import_notice = Import_completed | Import_failed string

text \<open>\<open>file_import env kind\<close> is the action chosen for the kind. The notice is the dialog the page opens; after
  a successful one the definition tab is selected.\<close>

definition file_import :: "'n pub_env \<Rightarrow> file_kind \<Rightarrow> string \<Rightarrow> ('n pub_world, unit) promise" where
  "file_import env kind source =
     (if kind = Mqb_file then import_mqb_to_publisher env source
      else doing (import_requests_to_publishers env source))"

definition handle_publisher_import ::
    "'n pub_env \<Rightarrow> file_kind \<Rightarrow> string \<Rightarrow> 'n pub_world \<Rightarrow> import_notice \<times> 'n pub_world" where
  "handle_publisher_import env kind source w =
     (case file_import env kind source w of
        (Inl e, w1) \<Rightarrow> (Import_failed (pe_message env e), w1)
      | (Inr (), w1) \<Rightarrow>
          (Import_completed,
           select_publisher_subtab ''definition'' (restore_publisher_view env (pub_index w1) ''definition'' w1)))"

text \<open>The consumers' page logs an error and says nothing.\<close>

definition handle_consumer_import ::
    "('n, 's) cons_env \<Rightarrow> bool \<Rightarrow> string \<Rightarrow> ('n, 's) cons_world \<Rightarrow> ('n, 's) cons_world" where
  "handle_consumer_import env asyncapi source w =
     snd (if asyncapi then import_async_api_to_consumer env source w else import_mqb_to_consumer env source w)"

text \<open>The settings page: the text of the dialog and whether the page is loaded again; \<open>message\<close> is the
  message of an error.\<close>

definition handle_settings_import ::
    "(js_error \<Rightarrow> string) \<Rightarrow> ('n, 's) import_env \<Rightarrow> string \<Rightarrow> ('n, 's) import_world \<Rightarrow> string \<times> bool \<times> ('n, 's) import_world" where
  "handle_settings_import message env source w =
     (case import_app_config_from_json_text env source w of
        (Inl e, w') \<Rightarrow> (''Import failed: '' @ message e, False, w')
      | (Inr counts, w') \<Rightarrow> (''Imported '' @ nat_str (imported_publishers counts) @ '' publishers and ''
          @ nat_str (imported_consumers counts) @ '' consumers.'', True, w'))"

definition reset_config ::
    "('n, 's) import_env \<Rightarrow> bool \<Rightarrow> ('n, 's) import_world \<Rightarrow> bool \<times> ('n, 's) import_world" where
  "reset_config env confirmed w =
     (if \<not> confirmed then (False, w)
      else (case reset_app_config_to_defaults env w of (r, w') \<Rightarrow> (r = Inr (), w')))"

lemma pub_notice_page [simp]: "pw_page (pub_notice s w) = pw_page w"
  by (simp add: pub_notice_def)

lemma render_form_page [simp]: "pw_page (render_publisher_form env w) = pw_page w"
  by (simp add: render_publisher_form_def Let_def split: option.split)

lemma restore_view_page [simp]: "pw_page (restore_publisher_view env i t w) = pw_page w"
  by (simp add: restore_publisher_view_def pub_panel_do_def Let_def)

lemma select_subtab_page [simp]: "pw_page (select_publisher_subtab t w) = pw_page w"
  by (simp add: select_publisher_subtab_def)

section \<open>Properties\<close>

text \<open>C28: A failed import is reported as a success on the publishers page: when the text of a chosen Postman,
  OpenAPI or AsyncAPI file cannot be read as requests, the action only leaves its own notice and
  does not fail, so the page opens "Import completed successfully" although no publisher has been
  added; for the mq-bridge kind a text that is no JSON document is reported as failed.\<close>

theorem failed_import_reported_as_success:
  assumes "extract_imported_requests source = Inl e" "parse_json mqb_source = None" "kind \<noteq> Mqb_file"
  shows "fst (handle_publisher_import env kind source w) = Import_completed
    \<and> pub_rows (snd (handle_publisher_import env kind source w)) = pub_rows w
    \<and> handle_publisher_import env Mqb_file mqb_source w = (Import_failed (pe_message env Syntax_failure), w)"
proof -
  have act: "import_requests_to_publishers env source w
      = render_selected_publisher env (pub_notice (''Import failed: '' @ pe_message env e) w)"
    by (simp add: import_requests_to_publishers_def assms(1) await_def resolved_def)
  have "file_import env kind source w = (Inr (), import_requests_to_publishers env source w)"
    using assms(3) by (simp add: file_import_def doing_def)
  then have "fst (handle_publisher_import env kind source w) = Import_completed"
    "pub_rows (snd (handle_publisher_import env kind source w)) = pub_rows w"
    by (simp_all add: handle_publisher_import_def act split: unit.split)
  moreover have "handle_publisher_import env Mqb_file mqb_source w = (Import_failed (pe_message env Syntax_failure), w)"
    by (simp add: handle_publisher_import_def file_import_def import_mqb_to_publisher_def assms(2))
  ultimately show ?thesis by simp
qed

theorem failed_import_reported_as_success_witness:
  "fst (handle_publisher_import (sample_pub_env keeping_server) Postman_file ''{''
     (sample_pub_world [] Without_storage)) = Import_completed"
proof -
  have "parse_json ''{'' = None" by code_simp
  moreover from this have "extract_imported_requests ''{'' = Inl Syntax_failure"
    by (simp add: extract_imported_requests_def)
  ultimately show ?thesis
    using failed_import_reported_as_success [of "''{''" Syntax_failure "''{''" Postman_file
        "sample_pub_env keeping_server" "sample_pub_world [] Without_storage"] by simp
qed

end
