(* ===== verification/WindowBridge.thy ===== *)
theory WindowBridge
  imports JsObject
begin

text \<open>
  The bridge between the modules and the window (\<open>app-shell.ts\<close>, \<open>runtime-window.ts\<close>):
  which configuration and schema are read, which of two functions a call reaches, and how the
  application state is taken over from and copied to the window's legacy globals. Functions and
  timers in the state are opaque values.
\<close>

section \<open>The shell\<close>

record shell =
  sh_bridge :: obj
  sh_has_config :: bool
  sh_has_schema :: bool
  sh_window :: obj

definition new_shell :: "obj \<Rightarrow> shell" where
  "new_shell window = \<lparr>sh_bridge = [(''config'', JObj []), (''schema'', JObj []), (''desktop'', JBool False)],
     sh_has_config = False, sh_has_schema = False, sh_window = window\<rparr>"

definition configure_app_shell :: "obj \<Rightarrow> shell \<Rightarrow> shell" where
  "configure_app_shell next_bridge sh =
     sh\<lparr>sh_has_config := (sh_has_config sh \<or> ohas next_bridge ''config''),
        sh_has_schema := (sh_has_schema sh \<or> ohas next_bridge ''schema''),
        sh_bridge := ospread (sh_bridge sh) next_bridge,
        sh_window := ospread (sh_window sh) next_bridge\<rparr>"

definition shell_config :: "shell \<Rightarrow> jval" where
  "shell_config sh =
     js_or (if sh_has_config sh then oget (sh_bridge sh) ''config'' else oget (sh_window sh) ''appConfig'') (JObj [])"

definition set_shell_config :: "jval \<Rightarrow> shell \<Rightarrow> shell" where
  "set_shell_config value sh =
     sh\<lparr>sh_has_config := True, sh_bridge := oput ''config'' value (sh_bridge sh),
        sh_window := oput ''appConfig'' value (sh_window sh)\<rparr>"

definition shell_schema :: "shell \<Rightarrow> jval" where
  "shell_schema sh =
     js_or (if sh_has_schema sh then oget (sh_bridge sh) ''schema'' else oget (sh_window sh) ''appSchema'') (JObj [])"

definition set_shell_schema :: "jval \<Rightarrow> shell \<Rightarrow> shell" where
  "set_shell_schema value sh =
     sh\<lparr>sh_has_schema := True, sh_bridge := oput ''schema'' value (sh_bridge sh),
        sh_window := oput ''appSchema'' value (sh_window sh)\<rparr>"

definition shell_is_desktop :: "shell \<Rightarrow> bool" where
  "shell_is_desktop sh \<longleftrightarrow> truthy (oget (sh_bridge sh) ''desktop'') \<or> truthy (oget (sh_window sh) ''__MQB_DESKTOP__'')"

definition set_shell_desktop :: "bool \<Rightarrow> shell \<Rightarrow> shell" where
  "set_shell_desktop value sh = sh\<lparr>sh_bridge := oput ''desktop'' (JBool value) (sh_bridge sh)\<rparr>"

section \<open>Calls\<close>

text \<open>\<open>bridge.f?.(x) ?? window.f?.(x)\<close>: a function maps the state to what it returns and the state after it.
  A bridge function that returns nothing lets the window's function run as well.\<close>

definition call_if :: "('s \<Rightarrow> jval \<times> 's) option \<Rightarrow> 's \<Rightarrow> jval \<times> 's" where
  "call_if f s = (case f of None \<Rightarrow> (Undef, s) | Some g \<Rightarrow> g s)"

definition call_either :: "('s \<Rightarrow> jval \<times> 's) option \<Rightarrow> ('s \<Rightarrow> jval \<times> 's) option \<Rightarrow> 's \<Rightarrow> jval \<times> 's" where
  "call_either bridge window s =
     (case call_if bridge s of (r, s') \<Rightarrow> if r = Undef \<or> r = Null then call_if window s' else (r, s'))"

text \<open>The registrations call the window's function only when the bridge has none.\<close>

definition call_one :: "('s \<Rightarrow> jval \<times> 's) option \<Rightarrow> ('s \<Rightarrow> jval \<times> 's) option \<Rightarrow> 's \<Rightarrow> jval \<times> 's" where
  "call_one bridge window s = (if bridge = None then call_if window s else call_if bridge s)"

text \<open>\<open>mqbDialogs\<close>: the window's dialog, unless it is absent or is this very function.\<close>

definition dialog_function :: "'f option \<Rightarrow> 'f \<Rightarrow> 'f \<Rightarrow> 'f" where
  "dialog_function window own standard =
     (case window of None \<Rightarrow> standard | Some f \<Rightarrow> if f = own then standard else f)"

section \<open>The application state\<close>

definition default_app_state :: "jval \<Rightarrow> jval \<Rightarrow> obj" where
  "default_app_state empty_status empty_security =
     [(''active_tab'', JStr ''publishers''), (''consumers_initialized'', JBool False),
      (''publishers_initialized'', JBool False), (''config_initialized'', JBool False),
      (''pending_consumer_restore'', Null), (''pending_publisher_restore'', Null),
      (''last_consumer_idx'', JNum 0), (''last_publisher_idx'', JNum 0),
      (''last_consumer_tab'', JStr ''messages''), (''last_publisher_tab'', JStr ''payload''),
      (''runtime_status'', empty_status), (''storage_security'', empty_security),
      (''storage_cache'', Undef), (''before_workspace_save_hooks'', JObj []),
      (''after_workspace_save_hooks'', JObj []), (''dirty_sections'', JObj []), (''saved_sections'', JObj []),
      (''runtime_poll_timer'', Undef), (''consumer_poll_timer'', Null), (''consumer_poll_nonce'', JNum 0),
      (''form_mode'', Null), (''cons_split'', Undef)]"

definition reset_shell_state :: "jval \<Rightarrow> jval \<Rightarrow> obj \<Rightarrow> obj" where
  "reset_shell_state empty_status empty_security state = ospread state (default_app_state empty_status empty_security)"

text \<open>\<open>Own_state\<close>: \<open>__mqb_state\<close> is the state object itself.\<close>

datatype legacy_state = No_legacy | Own_state | Other_state obj

record legacy_window =
  lw_globals :: obj
  lw_state :: legacy_state
  lw_hydrated :: bool

definition hydrate_legacy_field :: "string \<Rightarrow> jval \<Rightarrow> obj \<Rightarrow> obj" where
  "hydrate_legacy_field key value state =
     (if oget state key = Undef \<and> value \<noteq> Undef then oput key value state else state)"

definition legacy_fields :: "(string \<times> string) list" where
  "legacy_fields =
     [(''active_tab'', ''_mqb_active_tab''), (''consumers_initialized'', ''_mqb_consumers_initialized''),
      (''publishers_initialized'', ''_mqb_publishers_initialized''), (''config_initialized'', ''_mqb_config_initialized''),
      (''pending_consumer_restore'', ''_mqb_pending_consumer_restore''),
      (''pending_publisher_restore'', ''_mqb_pending_publisher_restore''),
      (''last_consumer_idx'', ''_mqb_last_consumer_idx''), (''last_publisher_idx'', ''_mqb_last_publisher_idx''),
      (''last_consumer_tab'', ''_mqb_last_consumer_tab''), (''last_publisher_tab'', ''_mqb_last_publisher_tab''),
      (''runtime_status'', ''_mqb_runtime_status''), (''storage_security'', ''_mqb_storage_security''),
      (''features'', ''_mqb_features''), (''storage_cache'', ''_mqb_storage_cache''),
      (''before_workspace_save_hooks'', ''_mqb_before_workspace_save_hooks''),
      (''after_workspace_save_hooks'', ''_mqb_after_workspace_save_hooks''),
      (''dirty_sections'', ''_mqb_dirty_sections''), (''saved_sections'', ''_mqb_saved_sections''),
      (''runtime_poll_timer'', ''_mqb_runtime_poll_timer''), (''consumer_poll_timer'', ''_mqb_consumer_poll_timer''),
      (''consumer_poll_nonce'', ''_mqb_consumer_poll_nonce''), (''form_mode'', ''_mqb_form_mode''),
      (''cons_split'', ''_consSplit'')]"

text \<open>The three marks of initialisation are read as booleans.\<close>

definition legacy_value :: "obj \<Rightarrow> string \<Rightarrow> string \<Rightarrow> jval" where
  "legacy_value globals key global =
     (let v = oget globals global
      in if key \<in> {''consumers_initialized'', ''publishers_initialized'', ''config_initialized''} \<and> v \<noteq> Undef
         then JBool (truthy v) else v)"

definition sync_legacy_window_state :: "obj \<Rightarrow> legacy_window \<Rightarrow> legacy_window" where
  "sync_legacy_window_state state win =
     win\<lparr>lw_state := Own_state,
         lw_globals := fold (\<lambda>(key, global). oput global (oget state key)) legacy_fields (lw_globals win)\<rparr>"

definition get_mqb_state :: "obj \<Rightarrow> legacy_window \<Rightarrow> obj \<times> legacy_window" where
  "get_mqb_state state win =
     (let legacy = (case lw_state win of Other_state es \<Rightarrow> own_entries es | _ \<Rightarrow> []);
          hydrated = (if lw_hydrated win then state
            else fold (\<lambda>(key, global). hydrate_legacy_field key (legacy_value (lw_globals win) key global)) legacy_fields
                   (fold (\<lambda>(key, value). hydrate_legacy_field key value) legacy state))
      in (hydrated, sync_legacy_window_state hydrated (win\<lparr>lw_hydrated := True\<rparr>)))"

definition clear_pending_members :: "obj \<Rightarrow> obj" where
  "clear_pending_members es = oput ''pending_publisher_restore'' Null (oput ''pending_consumer_restore'' Null es)"

definition clear_legacy_pending_restore_globals :: "obj \<Rightarrow> legacy_window \<Rightarrow> obj \<times> legacy_window" where
  "clear_legacy_pending_restore_globals state win =
     (clear_pending_members state,
      win\<lparr>lw_state := (case lw_state win of Other_state es \<Rightarrow> Other_state (clear_pending_members es) | s \<Rightarrow> s),
          lw_globals := oput ''_mqb_pending_publisher_restore'' Null
            (oput ''_mqb_pending_consumer_restore'' Null (lw_globals win))\<rparr>)"

section \<open>Facts\<close>

text \<open>What was set last is what is read, whatever the window holds.\<close>

lemma set_config_read [simp]: "truthy c \<Longrightarrow> shell_config (set_shell_config c sh) = c"
  and set_schema_read [simp]: "truthy c \<Longrightarrow> shell_schema (set_shell_schema c sh) = c"
  and set_config_keeps_schema [simp]: "shell_schema (set_shell_config c sh) = shell_schema sh"
  and set_schema_keeps_config [simp]: "shell_config (set_shell_schema c sh) = shell_config sh"
  by (simp_all add: shell_config_def shell_schema_def set_shell_config_def set_shell_schema_def js_or_def)

lemma unconfigured_reads_window:
  "shell_config (configure_app_shell [] (new_shell win)) = js_or (oget win ''appConfig'') (JObj [])"
  by (simp add: shell_config_def configure_app_shell_def new_shell_def ohas_def ospread_def)

text \<open>With the same function on both sides, one that returns nothing runs twice.\<close>

lemma silent_function_runs_twice: "f s = (Undef, s1) \<Longrightarrow> call_either (Some f) (Some f) s = f s1"
  by (simp add: call_either_def call_if_def)

lemma hydrate_keeps: "oget state k \<noteq> Undef \<Longrightarrow> oget (hydrate_legacy_field key v state) k = oget state k"
  by (auto simp: hydrate_legacy_field_def)

lemma hydrate_all_keeps:
  "oget state k \<noteq> Undef \<Longrightarrow> oget (fold (\<lambda>(key, x). hydrate_legacy_field key (f key x)) es state) k = oget state k"
proof (induction es arbitrary: state)
  case (Cons e es)
  obtain key x where e: "e = (key, x)" by force
  from Cons show ?case by (simp add: e hydrate_keeps)
qed simp

lemma hydration_keeps_set_fields: "oget state k \<noteq> Undef \<Longrightarrow> oget (fst (get_mqb_state state win)) k = oget state k"
  using hydrate_all_keeps [of state k "\<lambda>key v. v"] hydrate_all_keeps [of _ k "legacy_value (lw_globals win)"]
  by (simp add: get_mqb_state_def Let_def)

text \<open>The state starts with a value for every field but these four, so nothing else can be taken over
  from the window; its globals are overwritten with the defaults.\<close>

definition defaulted_fields :: "string list" where
  "defaulted_fields = filter (\<lambda>k. k \<notin> {''features'', ''storage_cache'', ''runtime_poll_timer'', ''cons_split''})
     (map fst legacy_fields)"

lemma defaults_set: "list_all (\<lambda>k. oget (default_app_state (JObj []) (JObj [])) k \<noteq> Undef) defaulted_fields"
  by code_simp

lemma default_fields_not_taken_over:
  assumes "key \<in> set defaulted_fields"
  shows "oget (fst (get_mqb_state (default_app_state (JObj []) (JObj [])) win)) key
    = oget (default_app_state (JObj []) (JObj [])) key"
  using assms defaults_set by (intro hydration_keeps_set_fields) (simp add: list_all_iff)

end
