(* ===== verification/DesktopBridge.thy ===== *)
theory DesktopBridge
  imports ConsumerRuntime
begin

text \<open>
  The desktop build (\<open>src/crates/core/static/tauri-bridge.js\<close>): \<open>fetch\<close> is replaced by a function
  that answers the requests of the page from the desktop program and passes all others on. The
  program behind \<open>invoke\<close>, the browser's own \<open>fetch\<close>, and the platform's URL parser and decoder on
  other inputs than the page's are parameters. The headers of an answer, which the page never
  reads, are left out.
\<close>

section \<open>Addresses\<close>

text \<open>\<open>pu_local\<close>: the address has the origin of the page.\<close>

record page_url =
  pu_local :: bool
  pu_path :: string
  pu_query :: string

definition url_char :: "char \<Rightarrow> bool" where
  "url_char c \<longleftrightarrow> uri_plain c \<or> c \<in> set ''/?=&%''"

text \<open>\<open>new URL(input, window.location.origin)\<close> for the absolute paths the page asks for, which have no
  fragment and no dot segments; \<open>parse\<close> answers for all other texts.\<close>

definition resolve_url :: "(string \<Rightarrow> page_url) \<Rightarrow> string \<Rightarrow> page_url" where
  "resolve_url parse input =
     (let path = takeWhile (\<lambda>c. c \<noteq> CHR ''?'') input
      in if starts_with ''/'' input \<and> \<not> starts_with ''//'' input \<and> list_all url_char input
            \<and> list_all (\<lambda>w. \<not> starts_with ''.'' w \<and> \<not> starts_with ''%'' w) (split_on (CHR ''/'') path)
         then \<lparr>pu_local = True, pu_path = path, pu_query = drop (Suc (length path)) input\<rparr>
         else parse input)"

text \<open>The bytes of a part of a query, with \<open>+\<close> for a space and percent signs undone.\<close>

fun query_bytes :: "string \<Rightarrow> bytes" where
  "query_bytes [] = []"
| "query_bytes (c # s) =
     (if c = CHR ''+'' then utf8_char CHR '' '' @ query_bytes s
      else if c \<noteq> CHR ''%'' then utf8_char c @ query_bytes s
      else (case s of
          h # l # rest \<Rightarrow>
            (case (hex_value h, hex_value l) of
               (Some a, Some b) \<Rightarrow> of_nat (16 * a + b) # query_bytes rest
             | _ \<Rightarrow> utf8_char c @ query_bytes s)
        | _ \<Rightarrow> utf8_char c @ query_bytes s))"

text \<open>\<open>Object.fromEntries(url.searchParams.entries())\<close>\<close>

definition query_entry :: "(bytes \<Rightarrow> string) \<Rightarrow> string \<Rightarrow> string \<times> jval" where
  "query_entry decode part =
     (let name = takeWhile (\<lambda>c. c \<noteq> CHR ''='') part
      in (decode (query_bytes name), JStr (decode (query_bytes (drop (Suc (length name)) part)))))"

definition query_params :: "(bytes \<Rightarrow> string) \<Rightarrow> string \<Rightarrow> obj" where
  "query_params decode query =
     from_entries (map (query_entry decode) (filter (\<lambda>w. w \<noteq> []) (split_on (CHR ''&'') query)))"

section \<open>Requests and commands\<close>

definition bridged_paths :: "string list" where
  "bridged_paths = [''/health'', ''/schema.json'', ''/config'', ''/desktop-secrets'', ''/consumer-status'',
     ''/consumer-start'', ''/consumer-stop'', ''/messages'', ''/publish'', ''/runtime-status'', ''/peer-status'',
     ''/metrics'']"

definition url_pathname :: "page_url \<Rightarrow> string" where
  "url_pathname url = hd (split_on (CHR ''#'') (pu_path url))"

definition is_local_ui_request :: "page_url \<Rightarrow> bool" where
  "is_local_ui_request url \<longleftrightarrow> pu_local url \<and> url_pathname url \<in> set bridged_paths"

text \<open>The command for a request, and its arguments. The outer \<open>None\<close> is the default branch; the inner one a
  method no branch names, for which the command stays \<open>undefined\<close>.\<close>

definition bridge_command :: "string \<Rightarrow> string \<Rightarrow> obj \<Rightarrow> string \<Rightarrow> (string option \<times> obj) option" where
  "bridge_command verb path params body_text =
     (let consumer = js_or (oget params ''consumer'') (oget params ''consumer_id'');
          of_consumer = [(''consumer'', js_or consumer (JStr []))]
      in if path = ''/health'' then Some (Some ''get_health_request'', [])
         else if path = ''/schema.json'' then Some (Some ''get_schema_request'', [])
         else if path = ''/config'' then
           Some (if verb = ''GET'' then (Some ''get_config_request'', [])
                 else if verb = ''POST'' then (Some ''post_config_request'', [(''bodyText'', JStr body_text)])
                 else (None, []))
         else if path = ''/desktop-secrets'' then
           Some (if verb = ''GET'' then (Some ''get_desktop_secrets_request'', [])
                 else if verb = ''DELETE'' then (Some ''delete_desktop_secrets_request'', [])
                 else (None, []))
         else if path = ''/consumer-status'' then Some (Some ''get_consumer_status_request'', of_consumer)
         else if path = ''/consumer-start'' then Some (Some ''post_consumer_start_request'', of_consumer)
         else if path = ''/consumer-stop'' then Some (Some ''post_consumer_stop_request'', of_consumer)
         else if path = ''/messages'' then Some (Some ''get_messages_request'', [(''consumer'', js_or consumer Null)])
         else if path = ''/publish'' then Some (Some ''post_publish_request'', [(''bodyText'', JStr body_text)])
         else if path = ''/runtime-status'' then Some (Some ''get_runtime_status_request'', [])
         else if path = ''/peer-status'' then Some (Some ''get_peer_status_request'', [])
         else if path = ''/metrics'' then Some (Some ''get_metrics_request'', [])
         else None)"

section \<open>Answers\<close>

text \<open>\<open>new Response(body, ...)\<close>: a status outside 200 to 599 is refused, and so is a body, even an empty
  one, for the statuses that have none. The desktop program sends a number or no status.\<close>

definition bridge_status :: "jval \<Rightarrow> nat option" where
  "bridge_status v =
     (case js_or v (JNum 200) of
        JNum k \<Rightarrow> if 200 \<le> k \<and> k \<le> 599 \<and> k \<notin> {204, 205, 304} then Some (nat k) else None
      | _ \<Rightarrow> None)"

definition to_response :: "jval \<Rightarrow> response option" where
  "to_response answer =
     (let body = (if jget answer ''body_json'' \<noteq> Undef \<and> jget answer ''body_json'' \<noteq> Null
                  then stringify (jget answer ''body_json'') else str_or (jget answer ''body_text'') [])
      in map_option (\<lambda>k. \<lparr>rs_ok = (k < 300), rs_status = k, rs_status_text = [], rs_body = Some body\<rparr>)
           (bridge_status (jget answer ''status'')))"

definition bridge_error :: "jval \<Rightarrow> string" where
  "bridge_error thrown =
     (if is_string thrown then to_str thrown
      else str_or (jget thrown ''message'') ''Tauri bridge invocation failed'')"

text \<open>\<open>de_refused\<close> is the platform's message for a response it does not construct.\<close>

record 'n desktop_env =
  de_invoke :: "string option \<Rightarrow> obj \<Rightarrow> 'n \<Rightarrow> (jval + jval) \<times> 'n"
  de_fetch :: "'n fetch"
  de_parse :: "string \<Rightarrow> page_url"
  de_decode :: "bytes \<Rightarrow> string"
  de_refused :: "jval \<Rightarrow> string"

definition invoke_command :: "'n desktop_env \<Rightarrow> string option \<Rightarrow> obj \<Rightarrow> ('n, response) promise" where
  "invoke_command env name args n =
     (case de_invoke env name args n of
        (Inl e, n') \<Rightarrow> (Inl (Js_error (bridge_error e)), n')
      | (Inr answer, n') \<Rightarrow>
          ((case to_response answer of
              Some r \<Rightarrow> Inr r
            | None \<Rightarrow> Inl (Js_error (bridge_error (JObj [(''message'', JStr (de_refused env answer))])))), n'))"

definition tauri_fetch :: "'n desktop_env \<Rightarrow> 'n fetch" where
  "tauri_fetch env rq n =
     (let url = resolve_url (de_parse env) (rq_path rq) in
      if \<not> is_local_ui_request url then de_fetch env rq n
      else (case bridge_command (map upper_char (rq_method rq)) (url_pathname url)
                  (query_params (de_decode env) (pu_query url))
                  (case rq_body rq of Some b \<Rightarrow> b | None \<Rightarrow> []) of
          None \<Rightarrow> de_fetch env rq n
        | Some (name, args) \<Rightarrow> invoke_command env name args n))"

section \<open>Facts\<close>

text \<open>The default branch is never reached: every path that is taken has a command.\<close>

lemma bridged_paths_have_commands: "path \<in> set bridged_paths \<Longrightarrow> bridge_command verb path params body \<noteq> None"
  by (auto simp: bridged_paths_def bridge_command_def Let_def)

text \<open>A method without a branch, such as \<open>PUT\<close>, is sent as the command \<open>undefined\<close>.\<close>

lemma unknown_method_undefined:
  "verb \<notin> {''GET'', ''POST''} \<Longrightarrow> bridge_command verb ''/config'' params body = Some (None, [])"
  by (simp add: bridge_command_def Let_def)

lemma upper_hex_value: "n < 16 \<Longrightarrow> hex_value (upper_char (hex_digit n)) = Some n"
  by (auto simp: hex_value_def upper_char_def hex_digit_def of_char_of Let_def)

lemma query_bytes_percent: "query_bytes (percent_byte b @ s) = b # query_bytes s"
proof -
  have "unat b div 16 < 16" "unat b mod 16 < 16" using unat8 [of b] by auto
  moreover have "16 * (unat b div 16) + unat b mod 16 = unat b" by simp
  ultimately show ?thesis by (simp add: percent_byte_def upper_hex_value)
qed

lemma query_bytes_percents: "query_bytes (concat (map percent_byte bs) @ s) = bs @ query_bytes s"
  by (induction bs) (simp_all add: query_bytes_percent)

lemma uri_plain_not: "uri_plain c \<Longrightarrow> c \<notin> {CHR ''+'', CHR ''%'', CHR ''&'', CHR ''='', CHR ''#'', CHR ''?'', CHR ''/''}"
  by (auto simp: uri_plain_def)

lemma encode_Cons: "encode_uri_component (c # s)
    = (if uri_plain c then [c] else concat (map percent_byte (utf8_char c))) @ encode_uri_component s"
  by (simp add: encode_uri_component_def)

lemma encode_uri_bytes: "query_bytes (encode_uri_component s) = utf8_encode s"
proof (induction s)
  case (Cons c s)
  show ?case
  proof (cases "uri_plain c")
    case True
    from uri_plain_not [OF this] True Cons show ?thesis by (simp add: encode_Cons utf8_encode_def)
  next
    case False
    with Cons show ?thesis by (simp add: encode_Cons query_bytes_percents utf8_encode_def)
  qed
qed (simp add: encode_uri_component_def utf8_encode_def)

lemma upper_hex_plain: "n < 16 \<Longrightarrow> uri_plain (upper_char (hex_digit n))"
  by (auto simp: uri_plain_def upper_char_def hex_digit_def of_char_of Let_def)

lemma percent_byte_chars: "c \<in> set (percent_byte b) \<Longrightarrow> uri_plain c \<or> c = CHR ''%''"
  using unat8 [of b] by (auto simp: percent_byte_def intro: upper_hex_plain)

lemma encode_uri_chars: "c \<in> set (encode_uri_component s) \<Longrightarrow> uri_plain c \<or> c = CHR ''%''"
  by (auto simp: encode_uri_component_def dest: percent_byte_chars split: if_splits)

lemma bridged_path_plain:
  "path \<in> set bridged_paths \<Longrightarrow> starts_with ''/'' path \<and> \<not> starts_with ''//'' (path @ s)
     \<and> list_all url_char path \<and> list_all (\<lambda>w. \<not> starts_with ''.'' w \<and> \<not> starts_with ''%'' w) (split_on (CHR ''/'') path)
     \<and> CHR ''?'' \<notin> set path \<and> CHR ''#'' \<notin> set path"
proof -
  have "list_all (\<lambda>path. starts_with ''/'' path \<and> 2 \<le> length path \<and> \<not> starts_with ''//'' path
     \<and> list_all url_char path \<and> list_all (\<lambda>w. \<not> starts_with ''.'' w \<and> \<not> starts_with ''%'' w) (split_on (CHR ''/'') path)
     \<and> CHR ''?'' \<notin> set path \<and> CHR ''#'' \<notin> set path) bridged_paths"
    by code_simp
  moreover have "\<not> starts_with ''//'' (path @ s)" if "2 \<le> length path" "\<not> starts_with ''//'' path" for path s :: string
    using that by (cases path; cases "tl path") auto
  ultimately show "path \<in> set bridged_paths \<Longrightarrow> ?thesis" by (auto simp: list_all_iff)
qed

lemma takeWhile_stop: "d \<notin> set w \<Longrightarrow> takeWhile (\<lambda>c. c \<noteq> d) (w @ d # s) = w"
  by (induction w) auto

lemma resolve_bridged:
  assumes "path \<in> set bridged_paths" "list_all url_char query"
  shows "resolve_url parse (path @ CHR ''?'' # query) = \<lparr>pu_local = True, pu_path = path, pu_query = query\<rparr>"
proof -
  note plain = bridged_path_plain [OF assms(1)]
  then have "takeWhile (\<lambda>c. c \<noteq> CHR ''?'') (path @ CHR ''?'' # query) = path" by (intro takeWhile_stop) blast
  moreover have "url_char CHR ''?''" by (simp add: url_char_def)
  moreover have "starts_with ''/'' (path @ s)" for s using plain by (cases path) auto
  ultimately show ?thesis
    using plain assms(2) by (simp add: resolve_url_def Let_def)
qed

lemma query_of_one:
  assumes "\<And>s. decode (utf8_encode s) = s" "list_all uri_plain name" "name \<noteq> []"
  shows "query_params decode (name @ CHR ''='' # encode_uri_component key) = [(name, JStr key)]"
proof -
  have sep: "c \<notin> {CHR ''+'', CHR ''%'', CHR ''&'', CHR ''=''}" if "c \<in> set name" for c
    using assms(2) that uri_plain_not by (auto simp: list_all_iff)
  let ?q = "name @ CHR ''='' # encode_uri_component key"
  have "CHR ''&'' \<notin> set ?q"
    using sep by (auto dest!: encode_uri_chars dest: uri_plain_not)
  then have one: "split_on (CHR ''&'') ?q = [?q]"
    using split_on_join [of "[?q]" "CHR ''&''"] by simp
  have "takeWhile (\<lambda>c. c \<noteq> CHR ''='') ?q = name" using sep by (intro takeWhile_stop) blast
  moreover have "query_bytes name = utf8_encode name"
    using sep by (induction name) (auto simp: utf8_encode_def)
  ultimately have "query_entry decode ?q = (name, JStr key)"
    by (simp add: query_entry_def Let_def encode_uri_bytes assms(1))
  with one show ?thesis
    using assms(3) by (simp add: query_params_def from_entries_def)
qed

lemma consumer_query:
  assumes "\<And>s. decode (utf8_encode s) = s"
  shows "query_params decode (''consumer_id='' @ encode_uri_component key) = [(''consumer_id'', JStr key)]"
  using query_of_one [OF assms, of "''consumer_id''" key] by (simp add: uri_plain_def Let_def)

lemma query_chars: "list_all url_char (''consumer_id='' @ encode_uri_component key)"
  by (auto simp: list_all_iff url_char_def uri_plain_def Let_def dest!: encode_uri_chars)

section \<open>Properties\<close>

text \<open>C22: On the desktop a request about a consumer reaches that consumer: whatever characters its key holds, the
  command that the replaced \<open>fetch\<close> sends for starting, stopping and reading the messages of a consumer carries
  exactly the key the panel asked for, although it went through the query of an address.\<close>

theorem desktop_request_names_consumer:
  assumes "\<And>s. de_decode env (utf8_encode s) = s"
  shows "tauri_fetch env (toggle_request running key)
      = invoke_command env (Some (if running then ''post_consumer_stop_request'' else ''post_consumer_start_request''))
          [(''consumer'', JStr key)]
    \<and> tauri_fetch env (messages_request key)
      = invoke_command env (Some ''get_messages_request'') [(''consumer'', if key = [] then Null else JStr key)]"
proof -
  define q where "q = ''consumer_id='' @ encode_uri_component key"
  have chars: "list_all url_char q" unfolding q_def by (rule query_chars)
  have params: "query_params (de_decode env) q = [(''consumer_id'', JStr key)]"
    unfolding q_def by (rule consumer_query [OF assms])
  have through: "tauri_fetch env rq = invoke_command env name args"
    if "rq_path rq = path @ CHR ''?'' # q" "path \<in> set bridged_paths"
      "bridge_command (map upper_char (rq_method rq)) path [(''consumer_id'', JStr key)]
         (case rq_body rq of Some b \<Rightarrow> b | None \<Rightarrow> []) = Some (name, args)" for rq path name args
  proof
    fix n
    have "CHR ''#'' \<notin> set path" using bridged_path_plain [OF that(2)] by blast
    then have "hd (split_on (CHR ''#'') path) = path"
      using split_on_join [of "[path]" "CHR ''#''"] by simp
    with that show "tauri_fetch env rq n = invoke_command env name args n"
      by (simp add: tauri_fetch_def resolve_bridged chars params is_local_ui_request_def url_pathname_def Let_def)
  qed
  have "tauri_fetch env (toggle_request running key)
      = invoke_command env (Some (if running then ''post_consumer_stop_request'' else ''post_consumer_start_request''))
          [(''consumer'', JStr key)]"
    by (rule through [where path = "if running then ''/consumer-stop'' else ''/consumer-start''"])
      (auto simp: q_def toggle_request_def bridged_paths_def bridge_command_def js_or_def oget_def Let_def)
  moreover have "tauri_fetch env (messages_request key)
      = invoke_command env (Some ''get_messages_request'') [(''consumer'', if key = [] then Null else JStr key)]"
    by (rule through [where path = "''/messages''"])
      (auto simp: q_def messages_request_def get_request_def bridged_paths_def bridge_command_def js_or_def oget_def Let_def)
  ultimately show ?thesis by blast
qed

text \<open>A desktop program that answers with the arguments it was called with, and a page server without files.\<close>

definition echo_desktop :: "unit desktop_env" where
  "echo_desktop =
     \<lparr>de_invoke = (\<lambda>name args n. (Inr (JObj [(''body_json'', JObj args)]), n)),
      de_fetch = (\<lambda>rq n. (Inr \<lparr>rs_ok = True, rs_status = 200, rs_status_text = [], rs_body = Some ''<html>''\<rparr>, n)),
      de_parse = (\<lambda>input. \<lparr>pu_local = False, pu_path = [], pu_query = []\<rparr>),
      de_decode = (\<lambda>bs. the (utf8_decode bs)), de_refused = (\<lambda>answer. [])\<rparr>"

lemma desktop_request_names_consumer_witness:
  "fst (tauri_fetch echo_desktop (toggle_request False ''a&b c'') ())
    = Inr \<lparr>rs_ok = True, rs_status = 200, rs_status_text = [], rs_body = Some (stringify (JObj [(''consumer'', JStr ''a&b c'')]))\<rparr>"
proof -
  have "de_decode echo_desktop (utf8_encode s) = s" for s by (simp add: echo_desktop_def)
  from desktop_request_names_consumer [of echo_desktop, OF this]
  have "tauri_fetch echo_desktop (toggle_request False ''a&b c'')
    = invoke_command echo_desktop (Some ''post_consumer_start_request'') [(''consumer'', JStr ''a&b c'')]" by simp
  then show ?thesis
    by (simp add: invoke_command_def echo_desktop_def to_response_def bridge_status_def js_or_def Let_def oget_def)
qed

text \<open>What an answer without the expected JSON comes to: an error, a refusal, or a page of something else.\<close>

definition no_json :: "js_error + response \<Rightarrow> bool" where
  "no_json answer \<longleftrightarrow> (case answer of Inl e \<Rightarrow> True | Inr r \<Rightarrow> \<not> rs_ok r \<or> (\<exists>e. response_json r = Inl e))"

lemma no_json_checked: "no_json answer \<Longrightarrow> answer = Inr r \<Longrightarrow> \<exists>e. checked_json lab r = Inl e"
  by (auto simp: no_json_def checked_json_def)

lemma not_bridged:
  assumes "path \<in> {''/storage-security'', ''/config-recovery'', ''/features''}"
  shows "tauri_fetch env (get_request path) = de_fetch env (get_request path)"
proof
  fix n
  have plain: "\<And>parse. list_all (\<lambda>path. resolve_url parse path = \<lparr>pu_local = True, pu_path = path, pu_query = []\<rparr>
      \<and> url_pathname (resolve_url parse path) \<notin> set bridged_paths) [''/storage-security'', ''/config-recovery'', ''/features'']"
    by code_simp
  with assms have "\<not> is_local_ui_request (resolve_url (de_parse env) path)"
    by (auto simp: is_local_ui_request_def)
  then show "tauri_fetch env (get_request path) n = de_fetch env (get_request path) n"
    by (simp add: tauri_fetch_def get_request_def)
qed

lemma load_without_security:
  assumes "\<And>x. fst (or_null (on_net (fetch_storage_security_from_server (se_fetch env))) x) = Inr Null"
    and "load_config env w = (Inr config, w')"
  shows "sw_security w' = JObj (security_doc (normalize_storage_security_info (JObj (security_doc empty_storage_security))))"
proof -
  obtain r w1 where f: "on_net (fetch_config_from_server (se_fetch env)) w = (r, w1)" by force
  obtain w2 where s: "or_null (on_net (fetch_storage_security_from_server (se_fetch env))) w1 = (Inr Null, w2)"
    using assms(1) [of w1] by (metis prod.collapse)
  show ?thesis
  proof (cases r)
    case (Inr v)
    with f s assms(2) show ?thesis
      by (cases v) (auto simp: load_config_def await_def doing_def resolved_def)
  qed (use f assms(2) in \<open>simp add: load_config_def await_def\<close>)
qed

lemma complete_empty: "complete_security empty_storage_security"
  by (simp add: complete_security_def empty_storage_security_def)

text \<open>C26: The desktop build never learns how its storage is protected: the bridge does not take the requests for
  the storage protection and for the recovery of the configuration, so they end at the page's own files. With
  no JSON there, the application starts with the empty protection whatever the desktop program would have
  answered, its settings page does not offer the protected mode of the desktop, and no recovery of an unreadable configuration is ever offered.\<close>

theorem desktop_protection_unknown:
  assumes "se_fetch env = tauri_fetch d"
    and "\<And>path n. path \<in> {''/storage-security'', ''/config-recovery''} \<Longrightarrow> no_json (fst (de_fetch d (get_request path) n))"
    and "load_config env w = (Inr config, w')"
  shows "normalize_storage_security_info (sw_security w') = empty_storage_security
    \<and> \<not> has_encrypted_messages (normalize_storage_security_info (sw_security w'))
    \<and> ''sensitive'' \<notin> set (available_storage_mode_values (normalize_storage_security_info (sw_security w')))
    \<and> fst (maybe_handle_config_recovery (se_fetch env) choice n) = Inr None"
proof -
  have lost: "or_null (await (tauri_fetch d (get_request path)) (\<lambda>r. resolved (checked_json lab r))) n
      = (Inr Null, snd (de_fetch d (get_request path) n))"
    if "path \<in> {''/storage-security'', ''/config-recovery''}" for path lab n
  proof -
    obtain answer n1 where a: "de_fetch d (get_request path) n = (answer, n1)" by force
    with assms(2) [OF that, of n] have "no_json answer" by simp
    moreover have "tauri_fetch d (get_request path) = de_fetch d (get_request path)"
      using that by (intro not_bridged) auto
    ultimately show ?thesis
      using a no_json_checked [of answer _ lab] by (cases answer) (auto simp: or_null_def await_def resolved_def)
  qed
  have "fst (or_null (on_net (fetch_storage_security_from_server (se_fetch env))) x) = Inr Null" for x
    using lost [of "''/storage-security''" "''Fetching storage security''" "sw_net x"]
    by (auto simp: assms(1) fetch_storage_security_from_server_def or_null_def on_net_def split: prod.splits sum.splits)
  from load_without_security [OF this assms(3)]
  have "sw_security w' = JObj (security_doc (normalize_storage_security_info (JObj (security_doc empty_storage_security))))" .
  moreover have "fst (maybe_handle_config_recovery (se_fetch env) choice n) = Inr None"
    using lost [of "''/config-recovery''" "''Fetching config recovery''" n]
    by (auto simp: assms(1) maybe_handle_config_recovery_def fetch_config_recovery_from_server_def resolved_def)
  moreover have "''sensitive'' \<notin> set (available_storage_mode_values empty_storage_security)"
    by (simp add: available_storage_mode_values_def empty_storage_security_def)
  ultimately show ?thesis
    by (simp add: normalize_doc complete_empty empty_storage_security_unkeyed)
qed

text \<open>The echo reads back as an empty configuration, and the page's own server has only its markup.\<close>

lemma desktop_protection_unknown_witness:
  "normalize_storage_security_info (sw_security (snd (load_config (sample_save_env (tauri_fetch echo_desktop)) (sample_page ()))))
     = empty_storage_security
   \<and> fst (maybe_handle_config_recovery (tauri_fetch echo_desktop) (\<lambda>q cs. Text ''reset'') ()) = Inr None"
proof -
  let ?env = "sample_save_env (tauri_fetch echo_desktop)"
  have "parse_json ''<html>'' = None" by code_simp
  then have page: "no_json (fst (de_fetch echo_desktop rq n))" for rq n
    by (simp add: no_json_def echo_desktop_def response_json_def)
  have "fst (load_config ?env (sample_page ())) = Inr []" by code_simp
  then obtain w' where l: "load_config ?env (sample_page ()) = (Inr [], w')" by (metis prod.collapse)
  have fetch: "se_fetch ?env = tauri_fetch echo_desktop" by (simp add: sample_save_env_def)
  from desktop_protection_unknown [OF fetch page l, of "\<lambda>q cs. Text ''reset''" "()"] fetch l
  show ?thesis by simp
qed

end
