(* ===== verification/BrowserDialogs.thy ===== *)
theory BrowserDialogs
  imports Dialogs JsObject
begin

text \<open>
  The dialogs of a page without the application's own ones (\<open>js-runtime.ts\<close>): the texts given to
  \<open>alert\<close>, \<open>confirm\<close> and \<open>prompt\<close>, and the reading of a choice by its number. What the browser's
  \<open>prompt\<close> returns is a parameter.
\<close>

definition blank_line :: string where
  "blank_line = [CHR 0x0A, CHR 0x0A]"

definition titled_message :: "string \<Rightarrow> string \<Rightarrow> string" where
  "titled_message title message = (if title \<noteq> [] then title @ blank_line @ message else message)"

text \<open>The text and the prefilled answer of a prompt.\<close>

definition browser_prompt :: "string \<Rightarrow> string \<Rightarrow> string \<Rightarrow> string \<Rightarrow> string \<times> string" where
  "browser_prompt title message value placeholder =
     (titled_message title message, if value \<noteq> [] then value else placeholder)"

definition choice_line :: "nat \<Rightarrow> dialog_choice \<Rightarrow> string" where
  "choice_line i c =
     nat_str (i + 1) @ ''. '' @ dc_label c
     @ (case dc_description c of Some d \<Rightarrow> if d \<noteq> [] then '' - '' @ d else [] | None \<Rightarrow> [])"

definition choice_prompt :: "string \<Rightarrow> string \<Rightarrow> dialog_choice list \<Rightarrow> string" where
  "choice_prompt title message choices =
     (let choice_text = join [CHR 0x0A] (map2 choice_line [0..<length choices] choices);
          body = message @ blank_line @ choice_text @ blank_line @ ''Enter number (1-'' @ nat_str (length choices) @ ''):''
      in if title \<noteq> [] then title @ blank_line @ body else body)"

text \<open>\<open>parseInt(s, 10)\<close>, \<open>None\<close> for \<open>NaN\<close>\<close>

definition parse_int :: "string \<Rightarrow> int option" where
  "parse_int s =
     (let t = dropWhile is_space s;
          negative = starts_with ''-'' t;
          digits = takeWhile is_digit (if negative \<or> starts_with ''+'' t then tl t else t)
      in if digits = [] then None
         else Some (if negative then - int (str_nat digits) else int (str_nat digits)))"

definition browser_choose :: "(string \<Rightarrow> string option) \<Rightarrow> string \<Rightarrow> string \<Rightarrow> dialog_choice list \<Rightarrow> string option" where
  "browser_choose ask title message choices =
     (if choices = [] then None
      else (case ask (choice_prompt title message choices) of
          None \<Rightarrow> None
        | Some answer \<Rightarrow>
            (if answer = [] then None
             else (case parse_int answer of
                 None \<Rightarrow> None
               | Some k \<Rightarrow>
                   (let index = k - 1
                    in if 0 \<le> index \<and> index < int (length choices)
                       then Some (dc_value (choices ! nat index)) else None)))))"

section \<open>Publishing the dialogs\<close>

text \<open>A dialog of the browser is put on the window only where there is none yet; the application's own four
  are put there in any case. Functions are opaque values.\<close>

definition default_dialog :: "string \<Rightarrow> jval \<Rightarrow> obj \<Rightarrow> obj" where
  "default_dialog name own window = (if oget window name = Undef then oput name own window else window)"

definition install_dialogs :: "jval \<Rightarrow> jval \<Rightarrow> jval \<Rightarrow> jval \<Rightarrow> obj \<Rightarrow> obj" where
  "install_dialogs alert confirm prompt pick window =
     oput ''mqbChoose'' pick (oput ''mqbPrompt'' prompt (oput ''mqbConfirm'' confirm (oput ''mqbAlert'' alert window)))"

section \<open>Facts\<close>

text \<open>Whichever script runs first, the application's dialogs are the ones that are called.\<close>

lemma installed_dialogs_win:
  assumes "confirm \<noteq> Undef"
  shows "oget (default_dialog ''mqbConfirm'' own (install_dialogs alert confirm prompt pick window)) ''mqbConfirm'' = confirm"
    and "oget (install_dialogs alert confirm prompt pick (default_dialog ''mqbConfirm'' own window)) ''mqbConfirm'' = confirm"
  using assms by (simp_all add: default_dialog_def install_dialogs_def)

lemma parse_int_nat_str: "parse_int (nat_str n) = Some (int n)"
proof -
  have digits: "list_all is_digit (nat_str n)" and ne: "nat_str n \<noteq> []"
    using nat_str_digits by (auto simp: list_all_iff)
  then have "\<not> is_space (hd (nat_str n)) \<and> hd (nat_str n) \<noteq> CHR ''-'' \<and> hd (nat_str n) \<noteq> CHR ''+''"
    by (cases "nat_str n") (auto simp: is_digit_def is_space_def Let_def)
  moreover have "takeWhile is_digit (nat_str n) = nat_str n"
    using digits by (simp add: list_all_iff takeWhile_eq_all_conv)
  moreover have "str_nat (nat_str n) = n" by simp
  ultimately show ?thesis using ne by (cases "nat_str n") (auto simp: parse_int_def Let_def)
qed

text \<open>The number of an entry chooses it, and nothing but an entry is ever chosen.\<close>

lemma number_chooses:
  "i < length choices \<Longrightarrow> ask (choice_prompt title message choices) = Some (nat_str (i + 1))
    \<Longrightarrow> browser_choose ask title message choices = Some (dc_value (choices ! i))"
  by (auto simp: browser_choose_def parse_int_nat_str)

lemma chosen_is_offered: "browser_choose ask title message choices = Some v \<Longrightarrow> v \<in> dc_value ` set choices"
  by (auto simp: browser_choose_def Let_def split: if_splits option.splits)

end
