(* ===== verification/PageStart.thy ===== *)
theory PageStart
  imports SaveFlow RuntimeStatus Settings
begin

text \<open>
  The start of the page (the last part of \<open>bootstrapApp\<close> in \<open>bootstrap.ts\<close>, \<open>main.ts\<close>): after
  the configuration is loaded, the first poll, the tab that is opened and the poller; and the small
  helpers around it in \<open>bootstrap.ts\<close>, \<open>utils.ts\<close>, \<open>settings.ts\<close> and \<open>dialogs.ts\<close>.
\<close>

section \<open>Starting the application\<close>

text \<open>The navigation part of a new page: the default application state and the panels' stores.\<close>

definition fresh_nav :: "string \<Rightarrow> nat \<Rightarrow> nat \<Rightarrow> nav_state" where
  "fresh_nav location consumers publishers =
     \<lparr>hash = location, active_tab = Publishers, consumers_initialized = False, publishers_initialized = False,
      config_initialized = False, pending_consumer_restore = None, pending_publisher_restore = None,
      last_consumer_idx = Some 0, last_publisher_idx = Some 0, last_consumer_tab = ''messages'',
      last_publisher_tab = ''payload'', win_last_publisher_idx = None, win_last_publisher_tab = None,
      cons_selected = 0, cons_subtab = ''messages'', pub_selected = 0, pub_subtab = ''payload'',
      n_consumers = consumers, n_publishers = publishers\<rparr>"

definition open_start_tab :: "string \<Rightarrow> string list \<Rightarrow> jval \<Rightarrow> nav_state \<Rightarrow> nav_state" where
  "open_start_tab startup_hash active configured s =
     (let default_tab = pick_default_tab startup_hash active configured
      in switch_main default_tab (if startup_hash \<noteq> [] then s\<lparr>hash := startup_hash\<rparr> else s))"

text \<open>\<open>runtimeStatusPoller.poll()\<close> with its answers, then \<open>stop\<close> and \<open>start\<close>.\<close>

definition first_poll :: "bool \<Rightarrow> (nat \<Rightarrow> js_error + response) \<Rightarrow> (nat \<Rightarrow> js_error + response) \<Rightarrow> poller \<Rightarrow> poller" where
  "first_poll peers replies peer_replies p = answer_all replies peer_replies (begin_poll peers False p)"

definition restart_poller :: "poller \<Rightarrow> poller" where
  "restart_poller p = (p\<lparr>pr_timer := False\<rparr>)\<lparr>pr_timer := True\<rparr>"

text \<open>\<open>ap_failed\<close>: the page shows that it could not be initialised.\<close>

record 'n application =
  ap_page :: "'n save_world"
  ap_nav :: nav_state
  ap_poller :: poller
  ap_failed :: bool

definition start_application ::
    "'n save_env \<Rightarrow> (string \<Rightarrow> dialog_choice list \<Rightarrow> dialog_answer) \<Rightarrow> (nat \<Rightarrow> js_error + response)
     \<Rightarrow> (nat \<Rightarrow> js_error + response) \<Rightarrow> string \<Rightarrow> 'n save_world \<Rightarrow> 'n application" where
  "start_application env choice replies peer_replies startup_hash w =
     (case bootstrap_app env choice w of
        (Inl e, w') \<Rightarrow> \<lparr>ap_page = w', ap_nav = fresh_nav startup_hash 0 0, ap_poller = create_runtime_status_poller, ap_failed = True\<rparr>
      | (Inr _, w') \<Rightarrow>
          (let config = sw_config w';
               polled = first_poll True replies peer_replies create_runtime_status_poller;
               active = (case rev (pr_published polled) of status # _ \<Rightarrow> active_routes status | [] \<Rightarrow> []);
               nav = fresh_nav startup_hash (length (array_or_empty (oget config ''consumers'')))
                       (length (array_or_empty (oget config ''publishers'')))
           in \<lparr>ap_page = w', ap_nav = open_start_tab startup_hash active (oget config ''default_tab'') nav,
               ap_poller = restart_poller polled, ap_failed = False\<rparr>))"

section \<open>Helpers of the page\<close>

definition handle_action_key :: "string \<Rightarrow> ('s \<Rightarrow> 's) \<Rightarrow> 's \<Rightarrow> bool \<times> 's" where
  "handle_action_key key action s = (if key = ''Enter'' \<or> key = '' '' then (True, action s) else (False, s))"

definition theme_preference :: "jval \<Rightarrow> string option" where
  "theme_preference value =
     (if value = JStr ''auto'' \<or> value = JStr ''light'' \<or> value = JStr ''dark'' then Some (to_str value) else None)"

text \<open>A file input: the chosen file as what reading it gives, and the value the input shows.\<close>

record file_input =
  fi_file :: "(js_error + string) option"
  fi_value :: string

definition with_selected_file_text ::
    "(string \<Rightarrow> ('s, unit) promise) \<Rightarrow> file_input option \<Rightarrow> 's \<Rightarrow> (js_error + unit) \<times> file_input option \<times> 's" where
  "with_selected_file_text on_text input s =
     (case input of
        None \<Rightarrow> (Inr (), None, s)
      | Some i \<Rightarrow>
          (case fi_file i of
             None \<Rightarrow> (Inr (), Some i, s)
           | Some read \<Rightarrow>
               (case await (resolved read) on_text s of (r, s') \<Rightarrow> (r, Some (i\<lparr>fi_value := []\<rparr>), s'))))"

text \<open>The selects of the settings form, as the values of their options.\<close>

definition is_mode_select :: "string list \<Rightarrow> bool" where
  "is_mode_select options = (3 \<le> length (filter (\<lambda>v. v \<in> set storage_mode_values) options))"

fun prune_first :: "string set \<Rightarrow> string list list \<Rightarrow> string list list" where
  "prune_first allowed [] = []"
| "prune_first allowed (options # selects) =
     (if is_mode_select options
      then filter (\<lambda>v. \<not> (v \<in> set storage_mode_values \<and> v \<notin> allowed)) options # selects
      else options # prune_first allowed selects)"

definition prune_storage_mode_options :: "storage_security option \<Rightarrow> string list list \<Rightarrow> string list list" where
  "prune_storage_mode_options info selects =
     (case info of None \<Rightarrow> selects | Some i \<Rightarrow> prune_first (set (available_storage_mode_values i)) selects)"

record save_button =
  sb_text :: string
  sb_base :: "string option"
  sb_saving :: bool
  sb_marked_dirty :: bool
  sb_is_dirty :: bool

definition sync_save_button_label :: "save_button option \<Rightarrow> save_button option" where
  "sync_save_button_label button =
     map_option (\<lambda>b.
       let base = (case sb_base b of Some t \<Rightarrow> if t \<noteq> [] then Some t else None | None \<Rightarrow> None);
           lab = (case base of Some t \<Rightarrow> t
                  | None \<Rightarrow> if js_trim (sb_text b) \<noteq> [] then js_trim (sb_text b) else ''Save'');
           labelled = b\<lparr>sb_base := Some lab\<rparr>
       in if sb_saving b then labelled else labelled\<lparr>sb_is_dirty := sb_marked_dirty b\<rparr>) button"

definition register_before_workspace_save :: "string \<Rightarrow> before_hook \<Rightarrow> 'n save_world \<Rightarrow> 'n save_world" where
  "register_before_workspace_save key callback w =
     (if key = [] then w else w\<lparr>sw_before_hooks := oput key callback (sw_before_hooks w)\<rparr>)"

definition register_after_workspace_save :: "string \<Rightarrow> after_hook \<Rightarrow> 'n save_world \<Rightarrow> 'n save_world" where
  "register_after_workspace_save key callback w =
     (if key = [] then w else w\<lparr>sw_after_hooks := oput key callback (sw_after_hooks w)\<rparr>)"

section \<open>Facts\<close>

text \<open>Whatever the reading or the handler ends with, the input is emptied, so the same file can be chosen again.\<close>

lemma file_input_emptied:
  "with_selected_file_text on_text (Some i) s = (r, j, s') \<Longrightarrow> fi_file i \<noteq> None \<Longrightarrow> j = Some (i\<lparr>fi_value := []\<rparr>)"
  by (auto simp: with_selected_file_text_def split: prod.splits)

lemma prune_first_exact:
  "list_all2 (\<lambda>before after. set after \<subseteq> set before \<and> (\<forall>v \<in> set before. v \<notin> set storage_mode_values \<or> v \<in> allowed \<longrightarrow> v \<in> set after))
     selects (prune_first allowed selects)"
  by (induction selects) (auto intro: list.rel_refl)

lemma pruned_select_offers_available:
  "selects = others @ options # rest \<Longrightarrow> \<not> list_ex is_mode_select others \<Longrightarrow> is_mode_select options
   \<Longrightarrow> \<exists>left. prune_storage_mode_options (Some info) selects = others @ left # rest
     \<and> (\<forall>v \<in> set left. v \<in> set storage_mode_values \<longrightarrow> v \<in> set (available_storage_mode_values info))"
  unfolding prune_storage_mode_options_def
  by (induction others arbitrary: selects) auto

lemma sync_label_idem: "sync_save_button_label (sync_save_button_label b) = sync_save_button_label b"
  by (cases b) (auto simp: sync_save_button_label_def Let_def split: option.splits)

lemma first_poll_steps: "poller_steps peers p (first_poll peers replies peer_replies p)"
proof -
  have "poller_step peers p (begin_poll peers False p)" by (rule poller_step.call)
  then show ?thesis
    using answer_all_steps [of peers "begin_poll peers False p" replies peer_replies]
    unfolding first_poll_def by (rule converse_rtranclp_into_rtranclp)
qed

lemma restart_poller_steps: "poller_steps peers p (restart_poller p)"
proof -
  have "poller_step peers p (p\<lparr>pr_timer := False\<rparr>)" by (rule poller_step.stop)
  moreover have "poller_step peers (p\<lparr>pr_timer := False\<rparr>) (restart_poller p)"
    unfolding restart_poller_def by (rule poller_step.start)
  ultimately show ?thesis by (meson converse_rtranclp_into_rtranclp rtranclp.rtrancl_refl)
qed

lemma fresh_nav_sel [simp]:
  "n_consumers (fresh_nav h m n) = m" "n_publishers (fresh_nav h m n) = n" "hash (fresh_nav h m n) = h"
  by (simp_all add: fresh_nav_def)

lemma restored_fields [simp]:
  "hash (restore_consumer_state i tab s) = ''#consumers:'' @ int_str (clamp_index i (n_consumers s))"
  "n_consumers (restore_consumer_state i tab s) = n_consumers s"
  "cons_selected (restore_consumer_state i tab s) = clamp_index i (n_consumers s)"
  "active_tab (restore_consumer_state i tab s) = active_tab s"
  "pending_consumer_restore (restore_consumer_state i tab s) = pending_consumer_restore s"
  "tab \<noteq> [] \<Longrightarrow> last_consumer_tab (restore_consumer_state i tab s) = tab"
  "tab \<noteq> [] \<Longrightarrow> cons_subtab (restore_consumer_state i tab s) = tab"
  "hash (restore_publisher_state i tab s) = ''#publishers:'' @ int_str (clamp_index i (n_publishers s))"
  "n_publishers (restore_publisher_state i tab s) = n_publishers s"
  "pub_selected (restore_publisher_state i tab s) = clamp_index i (n_publishers s)"
  "active_tab (restore_publisher_state i tab s) = active_tab s"
  "pending_publisher_restore (restore_publisher_state i tab s) = pending_publisher_restore s"
  "tab \<noteq> [] \<Longrightarrow> last_publisher_tab (restore_publisher_state i tab s) = tab"
  "tab \<noteq> [] \<Longrightarrow> pub_subtab (restore_publisher_state i tab s) = tab"
  by (simp_all add: restore_consumer_state_def restore_publisher_state_def Let_def del: int_str_nat)

text \<open>A first switch to a list whose entry the address names ends with that entry.\<close>

lemma first_switch_consumers:
  assumes h: "hash s = ''#consumers:'' @ int_str (int i)" and new: "\<not> consumers_initialized s"
    and none: "pending_consumer_restore s = None" and tab: "last_consumer_tab s = tab" "tab \<noteq> []"
  shows "\<exists>s'. switch_main Consumers s = restore_consumer_state (clamp_index (int i) (n_consumers s)) tab s'
    \<and> n_consumers s' = n_consumers s \<and> active_tab s' = Consumers"
proof -
  let ?s2 = "(remember_selection_from_hash (hash s) s)\<lparr>active_tab := Consumers\<rparr>"
  have s2: "?s2 = s\<lparr>last_consumer_idx := Some (int i), active_tab := Consumers\<rparr>"
    by (simp add: h remember_selection_from_hash_def del: int_str_nat)
  let ?s2' = "?s2\<lparr>cons_selected := int i, cons_subtab := ''messages''\<rparr>"
  have init: "init_tab_if_needed Consumers ?s2 = (restore_consumer_state (int i) tab ?s2')\<lparr>consumers_initialized := True\<rparr>"
    using new tab unfolding s2 by (simp add: init_tab_if_needed_def init_consumers_nav_def h Let_def del: int_str_nat)
  let ?s3 = "(restore_consumer_state (int i) tab ?s2')\<lparr>consumers_initialized := True\<rparr>"
  have h3: "hash ?s3 = ''#consumers:'' @ int_str (clamp_index (int i) (n_consumers s))" unfolding s2 by (simp del: int_str_nat)
  let ?c = "clamp_index (int i) (n_consumers s)"
  have "restore_tab_state Consumers ?s3 = restore_consumer_state ?c tab ((clear_pending ?s3)\<lparr>last_consumer_idx := Some ?c\<rparr>)"
    using none tab h3 unfolding s2 by (simp add: restore_tab_state_def Let_def del: int_str_nat)
  then have "switch_main Consumers s = restore_consumer_state ?c tab ((clear_pending ?s3)\<lparr>last_consumer_idx := Some ?c\<rparr>)"
    by (simp add: switch_main_def init Let_def del: int_str_nat)
  then show ?thesis
    by (intro exI [of _ "(clear_pending ?s3)\<lparr>last_consumer_idx := Some ?c\<rparr>"]) (simp add: s2 clear_pending_def)
qed

lemma first_switch_publishers:
  assumes h: "hash s = ''#publishers:'' @ int_str (int i)" and new: "\<not> publishers_initialized s"
    and none: "pending_publisher_restore s = None" and tab: "win_last_publisher_tab s = None"
  shows "\<exists>s'. switch_main Publishers s = restore_publisher_state (clamp_index (int i) (n_publishers s)) ''payload'' s'
    \<and> n_publishers s' = n_publishers s \<and> active_tab s' = Publishers"
proof -
  let ?s2 = "(remember_selection_from_hash (hash s) s)\<lparr>active_tab := Publishers\<rparr>"
  have s2: "?s2 = s\<lparr>last_publisher_idx := Some (int i), active_tab := Publishers\<rparr>"
    by (simp add: h remember_selection_from_hash_def del: int_str_nat)
  let ?s2' = "?s2\<lparr>pub_selected := int i\<rparr>"
  have init: "init_tab_if_needed Publishers ?s2 = (restore_publisher_state (int i) ''payload'' ?s2')\<lparr>publishers_initialized := True\<rparr>"
    using new tab unfolding s2 by (simp add: init_tab_if_needed_def init_publishers_nav_def h Let_def del: int_str_nat)
  let ?s3 = "(restore_publisher_state (int i) ''payload'' ?s2')\<lparr>publishers_initialized := True\<rparr>"
  have h3: "hash ?s3 = ''#publishers:'' @ int_str (clamp_index (int i) (n_publishers s))" unfolding s2 by (simp del: int_str_nat)
  let ?c = "clamp_index (int i) (n_publishers s)"
  have "restore_tab_state Publishers ?s3 = restore_publisher_state ?c ''payload'' ((clear_pending ?s3)\<lparr>last_publisher_idx := Some ?c\<rparr>)"
    using none h3 unfolding s2 by (simp add: restore_tab_state_def Let_def del: int_str_nat)
  then have "switch_main Publishers s = restore_publisher_state ?c ''payload'' ((clear_pending ?s3)\<lparr>last_publisher_idx := Some ?c\<rparr>)"
    by (simp add: switch_main_def init Let_def del: int_str_nat)
  then show ?thesis
    by (intro exI [of _ "(clear_pending ?s3)\<lparr>last_publisher_idx := Some ?c\<rparr>"]) (simp add: s2 clear_pending_def)
qed

definition configured_tab :: "jval \<Rightarrow> main_tab" where
  "configured_tab v = (if v = JStr ''consumers'' then Consumers else if v = JStr ''config'' then Config else Publishers)"

section \<open>Properties\<close>


text \<open>A server with three consumers and one publisher.\<close>

definition small_server :: "unit fetch" where
  "small_server rq n = (Inr \<lparr>rs_ok = True, rs_status = 200, rs_status_text = [],
     rs_body = Some (if rq_path rq = ''/config'' then ''{\"consumers\":[{},{},{}],\"publishers\":[{}],\"default_tab\":\"config\"}''
                     else ''{}'')\<rparr>, n)"


end
