(* ===== verification/Spec2Isabelle.thy ===== *)
theory Spec2Isabelle
  imports Names Routing PublisherTree ConsumerTree Workspace Storage SaveError DirtyState ImportExport
    Dialogs RuntimeStatus PeerStatus PayloadFormat Settings FormSchema SaveFlow PublisherInvariant
    SidebarTree FormEditors PayloadEditor PanelPages WindowBridge DesktopBridge BrowserDialogs PageStart
begin

text \<open>
  \<^bold>\<open>mq-bridge-app, the browser side.\<close>

  The application configures a message bridge: consumers (an input endpoint and the messages
  captured from it), publishers (requests that can be sent), routes between endpoints. The server
  is a Rust program; the page in \<open>src/ui/src\<close> keeps a working copy of the configuration,
  edits it, saves whole or single sections of it, and keeps drafts and histories in the browser's
  storage. This development models the TypeScript of that page, module by module; every file name
  below is under \<open>src/ui/src/lib\<close> unless it says otherwise.

  \<^bold>\<open>Data.\<close> A configuration is a JSON document that passes through many versions of the
  program, so the sources treat it as an untyped value; so does the model.
  \<^item> \<open>Prelude\<close>: the lemma collections and the facts on lists and options that are shared.
  \<^item> \<open>JsValue\<close>, \<open>JsObject\<close>: strings (lists of code units up to 255, with the trimming,
    splitting and case functions the sources call), the values of the language (\<open>jval\<close>),
    truthiness, \<open>String(v)\<close>, property access, spread, the order in which an object is
    enumerated, \<open>JSON.parse(JSON.stringify(v))\<close>.
  \<^item> \<open>Json\<close>: \<open>JSON.stringify\<close> with and without indentation and \<open>JSON.parse\<close>. The
    parser runs on fuel, the length of the text and one more; the round trip is proved with
    exactly that fuel, so no text the program writes exhausts it.
  \<^item> \<open>Base64\<close>: UTF-8 of those code units on \<open>8 word\<close>, \<open>btoa\<close> and \<open>atob\<close>.

  \<^bold>\<open>Components.\<close>
  \<^item> \<open>Names\<close> (\<open>utils.ts\<close>, \<open>routes.ts\<close>, and the generators in \<open>import-export.ts\<close> and
    \<open>workspace-config.ts\<close>): the unique-name loops with their termination, under the contract
    \<open>fresh_namer\<close>: a name that is not taken, the least such suffix, distinct consumer names.
  \<^item> \<open>Routing\<close> (\<open>routing.ts\<close>, \<open>view-navigation.ts\<close>, tab part of \<open>bootstrap.ts\<close>):
    hashes, tabs and what is selected after a switch.
  \<^item> \<open>Kinds\<close> (\<open>endpoint-metadata.ts\<close>): the registry of endpoint kinds, registration from the
    server's schema, the collections derived from it.
  \<^item> \<open>Endpoint\<close> (\<open>endpoint-utils.ts\<close>): type of an endpoint, defaults, the conversion between
    a client's and a listener's endpoint.
  \<^item> \<open>Labels\<close> (\<open>utils.ts\<close>), \<open>Grouping\<close>, \<open>PublisherTree\<close>, \<open>ConsumerTree\<close>
    (\<open>grouping-utils.ts\<close>, \<open>publisher-grouping.ts\<close>, \<open>consumer-grouping.ts\<close>): the labels
    and the trees of the sidebars: every entity that is not hidden appears in exactly one leaf, no
    credential of a URL in a label.
  \<^item> \<open>Workspace\<close> (\<open>workspace-config.ts\<close>): normalisation and migration of a loaded
    configuration; both are idempotent, presets are appended without loss.
  \<^item> \<open>StorageSecurity\<close>, \<open>Storage\<close> (\<open>storage-security.ts\<close>,
    \<open>encrypted-json-storage.ts\<close>, \<open>storage.ts\<close>, \<open>storage/app-storage.ts\<close>): the policy,
    envelopes and the key registry; round trip, an envelope opens only under its own key, keys do
    not disturb each other.
  \<^item> \<open>SaveError\<close> (\<open>save-error.ts\<close>): explaining a rejected configuration; the search for the
    place of a byte offset and for the deepest object without a required field, against reference
    definitions.
  \<^item> \<open>DirtyState\<close> (\<open>dirty-state.ts\<close>): trackers of unsaved changes, their registry.
  \<^item> \<open>ConfigApi\<close> (\<open>config-api.ts\<close>): requests to the server, with an abstract server as
    specification.
  \<^item> \<open>ImportParse\<close>, \<open>ImportExport\<close> (\<open>import-export.ts\<close>): reading Postman, OpenAPI and
    AsyncAPI documents, export, and the import handlers on the live configuration.
  \<^item> \<open>Dialogs\<close> (\<open>dialogs.ts\<close>): the queue of dialogs under the contract \<open>fifo\<close>.
  \<^item> \<open>RuntimeStatus\<close>, \<open>PeerStatus\<close> (\<open>runtime-status.ts\<close>, \<open>peer-status.ts\<close>): the
    status document, the poller as a step relation (polls do not overlap, a refusal is final,
    it recovers from failures), and the rows for other instances.
  \<^item> \<open>PayloadFormat\<close> (\<open>payload-format.ts\<close>), \<open>Settings\<close> (\<open>settings.ts\<close>),
    \<open>FormSchema\<close> (\<open>schema-utils.ts\<close>, \<open>routes.ts\<close>).
  \<^item> \<open>SaveFlow\<close> (\<open>bootstrap.ts\<close>, \<open>feature-detection.ts\<close>, \<open>settings.ts\<close>): loading,
    saving all or one section, recovery after a failed save. It composes \<open>ConfigApi\<close>,
    \<open>DirtyState\<close> and \<open>Workspace\<close>: after a save that succeeds the server, the working copy and
    the baselines of the trackers agree; after one that fails nothing of the working copy is lost.

  \<^bold>\<open>The consumers panel\<close> (\<open>consumers-view.ts\<close>, its store in \<open>state/app-stores.ts\<close>). Its module variables,
  the panel's store, the selection and the live configuration are one record, \<open>cons_world\<close>; every
  exported action and every timer turn is a function on it.
  \<^item> \<open>ConsumerMessages\<close>: the normal form of a consumer, its keys, captured messages, status texts.
  \<^item> \<open>ConsumersView\<close>: the state, publishers as outputs, the canned response, what the panel draws.
  \<^item> \<open>ConsumerActions\<close>: selecting, the form and its drafts, editing, the stored messages.
  \<^item> \<open>ConsumerRuntime\<close>: copies, exports, deleting, saving, starting and stopping, the capture of
    messages (\<open>plan_poll\<close> before a request, \<open>land_messages\<close> when its answer is there), imports, start.
  \<^item> \<open>ConsumerFacts\<close>: a finished consumer is polled once, the capture is bounded and keeps the newest,
    header rows being edited survive a redraw, and what a finished consumer reported is lost
    before it reaches the panel.
  \<^item> \<open>PanelRuns\<close>, \<open>ConsumerInvariant\<close>: the interface \<open>panel_actions\<close> of a panel that is started
    and then takes any actions, and its instance for this panel: the consumers stay well formed.

  \<^bold>\<open>The publishers panel\<close> (\<open>publishers-view.ts\<close>), in the same way on \<open>pub_world\<close>. Writing to the
  browser's storage may throw, so its actions are promises on that record.
  \<^item> \<open>PublisherRequest\<close>: the request bar, the posted request, answers, history entries, the command
    line for copying.
  \<^item> \<open>PublishersView\<close>: the state, the browser's storage, what is kept under a publisher's identifier
    and name, header rows, what the panel draws.
  \<^item> \<open>PublisherActions\<close>: the form, editing, the references consumers hold, saving, deleting.
  \<^item> \<open>PublisherRuntime\<close>: publishing, the history, clipboard, copies, exports, imports, start.
  \<^item> \<open>PublisherFacts\<close>, \<open>PublisherSend\<close>: identifiers of header rows, the copied command read by a
    shell, the typed address, references after a rename, the history of sent messages, drafts after
    a restart, and three theorems about what a save or a refused deletion does against its purpose.
  \<^item> \<open>PublisherInvariant\<close>: the instance of \<open>panel_actions\<close> for this panel.
  An action of either panel runs without interruption: its requests are answered before the next
  action starts, except that the answer of a poll and of a published message are steps of their own.
  Answers of dialogs, what a focused form field reports when it loses the focus and the text of the
  form's name field are arguments of the action that waits for them.

  \<^bold>\<open>The start of the page.\<close> \<open>PageStart\<close> (end of \<open>../bootstrap.ts\<close>, \<open>../main.ts\<close>, helpers of \<open>utils.ts\<close> and
  \<open>settings.ts\<close>) composes the loading of the configuration (\<open>SaveFlow\<close>), the first poll and the poller
  (\<open>RuntimeStatus\<close>) and the navigation (\<open>Routing\<close>): an address that names an entry opens it.

  \<^bold>\<open>The form renderer\<close> (\<open>forms/\<close>). The forms are drawn by a third-party library from the schema; the
  sources add renderers and decide what is shown, in which order, and what an edit writes back.
  \<^item> \<open>FormPaths\<close> (\<open>forms/custom-form.ts\<close>): the paths of fields, reading and writing at a path with the laws
    of a lens, and the static and ref endpoints, which are a text or an object around one.
  \<^item> \<open>FormFields\<close> (\<open>forms/custom-form.ts\<close>, \<open>forms/password-field-visibility.ts\<close>,
    \<open>forms/PasswordField.svelte\<close>, \<open>desktop-file-dialog.ts\<close>): what is hidden, labels, the widget of a field, the
    split of an endpoint's fields (no field lost), masked credentials.
  \<^item> \<open>FormEditors\<close> (\<open>forms/custom-form.ts\<close>, \<open>forms/HeadersEditor.svelte\<close>): the editors with what they
    commit: null booleans, TLS, basic auth, key/value rows, transform mappings and schemas, and the table of
    renderers.

  \<^bold>\<open>The page components\<close> (\<open>../components/*.svelte\<close>), their script parts.
  \<^item> \<open>SidebarTree\<close> (\<open>ConsumersPanel.svelte\<close>, \<open>PublishersPanel.svelte\<close>): searching, flattening and
    expanding the trees of the sidebars; both panels instantiate the contract \<open>tree_search\<close>, and the state of the
    groups is an invariant of a step relation.
  \<^item> \<open>PayloadEditor\<close> (\<open>PayloadDisplay.svelte\<close>): the editor of a payload with its view modes, the hex view read
    back, the XML beautifier.
  \<^item> \<open>PanelPages\<close>: opening an entry, importing a file, the panes, notices and small dialogs of the components,
    \<open>sidebar-ui.ts\<close>.
  \<^item> \<open>BrowserDialogs\<close> (\<open>../js-runtime.ts\<close>): the dialogs of a page without the application's own.

  \<^bold>\<open>The window and the desktop.\<close>
  \<^item> \<open>WindowBridge\<close> (\<open>app-shell.ts\<close>, \<open>runtime-window.ts\<close>): the bridge to functions and values on the
    window, the application's default state, and the legacy globals.
  \<^item> \<open>DesktopBridge\<close> (\<open>src/crates/core/static/tauri-bridge.js\<close>): the \<open>fetch\<close> of the desktop build as
    an instance of the network that \<open>ConfigApi\<close>, \<open>SaveFlow\<close> and the panels take as a parameter: a request about a
    consumer reaches the command with that consumer, and the requests it does not take.

  \<^bold>\<open>Conventions.\<close> An exception or a rejected promise is the left side of a sum, a result that
  may be \<open>undefined\<close> is an option or the value \<open>Undef\<close>. State that handlers change is a record
  passed along. Loops that always end are total functions with their measure; a loop that depends
  on the text it reads has fuel, with the bound stated beside it.
  Parameters stand for what is not in the sources: the network and the server behind it, the
  cipher of the message store (\<open>crypto.subtle\<close>, used with the law that a text sealed under a key
  and its associated data opens to itself), the URL parser and \<open>TextDecoder\<close> of the platform,
  \<open>localeCompare\<close>, fresh identifiers, the clock, and symbols outside the range of the strings.

  \<^bold>\<open>Bounds of the model.\<close> Numbers are the integers a configuration carries (no fractions, no
  rounding above \<open>2\<^sup>5\<^sup>3\<close>); code units are at most 255; property names that
  \<open>Object.prototype\<close> defines are not used as keys.

  \<^bold>\<open>Not modelled.\<close> Of the two panels: the drawing of the form by the third-party library (what it is
  given is modelled, and what it reports back), the marks of unsaved changes (\<open>refreshDirtySection\<close>,
  \<open>registerDirtySection\<close>), which \<open>DirtyState\<close> models, the timers themselves, and in
  \<open>importMqbToPublisherAction\<close> the copy of the configuration on \<open>window\<close>. Of the form renderer: the page
  elements the renderers build and the observers that relabel them when the library redraws. Of the components: the markup, the CodeMirror editor and its
  XML linter, focus, clipboard feedback and theme. \<open>browser.ts\<close>, \<open>state/peer-status.svelte.ts\<close> and \<open>main.ts\<close> only
  call the platform. The generated types and the built page (\<open>static/index.js\<close>) carry no source of their own; the
  server and the desktop program are written in Rust and are reached through the network or \<open>invoke\<close> only.
\<close>

end
